theory Spec2Isabelle
  imports Complex_Main "HOL-Library.AList"
begin

section \<open>The optimized BAYC pipeline (src/pages/api/get-saved-results.ts)\<close>

text \<open>
  A shallow embedding of the optimized implementation. JavaScript numbers that hold
  block numbers, timestamps, page sizes and counts are integers far below \<open>2^53\<close>, so
  they are modelled as \<open>int\<close> or \<open>nat\<close>; \<open>ethers.BigNumber\<close> is arbitrary precision
  and is modelled as \<open>int\<close>. Every network call (Etherscan, the subgraph, the JSON-RPC
  provider, the Multicall3 contract) is a field of an environment record, and a call
  that throws is a constructor of its answer type. A thrown JavaScript error is its
  message, a \<open>string\<close>; a function that can throw returns \<open>string + 'a\<close>, with
  \<open>Inl\<close> the error. Module-level variables are passed in explicitly. Logging is left out.
\<close>

subsection \<open>Numbers and strings\<close>

text \<open>
  The ethers library is not part of the repository. \<open>BigNumber.from(string)\<close> and
  \<open>BigNumber.toString()\<close> follow the library's documented behaviour: \<open>from\<close> accepts
  \<open>-?0x[0-9a-f]+\<close> (case-insensitive) as hexadecimal and \<open>-?[0-9]+\<close> as decimal and
  throws on every other string (\<open>None\<close>); \<open>toString\<close> is the decimal numeral.
\<close>

definition isDigit :: "char \<Rightarrow> bool" where
  "isDigit c = (48 \<le> (of_char c :: nat) \<and> (of_char c :: nat) \<le> 57)"

definition isHexDigit :: "char \<Rightarrow> bool" where
  "isHexDigit c =
     (isDigit c \<or> (97 \<le> (of_char c :: nat) \<and> (of_char c :: nat) \<le> 102)
      \<or> (65 \<le> (of_char c :: nat) \<and> (of_char c :: nat) \<le> 70))"

definition digitValue :: "char \<Rightarrow> nat" where
  "digitValue c =
     (if isDigit c then of_char c - 48
      else if 97 \<le> (of_char c :: nat) then of_char c - 87
      else of_char c - 55)"

definition numeralValue :: "nat \<Rightarrow> string \<Rightarrow> nat" where
  "numeralValue base s = foldl (\<lambda>acc c. acc * base + digitValue c) 0 s"

definition unsignedFrom :: "string \<Rightarrow> nat option" where
  "unsignedFrom s =
     (case s of
        c0 # cx # hex \<Rightarrow>
          if c0 = CHR ''0'' \<and> (cx = CHR ''x'' \<or> cx = CHR ''X'') then
            (if hex \<noteq> [] \<and> list_all isHexDigit hex then Some (numeralValue 16 hex) else None)
          else if list_all isDigit s then Some (numeralValue 10 s) else None
      | _ \<Rightarrow> if s \<noteq> [] \<and> list_all isDigit s then Some (numeralValue 10 s) else None)"

definition BigNumber_from :: "string \<Rightarrow> int option" where
  "BigNumber_from s =
     (case s of
        c # rest \<Rightarrow>
          if c = CHR ''-'' then map_option (\<lambda>n. - int n) (unsignedFrom rest)
          else map_option int (unsignedFrom s)
      | [] \<Rightarrow> None)"

definition digitChar :: "nat \<Rightarrow> char" where
  "digitChar d = char_of (48 + d)"

function decimalDigits :: "nat \<Rightarrow> string" where
  "decimalDigits n =
     (if n < 10 then [digitChar n] else decimalDigits (n div 10) @ [digitChar (n mod 10)])"
  by pat_completeness auto
termination
  by (relation "measure (\<lambda>n. n)") auto

declare decimalDigits.simps [simp del]

definition BigNumber_toString :: "int \<Rightarrow> string" where
  "BigNumber_toString n =
     (if n < 0 then CHR ''-'' # decimalDigits (nat (- n)) else decimalDigits (nat n))"

text \<open>\<open>Number.prototype.toString\<close> on an integer: the decimal numeral.\<close>

definition Number_toString :: "int \<Rightarrow> string" where
  "Number_toString n =
     (if n < 0 then CHR ''-'' # decimalDigits (nat (- n)) else decimalDigits (nat n))"

text \<open>
  \<open>String.prototype.toLowerCase\<close> on the ASCII letters; addresses are ASCII
  hexadecimal strings.
\<close>

definition toLowerCase :: "string \<Rightarrow> string" where
  "toLowerCase s =
     map (\<lambda>c. if 65 \<le> (of_char c :: nat) \<and> (of_char c :: nat) \<le> 90
              then char_of ((of_char c :: nat) + 32) else c) s"


subsection \<open>Adaptive GraphQL page size\<close>

text \<open>
  \<open>updateOptimalGraphQLBatchSize(success, currentSize)\<close>, with the module variable
  \<open>optimalGraphQLBatchSize\<close> as third argument and as result. On integers
  \<open>Math.floor(c * 1.25)\<close> is \<open>(c * 5) div 4\<close> and \<open>Math.floor(c * 0.75)\<close> is
  \<open>(c * 3) div 4\<close>: both factors are exact binary fractions.
\<close>

definition updateOptimalGraphQLBatchSize :: "bool \<Rightarrow> int \<Rightarrow> int \<Rightarrow> int" where
  "updateOptimalGraphQLBatchSize success currentSize optimalGraphQLBatchSize =
     (if success then
        (if currentSize < optimalGraphQLBatchSize
         then min 10000 ((currentSize * 5) div 4)
         else optimalGraphQLBatchSize)
      else max 500 ((currentSize * 3) div 4))"

definition getSuggestedGraphQLBatchSize :: "int \<Rightarrow> int" where
  "getSuggestedGraphQLBatchSize optimalGraphQLBatchSize = optimalGraphQLBatchSize"

text \<open>The initial value of the module variable.\<close>

definition initialGraphQLBatchSize :: int where
  "initialGraphQLBatchSize = 10000"

text \<open>
  The page size of the second attempt in \<open>getBAYCHoldersAtBlock\<close>:
  \<open>Math.min(1000, Math.max(500, Math.floor(PAGE_SIZE / 2)))\<close>.
\<close>

definition fallbackPageSize :: "int \<Rightarrow> int" where
  "fallbackPageSize PAGE_SIZE = min 1000 (max 500 (PAGE_SIZE div 2))"

text \<open>
  A run of calls \<open>(success, currentSize)\<close> to \<open>updateOptimalGraphQLBatchSize\<close>, in
  order, threading the module variable.
\<close>

fun updateCalls :: "(bool \<times> int) list \<Rightarrow> int \<Rightarrow> int" where
  "updateCalls [] opt = opt"
| "updateCalls ((success, currentSize) # cs) opt =
     updateCalls cs (updateOptimalGraphQLBatchSize success currentSize opt)"

text \<open>
  What one holder fetch does to the page size. \<open>getBAYCHoldersAtBlock\<close> reads the
  suggested size once (\<open>PAGE_SIZE\<close>), reports a success at \<open>PAGE_SIZE\<close> when the
  first attempt went through, and otherwise reports a failure at \<open>PAGE_SIZE\<close>
  followed, when the second attempt went through, by a success at the fallback size.
\<close>

datatype fetch_outcome = FirstAttemptOk | SecondAttemptOk | BothAttemptsFailed

fun fetchUpdates :: "fetch_outcome \<Rightarrow> int \<Rightarrow> (bool \<times> int) list" where
  "fetchUpdates FirstAttemptOk PAGE_SIZE = [(True, PAGE_SIZE)]"
| "fetchUpdates SecondAttemptOk PAGE_SIZE =
     [(False, PAGE_SIZE), (True, fallbackPageSize PAGE_SIZE)]"
| "fetchUpdates BothAttemptsFailed PAGE_SIZE = [(False, PAGE_SIZE)]"

definition afterFetch :: "fetch_outcome \<Rightarrow> int \<Rightarrow> int" where
  "afterFetch outcome opt =
     updateCalls (fetchUpdates outcome (getSuggestedGraphQLBatchSize opt)) opt"

fun afterFetches :: "fetch_outcome list \<Rightarrow> int \<Rightarrow> int" where
  "afterFetches [] opt = opt"
| "afterFetches (outcome # rest) opt = afterFetches rest (afterFetch outcome opt)"

subsection \<open>Chain block resolver\<close>

text \<open>
  \<open>provider.getBlock(n)\<close> throws, resolves to \<open>null\<close>, or resolves to a block, of which
  only the timestamp is read. The chain is immutable, so the answer is taken to be a
  function of the block number.
\<close>

datatype block_probe = ProbeThrows string | NoBlock | Block int

text \<open>
  The Etherscan \<open>getblocknobytime\<close> request: it throws, or answers with
  \<open>response.data.status\<close> and \<open>parseInt(response.data.result)\<close>.
\<close>

datatype etherscan_block_reply = EtherscanThrows string | EtherscanReply string int

record chain_env =
  getBlock :: "int \<Rightarrow> block_probe"
  getBlockNumber :: "string + int"
  etherscanBlockByTime :: "int \<Rightarrow> etherscan_block_reply"

text \<open>
  The loop of \<open>binarySearchBlock\<close>. The arguments after the target are the loop
  variables \<open>low\<close>, \<open>high\<close>, \<open>result\<close>, \<open>iterations\<close>, \<open>lastMid\<close> and
  \<open>consecutiveErrors\<close>; \<open>iterations\<close> is the value before the increment at the top of
  the body. A thrown probe moves \<open>low\<close> up when \<open>mid = low\<close> and \<open>high\<close> down
  otherwise.
\<close>

function binarySearchLoop ::
  "(int \<Rightarrow> block_probe) \<Rightarrow> int \<Rightarrow> int \<Rightarrow> int \<Rightarrow> int \<Rightarrow> nat \<Rightarrow> int \<Rightarrow> nat \<Rightarrow> int" where
  "binarySearchLoop probe targetTimestamp low high result iterations lastMid consecutiveErrors =
     (if low \<le> high \<and> iterations < 20 then
        (let mid = (low + high) div 2 in
         if mid = lastMid then result
         else
           (case probe mid of
              NoBlock \<Rightarrow>
                if consecutiveErrors + 1 \<ge> 3 then result
                else binarySearchLoop probe targetTimestamp low (mid - 1) result
                       (iterations + 1) mid (consecutiveErrors + 1)
            | Block timestamp \<Rightarrow>
                if timestamp < targetTimestamp
                then binarySearchLoop probe targetTimestamp (mid + 1) high result
                       (iterations + 1) mid 0
                else binarySearchLoop probe targetTimestamp low (mid - 1) mid
                       (iterations + 1) mid 0
            | ProbeThrows msg \<Rightarrow>
                if consecutiveErrors + 1 \<ge> 3 then result
                else binarySearchLoop probe targetTimestamp
                       (if mid = low then low + 1 else low)
                       (if mid = low then high else mid - 1) result
                       (iterations + 1) mid (consecutiveErrors + 1)))
      else result)"
  by pat_completeness auto
termination
  by (relation "measure (\<lambda>(g, t, l, h, r, i, m, c). 20 - i)") auto

declare binarySearchLoop.simps [simp del]

text \<open>
  \<open>binarySearchBlock(low, high, targetTimestamp)\<close>: the returned block. The function
  also stores the result in \<open>blockNumberCache\<close>; no later step of the same call reads
  it, so the store is left out.
\<close>

definition binarySearchBlock :: "(int \<Rightarrow> block_probe) \<Rightarrow> int \<Rightarrow> int \<Rightarrow> int \<Rightarrow> int" where
  "binarySearchBlock probe low high targetTimestamp =
     binarySearchLoop probe targetTimestamp low high high 0 0 0"

text \<open>
  \<open>FALLBACK_DEMO_DATA.blocks\<close>, in the order \<open>Object.keys\<close> lists integer keys
  (ascending).
\<close>

definition FALLBACK_DEMO_blocks :: "(int \<times> int) list" where
  "FALLBACK_DEMO_blocks =
     [(1546300800, 6988614), (1577836800, 9193266),
      (1609459200, 11565019), (1651363200, 14723000)]"

definition hasFallbackData :: "int \<Rightarrow> bool" where
  "hasFallbackData timestamp =
     (timestamp \<in> set (map fst FALLBACK_DEMO_blocks) \<or>
      list_ex (\<lambda>t. \<bar>t - timestamp\<bar> < 86400) (map fst FALLBACK_DEMO_blocks))"

text \<open>
  The closest entry of a table to a timestamp, as the \<open>for\<close> loop of
  \<open>getFallbackBlockNumber\<close> and the \<open>reduce\<close> of \<open>getBlockNumberAtTimestamp\<close> find
  it: a later entry replaces the current one only when it is strictly closer. The loop
  runs over the entries instead of the keys, so that the final lookup of the closest
  key is the second component.
\<close>

definition closestEntry :: "int \<Rightarrow> int \<times> int \<Rightarrow> (int \<times> int) list \<Rightarrow> int \<times> int" where
  "closestEntry timestamp first others =
     foldl (\<lambda>prev curr. if \<bar>fst curr - timestamp\<bar> < \<bar>fst prev - timestamp\<bar> then curr else prev)
       first others"

definition getFallbackBlockNumber :: "int \<Rightarrow> int" where
  "getFallbackBlockNumber timestamp =
     (case map_of FALLBACK_DEMO_blocks timestamp of
        Some blockNumber \<Rightarrow> blockNumber
      | None \<Rightarrow> snd (closestEntry timestamp (hd FALLBACK_DEMO_blocks) (tl FALLBACK_DEMO_blocks)))"

text \<open>
  The block number cache is the list of its entries (timestamp, block), keys distinct.
  A cached block is used when it is truthy, that is, present and not 0.
\<close>

type_synonym BlockNumberCache = "(int \<times> int) list"

definition cachedBlockNumber :: "BlockNumberCache \<Rightarrow> int \<Rightarrow> int option" where
  "cachedBlockNumber blockNumberCache timestamp =
     (case map_of blockNumberCache timestamp of
        Some blockNumber \<Rightarrow> if blockNumber \<noteq> 0 then Some blockNumber else None
      | None \<Rightarrow> None)"

text \<open>
  The cached timestamps within 600 seconds; when the closest of them is within 30
  seconds its block is returned.
\<close>

definition veryCloseCached :: "BlockNumberCache \<Rightarrow> int \<Rightarrow> int option" where
  "veryCloseCached blockNumberCache timestampInt =
     (case filter (\<lambda>entry. \<bar>fst entry - timestampInt\<bar> < 600) blockNumberCache of
        [] \<Rightarrow> None
      | first # others \<Rightarrow>
          (let closest = closestEntry timestampInt first others in
           if \<bar>timestampInt - fst closest\<bar> < 30 then Some (snd closest) else None))"

text \<open>
  The inner \<open>try\<close> of \<open>getBlockNumberAtTimestamp\<close>: \<open>Some\<close> is a block returned from
  inside it, \<open>None\<close> is falling through to the unranged binary search (an error
  status, or an exception caught by the inner \<open>catch\<close>).
\<close>

definition etherscanLookup :: "chain_env \<Rightarrow> int \<Rightarrow> int option" where
  "etherscanLookup env timestampInt =
     (case etherscanBlockByTime env timestampInt of
        EtherscanThrows msg \<Rightarrow> None
      | EtherscanReply status blockNumber \<Rightarrow>
          if status = ''1'' then
            (case getBlock env blockNumber of
               ProbeThrows msg \<Rightarrow> None
             | NoBlock \<Rightarrow> Some blockNumber
             | Block blockTimestamp \<Rightarrow>
                 if \<bar>blockTimestamp - timestampInt\<bar> < 120 then Some blockNumber
                 else if blockTimestamp < timestampInt
                 then Some (binarySearchBlock (getBlock env) blockNumber (blockNumber + 1000)
                              timestampInt)
                 else Some (binarySearchBlock (getBlock env) (max 0 (blockNumber - 1000))
                              blockNumber timestampInt))
          else None)"

text \<open>The body of the outer \<open>try\<close>.\<close>

definition resolveBlock :: "chain_env \<Rightarrow> BlockNumberCache \<Rightarrow> int \<Rightarrow> string + int" where
  "resolveBlock env blockNumberCache timestamp =
     (case cachedBlockNumber blockNumberCache timestamp of
        Some blockNumber \<Rightarrow> Inr blockNumber
      | None \<Rightarrow>
          (case veryCloseCached blockNumberCache timestamp of
             Some blockNumber \<Rightarrow> Inr blockNumber
           | None \<Rightarrow>
               (case etherscanLookup env timestamp of
                  Some blockNumber \<Rightarrow> Inr blockNumber
                | None \<Rightarrow>
                    (case getBlockNumber env of
                       Inl msg \<Rightarrow> Inl msg
                     | Inr currentBlock \<Rightarrow>
                         Inr (binarySearchBlock (getBlock env) 0 currentBlock timestamp)))))"

text \<open>
  \<open>getBlockNumberAtTimestamp(timestamp)\<close>: the outer \<open>catch\<close> answers from the
  built-in table when it has an entry within a day, and rethrows otherwise.
\<close>

definition getBlockNumberAtTimestamp :: "chain_env \<Rightarrow> BlockNumberCache \<Rightarrow> int \<Rightarrow> string + int" where
  "getBlockNumberAtTimestamp env blockNumberCache timestamp =
     (case resolveBlock env blockNumberCache timestamp of
        Inr blockNumber \<Rightarrow> Inr blockNumber
      | Inl error \<Rightarrow>
          if hasFallbackData timestamp then Inr (getFallbackBlockNumber timestamp)
          else Inl error)"

text \<open>
  A chain of eleven blocks, block \<open>b\<close> stamped \<open>10 * b\<close>, with the Etherscan service
  unreachable.
\<close>

definition tenSecondChain :: chain_env where
  "tenSecondChain =
     \<lparr> getBlock = (\<lambda>b. if 0 \<le> b \<and> b \<le> 10 then Block (10 * b) else NoBlock),
       getBlockNumber = Inr 10,
       etherscanBlockByTime = (\<lambda>t. EtherscanThrows ''Network Error'') \<rparr>"

subsection \<open>Ownership set builder\<close>

definition zeroAddress :: string where
  "zeroAddress = ''0x0000000000000000000000000000000000000000''"

text \<open>\<open>FALLBACK_DEMO_DATA.sampleHolders\<close>\<close>

definition sampleHolders :: "string list" where
  "sampleHolders =
     [''0x7Be8076f4EA4A4AD08075C2508e481d6C946D12b'',
      ''0xb88F61E6FbdA83fbfffAbE364112137480398018'',
      ''0x0315FA3813Ff4999C264641B202d0D2B21df139C'',
      ''0xA858DDc0445d8131daC4d1DE01f834ffcbA52Ef1'',
      ''0x1b523DC1cB8B17B0170aa9234cA1CFF3E1Ea36bF'']"

text \<open>
  A JavaScript \<open>Set\<close> of strings is the list of its elements in insertion order;
  \<open>add\<close> appends an element that is not in it yet.
\<close>

definition setAdd :: "string list \<Rightarrow> string \<Rightarrow> string list" where
  "setAdd elements x = (if x \<in> set elements then elements else elements @ [x])"

text \<open>
  A token of a subgraph page: \<open>id\<close> and \<open>owner.id\<close>. The subgraph request throws,
  answers with \<open>errors\<close>, or answers with a page of tokens; its arguments are the
  variables \<open>block\<close>, \<open>lastId\<close> and \<open>pageSize\<close> of the query.
\<close>

record token =
  token_id :: string
  owner_id :: string

datatype graphql_reply = GraphQLThrows string | GraphQLErrors | GraphQLTokens "token list"

text \<open>
  A transfer of the Etherscan \<open>tokennfttx\<close> listing, with \<open>parseInt(blockNumber)\<close>
  read already. The request for a page throws or answers with \<open>status\<close> and
  \<open>result\<close>.
\<close>

record transfer =
  transfer_blockNumber :: int
  tokenID :: string
  transfer_from :: string
  transfer_to :: string

datatype transfers_reply = TransfersThrow string | TransfersReply string "transfer list"

record holders_env = chain_env +
  graphQuery :: "int \<Rightarrow> string \<Rightarrow> int \<Rightarrow> graphql_reply"
  tokenTransfers :: "nat \<Rightarrow> transfers_reply"

text \<open>\<open>tokens.forEach(t => holders.add(t.owner.id.toLowerCase()))\<close>\<close>

definition addOwners :: "string list \<Rightarrow> token list \<Rightarrow> string list" where
  "addOwners holders tokens =
     foldl (\<lambda>holders t. setAdd holders (toLowerCase (owner_id t))) holders tokens"

text \<open>
  The follow-up pages of the first attempt (\<open>while (hasMoreTokens)\<close>): errors in a
  follow-up answer end the loop with the holders found so far, a request that throws
  leaves the \<open>try\<close>. The loop has no bound of its own; \<open>None\<close> is a run that never
  ends.
\<close>

partial_function (option) followUpPages ::
  "holders_env \<Rightarrow> int \<Rightarrow> int \<Rightarrow> string \<Rightarrow> string list \<Rightarrow> (string + string list) option" where
  "followUpPages env blockNumber PAGE_SIZE lastId holders =
     (case graphQuery env blockNumber lastId PAGE_SIZE of
        GraphQLThrows message \<Rightarrow> Some (Inl message)
      | GraphQLErrors \<Rightarrow> Some (Inr holders)
      | GraphQLTokens moreTokens \<Rightarrow>
          if moreTokens = [] then Some (Inr holders)
          else if int (length moreTokens) < PAGE_SIZE
          then Some (Inr (addOwners holders moreTokens))
          else followUpPages env blockNumber PAGE_SIZE (token_id (last moreTokens))
                 (addOwners holders moreTokens))"

text \<open>
  The first attempt, at the suggested page size. A full first page that is empty (a
  page size of 0 or less) makes \<open>tokens[tokens.length - 1].id\<close> throw.
\<close>

definition firstAttempt ::
  "holders_env \<Rightarrow> int \<Rightarrow> int \<Rightarrow> (string + string list) option" where
  "firstAttempt env blockNumber PAGE_SIZE =
     (case graphQuery env blockNumber [] PAGE_SIZE of
        GraphQLThrows message \<Rightarrow> Some (Inl message)
      | GraphQLErrors \<Rightarrow> Some (Inl ''GraphQL query failed with current batch size'')
      | GraphQLTokens tokens \<Rightarrow>
          if int (length tokens) < PAGE_SIZE then Some (Inr (addOwners [] tokens))
          else if tokens = [] then Some (Inl ''TypeError: tokens[-1] is undefined'')
          else followUpPages env blockNumber PAGE_SIZE (token_id (last tokens))
                 (addOwners [] tokens))"

text \<open>The second attempt, at the fallback page size: any failure is thrown.\<close>

partial_function (option) fallbackPages ::
  "holders_env \<Rightarrow> int \<Rightarrow> int \<Rightarrow> string \<Rightarrow> string list \<Rightarrow> (string + string list) option" where
  "fallbackPages env blockNumber FALLBACK_PAGE_SIZE lastId holders =
     (case graphQuery env blockNumber lastId FALLBACK_PAGE_SIZE of
        GraphQLThrows message \<Rightarrow> Some (Inl message)
      | GraphQLErrors \<Rightarrow> Some (Inl ''GraphQL query failed with fallback size too'')
      | GraphQLTokens tokens \<Rightarrow>
          if tokens = [] then Some (Inr holders)
          else if int (length tokens) < FALLBACK_PAGE_SIZE
          then Some (Inr (addOwners holders tokens))
          else fallbackPages env blockNumber FALLBACK_PAGE_SIZE (token_id (last tokens))
                 (addOwners holders tokens))"

text \<open>
  The subgraph part of \<open>getBAYCHoldersAtBlock\<close>: the holders or the thrown error,
  paired with the module variable \<open>optimalGraphQLBatchSize\<close> afterwards.
\<close>

definition subgraphHolders ::
  "holders_env \<Rightarrow> int \<Rightarrow> int \<Rightarrow> ((string + string list) \<times> int) option" where
  "subgraphHolders env optimalGraphQLBatchSize blockNumber =
     (let PAGE_SIZE = getSuggestedGraphQLBatchSize optimalGraphQLBatchSize in
      case firstAttempt env blockNumber PAGE_SIZE of
        None \<Rightarrow> None
      | Some (Inr holders) \<Rightarrow>
          Some (Inr holders,
                updateOptimalGraphQLBatchSize True PAGE_SIZE optimalGraphQLBatchSize)
      | Some (Inl largeQueryError) \<Rightarrow>
          (let reduced = updateOptimalGraphQLBatchSize False PAGE_SIZE optimalGraphQLBatchSize;
               FALLBACK_PAGE_SIZE = fallbackPageSize PAGE_SIZE in
           case fallbackPages env blockNumber FALLBACK_PAGE_SIZE [] [] of
             None \<Rightarrow> None
           | Some (Inl error) \<Rightarrow> Some (Inl error, reduced)
           | Some (Inr holders) \<Rightarrow>
               Some (Inr holders,
                     updateOptimalGraphQLBatchSize True FALLBACK_PAGE_SIZE reduced)))"

text \<open>
  The holders cache: the snapshots by block number and, when present, the index
  \<open>_timestamps\<close> from block number to timestamp, both in the key order of the object
  (ascending). The function reads the cache; its write-back of a computed holder list
  does not change what the same call returns and is left out.
\<close>

record HoldersCache =
  snapshots :: "(int \<times> string list) list"
  timestampIndex :: "(int \<times> int) list option"

text \<open>
  The index built when \<open>_timestamps\<close> is missing: the timestamp of every cached block
  whose probe answers.
\<close>

definition builtTimestampIndex :: "holders_env \<Rightarrow> HoldersCache \<Rightarrow> (int \<times> int) list" where
  "builtTimestampIndex env holdersCache =
     concat (map (\<lambda>cachedBlock.
                    (case getBlock env cachedBlock of
                       Block timestamp \<Rightarrow> [(cachedBlock, timestamp)]
                     | _ \<Rightarrow> []))
               (map fst (snapshots holdersCache)))"

text \<open>The cached snapshot closest in time, within an hour.\<close>

definition nearbyInTime :: "HoldersCache \<Rightarrow> (int \<times> int) list \<Rightarrow> int \<Rightarrow> string list option" where
  "nearbyInTime holdersCache timestamps blockTimestamp =
     (case sort_key snd
             (filter (\<lambda>entry. snd entry < 3600)
                (map (\<lambda>(block, timestamp). (block, \<bar>timestamp - blockTimestamp\<bar>)) timestamps)) of
        [] \<Rightarrow> None
      | bestMatch # others \<Rightarrow> map_of (snapshots holdersCache) (fst bestMatch))"

text \<open>
  The cached snapshot closest in block number: fewer than 1000 blocks earlier, or
  else fewer than 100 blocks later.
\<close>

definition nearbyInBlocks :: "HoldersCache \<Rightarrow> int \<Rightarrow> string list option" where
  "nearbyInBlocks holdersCache blockNumber =
     (let cachedBlocks = map fst (snapshots holdersCache);
          blocksAfter = sort (filter (\<lambda>b. b > blockNumber) cachedBlocks);
          blocksBefore = rev (sort (filter (\<lambda>b. b < blockNumber) cachedBlocks));
          before =
            (case blocksBefore of
               [] \<Rightarrow> None
             | closest # others \<Rightarrow>
                 if blockNumber - closest < 1000 then map_of (snapshots holdersCache) closest
                 else None)
      in case before of
           Some holders \<Rightarrow> Some holders
         | None \<Rightarrow>
             (case blocksAfter of
                [] \<Rightarrow> None
              | closest # others \<Rightarrow>
                  if closest - blockNumber < 100 then map_of (snapshots holdersCache) closest
                  else None))"

text \<open>The body of the \<open>try\<close> of \<open>getBAYCHoldersAtBlock\<close>.\<close>

definition holdersTry ::
  "holders_env \<Rightarrow> HoldersCache \<Rightarrow> int \<Rightarrow> int \<Rightarrow> ((string + string list) \<times> int) option" where
  "holdersTry env holdersCache optimalGraphQLBatchSize blockNumber =
     (case map_of (snapshots holdersCache) blockNumber of
        Some holders \<Rightarrow> Some (Inr holders, optimalGraphQLBatchSize)
      | None \<Rightarrow>
          (case getBlock env blockNumber of
             ProbeThrows message \<Rightarrow> Some (Inl message, optimalGraphQLBatchSize)
           | NoBlock \<Rightarrow>
               Some (Inl (''Could not retrieve block '' @ Number_toString blockNumber),
                     optimalGraphQLBatchSize)
           | Block blockTimestamp \<Rightarrow>
               (let timestamps =
                      (case timestampIndex holdersCache of
                         Some index \<Rightarrow> index
                       | None \<Rightarrow> builtTimestampIndex env holdersCache)
                in case nearbyInTime holdersCache timestamps blockTimestamp of
                     Some holders \<Rightarrow> Some (Inr holders, optimalGraphQLBatchSize)
                   | None \<Rightarrow>
                       (case nearbyInBlocks holdersCache blockNumber of
                          Some holders \<Rightarrow> Some (Inr holders, optimalGraphQLBatchSize)
                        | None \<Rightarrow> subgraphHolders env optimalGraphQLBatchSize blockNumber))))"

text \<open>
  The ownership map of the transfer replay: a JavaScript \<open>Map\<close> from address to the
  \<open>Set\<close> of its token ids, as an association list in insertion order.
\<close>

type_synonym ownership_map = "(string \<times> string list) list"

text \<open>
  One transfer of the replay: unless it is a mint, the token leaves the set of
  \<open>from\<close>, and an emptied set is deleted; then the token enters the set of \<open>to\<close>.
\<close>

definition applyTransfer :: "transfer \<Rightarrow> ownership_map \<Rightarrow> ownership_map" where
  "applyTransfer t ownershipMap =
     (let tokenId = tokenID t;
          fromAddress = toLowerCase (transfer_from t);
          toAddress = toLowerCase (transfer_to t);
          removed =
            (if fromAddress \<noteq> zeroAddress then
               (case map_of ownershipMap fromAddress of
                  Some tokens \<Rightarrow>
                    if removeAll tokenId tokens = [] then AList.delete fromAddress ownershipMap
                    else AList.update fromAddress (removeAll tokenId tokens) ownershipMap
                | None \<Rightarrow> ownershipMap)
             else ownershipMap)
      in AList.update toAddress
           (case map_of removed toAddress of
              None \<Rightarrow> [tokenId]
            | Some tokens \<Rightarrow> setAdd tokens tokenId)
           removed)"

text \<open>
  The \<open>for\<close> loop over the transfers of a page: the map afterwards and \<open>hasMoreData\<close>,
  which the first transfer after the target block clears.
\<close>

fun processTransfers :: "int \<Rightarrow> transfer list \<Rightarrow> ownership_map \<Rightarrow> ownership_map \<times> bool" where
  "processTransfers blockNumber [] ownershipMap = (ownershipMap, True)"
| "processTransfers blockNumber (t # transfers) ownershipMap =
     (if transfer_blockNumber t > blockNumber then (ownershipMap, False)
      else processTransfers blockNumber transfers (applyTransfer t ownershipMap))"

text \<open>The \<open>while\<close> loop over the pages, at most five of them.\<close>

function transferPages ::
  "holders_env \<Rightarrow> int \<Rightarrow> nat \<Rightarrow> ownership_map \<Rightarrow> string + ownership_map" where
  "transferPages env blockNumber page ownershipMap =
     (if page \<le> 5 then
        (case tokenTransfers env page of
           TransfersThrow message \<Rightarrow> Inl message
         | TransfersReply status transfers \<Rightarrow>
             if status \<noteq> ''1'' then Inr ownershipMap
             else if transfers = [] then Inr ownershipMap
             else
               (case processTransfers blockNumber transfers ownershipMap of
                  (replayed, hasMoreData) \<Rightarrow>
                    if hasMoreData then transferPages env blockNumber (page + 1) replayed
                    else Inr replayed))
      else Inr ownershipMap)"
  by pat_completeness auto
termination
  by (relation "measure (\<lambda>(env, b, page, m). 6 - page)") auto

declare transferPages.simps [simp del]

text \<open>
  \<open>getHoldersFromTokenTransfers(blockNumber)\<close>: the keys of the map without the null
  address; the \<open>catch\<close> answers with the sample holders.
\<close>

definition getHoldersFromTokenTransfers :: "holders_env \<Rightarrow> int \<Rightarrow> string list" where
  "getHoldersFromTokenTransfers env blockNumber =
     (case transferPages env blockNumber 1 [] of
        Inr ownershipMap \<Rightarrow>
          filter (\<lambda>address. address \<noteq> zeroAddress) (map fst ownershipMap)
      | Inl error \<Rightarrow> sampleHolders)"

text \<open>
  \<open>getBAYCHoldersAtBlock(blockNumber)\<close>: what it returns or throws, with the page size
  afterwards. The \<open>catch\<close> answers every error of the \<open>try\<close> with the transfer replay.
\<close>

definition getBAYCHoldersAtBlock ::
  "holders_env \<Rightarrow> HoldersCache \<Rightarrow> int \<Rightarrow> int \<Rightarrow> ((string + string list) \<times> int) option" where
  "getBAYCHoldersAtBlock env holdersCache optimalGraphQLBatchSize blockNumber =
     (case holdersTry env holdersCache optimalGraphQLBatchSize blockNumber of
        None \<Rightarrow> None
      | Some (Inr holders, pageSize) \<Rightarrow> Some (Inr holders, pageSize)
      | Some (Inl error, pageSize) \<Rightarrow>
          Some (Inr (getHoldersFromTokenTransfers env blockNumber), pageSize))"

text \<open>
  The holder definition of the specification, section 4.2, for the transfer replay:
  replaying all events up to the target block, the owner of a token id is the latest
  \<open>to\<close> address of its events, and the holders are the owners other than the null
  address.
\<close>

definition latestRecipient :: "transfer list \<Rightarrow> string \<Rightarrow> string option" where
  "latestRecipient history tokenId =
     (case filter (\<lambda>t. tokenID t = tokenId) history of
        [] \<Rightarrow> None
      | events \<Rightarrow> Some (toLowerCase (transfer_to (last events))))"

definition replayedHolders :: "transfer list \<Rightarrow> int \<Rightarrow> string set" where
  "replayedHolders history blockNumber =
     {address. address \<noteq> zeroAddress \<and>
        (\<exists>tokenId. latestRecipient
                      (filter (\<lambda>t. transfer_blockNumber t \<le> blockNumber) history) tokenId
                    = Some address)}"

text \<open>
  A history follows ownership when the \<open>from\<close> address of every event is the owner
  of the token at that point, or the null address for a token without an owner.
\<close>

fun followsOwnership :: "transfer list \<Rightarrow> transfer list \<Rightarrow> bool" where
  "followsOwnership seen [] = True"
| "followsOwnership seen (t # later) =
     ((latestRecipient seen (tokenID t) = Some (toLowerCase (transfer_from t))
       \<or> (toLowerCase (transfer_from t) = zeroAddress \<and> latestRecipient seen (tokenID t) = None))
      \<and> followsOwnership (seen @ [t]) later)"

text \<open>
  The paging of the subgraph from a cursor ends within \<open>n\<close> requests: a request
  throws, answers with errors, or answers with a page that is empty or shorter than
  the page size.
\<close>

fun pagesEnd :: "nat \<Rightarrow> holders_env \<Rightarrow> int \<Rightarrow> int \<Rightarrow> string \<Rightarrow> bool" where
  "pagesEnd 0 env blockNumber pageSize lastId = False"
| "pagesEnd (Suc n) env blockNumber pageSize lastId =
     (case graphQuery env blockNumber lastId pageSize of
        GraphQLTokens tokens \<Rightarrow>
          tokens = [] \<or> int (length tokens) < pageSize
          \<or> pagesEnd n env blockNumber pageSize (token_id (last tokens))
      | _ \<Rightarrow> True)"

text \<open>
  Auxiliary notions for the replay: an address holds a token in the map, every set of
  the map is non-empty, and the invariant that ties the map to the latest recipients
  for every address other than the null address. \<open>afterRemoval\<close> is the map in the
  middle of \<open>applyTransfer\<close>.
\<close>

definition holdsToken :: "ownership_map \<Rightarrow> string \<Rightarrow> string \<Rightarrow> bool" where
  "holdsToken m a tok = (\<exists>toks. map_of m a = Some toks \<and> tok \<in> set toks)"

definition nonemptySets :: "ownership_map \<Rightarrow> bool" where
  "nonemptySets m = (\<forall>a toks. map_of m a = Some toks \<longrightarrow> toks \<noteq> [])"

definition replayInvariant :: "ownership_map \<Rightarrow> transfer list \<Rightarrow> bool" where
  "replayInvariant m history =
     (nonemptySets m \<and>
      (\<forall>a tok. a \<noteq> zeroAddress \<longrightarrow>
         (holdsToken m a tok \<longleftrightarrow> latestRecipient history tok = Some a)))"

definition afterRemoval :: "transfer \<Rightarrow> ownership_map \<Rightarrow> ownership_map" where
  "afterRemoval t ownershipMap =
     (if toLowerCase (transfer_from t) \<noteq> zeroAddress then
        (case map_of ownershipMap (toLowerCase (transfer_from t)) of
           Some tokens \<Rightarrow>
             if removeAll (tokenID t) tokens = []
             then AList.delete (toLowerCase (transfer_from t)) ownershipMap
             else AList.update (toLowerCase (transfer_from t)) (removeAll (tokenID t) tokens)
                    ownershipMap
         | None \<Rightarrow> ownershipMap)
      else ownershipMap)"

text \<open>Two holder addresses, an empty cache and environments for concrete runs.\<close>

definition holderA :: string where
  "holderA = ''0x7be8076f4ea4a4ad08075c2508e481d6c946d12b''"

definition holderB :: string where
  "holderB = ''0xb88f61e6fbda83fbfffabe364112137480398018''"

definition emptyCache :: HoldersCache where
  "emptyCache = \<lparr> snapshots = [], timestampIndex = None \<rparr>"

text \<open>
  Every service down but the block probe: the subgraph and Etherscan requests throw.
\<close>

definition servicesDown :: holders_env where
  "servicesDown =
     \<lparr> getBlock = (\<lambda>b. Block 1651363200),
       getBlockNumber = Inr 14723000,
       etherscanBlockByTime = (\<lambda>t. EtherscanThrows ''Network Error''),
       graphQuery = (\<lambda>block lastId pageSize. GraphQLThrows ''Network Error''),
       tokenTransfers = (\<lambda>page. TransfersThrow ''Network Error'') \<rparr>"

text \<open>
  A subgraph that lists two tokens, the first owned by the null address (a burned
  token), in one page.
\<close>

definition burnedTokenSubgraph :: holders_env where
  "burnedTokenSubgraph =
     servicesDown \<lparr> graphQuery := (\<lambda>block lastId pageSize.
        GraphQLTokens [\<lparr> token_id = ''1'', owner_id = zeroAddress \<rparr>,
                       \<lparr> token_id = ''2'', owner_id = holderA \<rparr>]) \<rparr>"

text \<open>
  A transfer listing of one page: token 1 is minted to the first holder in block 100
  and moves to the second holder in block 200, token 2 is minted to the first holder
  in block 300.
\<close>

definition shortPage :: "transfer list" where
  "shortPage =
     [\<lparr> transfer_blockNumber = 100, tokenID = ''1'',
        transfer_from = zeroAddress, transfer_to = holderA \<rparr>,
      \<lparr> transfer_blockNumber = 200, tokenID = ''1'',
        transfer_from = holderA, transfer_to = holderB \<rparr>,
      \<lparr> transfer_blockNumber = 300, tokenID = ''2'',
        transfer_from = zeroAddress, transfer_to = holderA \<rparr>]"

definition shortListing :: holders_env where
  "shortListing =
     servicesDown \<lparr> tokenTransfers := (\<lambda>page.
        TransfersReply ''1'' (if page = 1 then shortPage else [])) \<rparr>"

text \<open>
  A transfer listing of 501 events, 100 to a page: tokens 0 to 499 are minted to the
  first holder in block 1, then token 0 moves to the second holder in block 2; that
  event is the only one of page 6.
\<close>

definition mintPage :: "nat \<Rightarrow> transfer list" where
  "mintPage page =
     map (\<lambda>i. \<lparr> transfer_blockNumber = 1,
                 tokenID = Number_toString (int (100 * (page - 1) + i)),
                 transfer_from = zeroAddress, transfer_to = holderA \<rparr>) [0..<100]"

definition lateTransfer :: transfer where
  "lateTransfer =
     \<lparr> transfer_blockNumber = 2, tokenID = ''0'',
       transfer_from = holderA, transfer_to = holderB \<rparr>"

definition sixPageListing :: holders_env where
  "sixPageListing =
     servicesDown \<lparr> tokenTransfers := (\<lambda>page.
        TransfersReply ''1''
          (if 1 \<le> page \<and> page \<le> 5 then mintPage page
           else if page = 6 then [lateTransfer] else [])) \<rparr>"

definition sixPageHistory :: "transfer list" where
  "sixPageHistory = concat (map mintPage [1..<6]) @ [lateTransfer]"

subsection \<open>Balance aggregator\<close>

text \<open>
  A JavaScript array of balances: \<open>None\<close> is a hole, which an assignment beyond the
  end of the array leaves behind and which \<open>reduce\<close> skips.
\<close>

type_synonym balance_array = "int option list"

definition arrayWrite :: "balance_array \<Rightarrow> nat \<Rightarrow> int \<Rightarrow> balance_array" where
  "arrayWrite xs i v =
     (if i < length xs then xs[i := Some v]
      else xs @ replicate (i - length xs) None @ [Some v])"

text \<open>\<open>new Array(n).fill(ethers.BigNumber.from(0))\<close>\<close>

definition zeroBalances :: "nat \<Rightarrow> balance_array" where
  "zeroBalances n = replicate n (Some 0)"

record call =
  target :: string
  allowFailure :: bool
  callData :: string

record call_result =
  success :: bool
  returnData :: string

datatype aggregate_reply = AggregateThrows string | AggregateReturns "call_result list"

text \<open>
  \<open>aggregate3\<close> is the Multicall3 call of a chunk: its arguments are the index of the
  chunk, the number of failed attempts before this one, the calls and the block tag.
  \<open>getBalance\<close> is \<open>provider.getBalance(address, blockNumber)\<close>, \<open>getSighash\<close> the
  selector of \<open>getEthBalance\<close>, and \<open>initGraphSucceeds\<close> tells whether \<open>initGraph()\<close>
  returns a contract.
\<close>

record balance_env =
  aggregate3 :: "nat \<Rightarrow> nat \<Rightarrow> call list \<Rightarrow> int \<Rightarrow> aggregate_reply"
  getBalance :: "string \<Rightarrow> int \<Rightarrow> string + int"
  getSighash :: string
  initGraphSucceeds :: bool

definition graph_ADDRESS :: string where
  "graph_ADDRESS = ''0xcA11bde05977b3631167028862bE2a173976CA11''"

definition chunkSize :: nat where
  "chunkSize = 5000"

definition maxRetries :: nat where
  "maxRetries = 3"

definition padStart :: "nat \<Rightarrow> char \<Rightarrow> string \<Rightarrow> string" where
  "padStart n c s = replicate (n - length s) c @ s"

definition balanceCall :: "balance_env \<Rightarrow> string \<Rightarrow> call" where
  "balanceCall env address =
     \<lparr> target = graph_ADDRESS, allowFailure = True,
       callData = getSighash env @ padStart 64 (CHR ''0'') (drop 2 address) \<rparr>"

text \<open>
  \<open>xs.slice(0, width)\<close>, \<open>xs.slice(width, 2 * width)\<close>, ... as the two \<open>for\<close> loops that
  build the chunks and the batches produce them; both sizes are positive constants.
\<close>

function slices :: "nat \<Rightarrow> 'a list \<Rightarrow> 'a list list" where
  "slices width xs =
     (if width = 0 \<or> xs = [] then [] else take width xs # slices width (drop width xs))"
  by pat_completeness auto
termination
  by (relation "measure (\<lambda>(width, xs). length xs)") auto

declare slices.simps [simp del]

text \<open>
  The retry loop around \<open>aggregate3\<close>: an attempt that throws is repeated until
  \<open>retries\<close> exceeds \<open>maxRetries\<close>, then the error is rethrown. The last branch is the
  loop ending with \<open>chunkResults\<close> undefined.
\<close>

function aggregateWithRetries ::
  "balance_env \<Rightarrow> nat \<Rightarrow> call list \<Rightarrow> int \<Rightarrow> nat \<Rightarrow> string + call_result list" where
  "aggregateWithRetries env chunkIndex calls blockNumber retries =
     (if retries \<le> maxRetries then
        (case aggregate3 env chunkIndex retries calls blockNumber of
           AggregateReturns chunkResults \<Rightarrow> Inr chunkResults
         | AggregateThrows error \<Rightarrow>
             if retries + 1 > maxRetries then Inl error
             else aggregateWithRetries env chunkIndex calls blockNumber (retries + 1))
      else Inl ''TypeError: chunkResults is undefined'')"
  by pat_completeness auto
termination
  by (relation "measure (\<lambda>(env, k, calls, b, retries). Suc maxRetries - retries)") auto

declare aggregateWithRetries.simps [simp del]

text \<open>The balance an entry of a chunk answer decodes to, when it decodes.\<close>

definition decodedBalance :: "call_result \<Rightarrow> int option" where
  "decodedBalance result =
     (if success result \<and> length (returnData result) \<ge> 66
      then BigNumber_from (returnData result) else None)"

text \<open>
  The loop over \<open>j\<close> that stores a chunk's answer: a failed entry, a short one and one
  that does not decode leave the array as it is.
\<close>

definition storeChunkResults :: "nat \<Rightarrow> call_result list \<Rightarrow> balance_array \<Rightarrow> balance_array" where
  "storeChunkResults chunkOffset chunkResults balances =
     foldl (\<lambda>balances j.
              (case decodedBalance (chunkResults ! j) of
                 Some balance \<Rightarrow> arrayWrite balances (chunkOffset + j) balance
               | None \<Rightarrow> balances))
       balances [0..<length chunkResults]"

text \<open>
  The chunks in index order. The source runs the chunks of a batch of three
  concurrently and the batches one after another; a chunk that fails after its
  retries rejects the batch, the array built so far is dropped and no later batch
  starts, so the outcome is that of this sequential loop.
\<close>

fun processChunks ::
  "balance_env \<Rightarrow> int \<Rightarrow> nat \<Rightarrow> string list list \<Rightarrow> balance_array \<Rightarrow> string + balance_array" where
  "processChunks env blockNumber chunkIndex [] balances = Inr balances"
| "processChunks env blockNumber chunkIndex (chunk # rest) balances =
     (case aggregateWithRetries env chunkIndex (map (balanceCall env) chunk) blockNumber 0 of
        Inl error \<Rightarrow> Inl error
      | Inr chunkResults \<Rightarrow>
          processChunks env blockNumber (chunkIndex + 1) rest
            (storeChunkResults (chunkIndex * chunkSize) chunkResults balances))"

text \<open>The body of the \<open>try\<close> of \<open>getEthBalancesgraph\<close>.\<close>

definition aggregateBalances :: "balance_env \<Rightarrow> string list \<Rightarrow> int \<Rightarrow> string + balance_array" where
  "aggregateBalances env addresses blockNumber =
     processChunks env blockNumber 0 (slices chunkSize addresses)
       (zeroBalances (length addresses))"

text \<open>
  \<open>getFallbackBalances\<close>: batches of 50 addresses; the batches of a group of four run
  concurrently, each writing the positions \<open>startIndex + j\<close> of its own addresses.
\<close>

definition batchSize :: nat where
  "batchSize = 50"

definition balanceOrZero :: "balance_env \<Rightarrow> int \<Rightarrow> string \<Rightarrow> int" where
  "balanceOrZero env blockNumber address =
     (case getBalance env address blockNumber of Inr balance \<Rightarrow> balance | Inl error \<Rightarrow> 0)"

definition batchResults :: "balance_env \<Rightarrow> int \<Rightarrow> nat \<Rightarrow> string list \<Rightarrow> (nat \<times> int) list" where
  "batchResults env blockNumber startIndex addresses =
     map (\<lambda>j. (startIndex + j, balanceOrZero env blockNumber (addresses ! j)))
       [0..<length addresses]"

fun fallbackBatches ::
  "balance_env \<Rightarrow> int \<Rightarrow> nat \<Rightarrow> string list list \<Rightarrow> balance_array \<Rightarrow> balance_array" where
  "fallbackBatches env blockNumber startIndex [] balances = balances"
| "fallbackBatches env blockNumber startIndex (batch # rest) balances =
     fallbackBatches env blockNumber (startIndex + batchSize) rest
       (foldl (\<lambda>balances result. arrayWrite balances (fst result) (snd result)) balances
          (batchResults env blockNumber startIndex batch))"

definition getFallbackBalances :: "balance_env \<Rightarrow> string list \<Rightarrow> int \<Rightarrow> balance_array" where
  "getFallbackBalances env addresses blockNumber =
     fallbackBatches env blockNumber 0 (slices batchSize addresses)
       (zeroBalances (length addresses))"

text \<open>
  \<open>getEthBalancesgraph(addresses, blockNumber)\<close>. The second argument is the module
  variable \<open>graphContract\<close> being set; loading the module sets it, so every call finds
  it \<open>True\<close>. The guard before the \<open>try\<close> throws when it is unset and \<open>initGraph()\<close>
  fails; an error inside the \<open>try\<close> hands over to \<open>getFallbackBalances\<close>.
\<close>

definition getEthBalancesgraph ::
  "balance_env \<Rightarrow> bool \<Rightarrow> string list \<Rightarrow> int \<Rightarrow> string + balance_array" where
  "getEthBalancesgraph env graphContract addresses blockNumber =
     (if \<not> graphContract \<and> \<not> initGraphSucceeds env
      then Inl ''Failed to initialize graph contract''
      else
        (case aggregateBalances env addresses blockNumber of
           Inr balances \<Rightarrow> Inr balances
         | Inl error \<Rightarrow> Inr (getFallbackBalances env addresses blockNumber)))"

text \<open>
  \<open>balances.reduce((sum, balance) => sum.add(balance), ethers.BigNumber.from(0))\<close>
\<close>

definition sumBalances :: "balance_array \<Rightarrow> int" where
  "sumBalances balances =
     foldl (\<lambda>sum balance. case balance of Some b \<Rightarrow> sum + b | None \<Rightarrow> sum) 0 balances"

text \<open>
  The answer the retry loop obtains for the chunk with a given index, and the balance
  the aggregate path is expected to hold at a position: the decoded entry of that
  chunk's answer, and zero for an entry that failed, is too short, does not decode or
  is missing from the answer.
\<close>

definition chunkAnswer :: "balance_env \<Rightarrow> int \<Rightarrow> string list \<Rightarrow> nat \<Rightarrow> string + call_result list" where
  "chunkAnswer env blockNumber addresses chunkIndex =
     aggregateWithRetries env chunkIndex
       (map (balanceCall env) (take chunkSize (drop (chunkIndex * chunkSize) addresses)))
       blockNumber 0"

definition expectedBalance :: "balance_env \<Rightarrow> int \<Rightarrow> string list \<Rightarrow> nat \<Rightarrow> int" where
  "expectedBalance env blockNumber addresses p =
     (case chunkAnswer env blockNumber addresses (p div chunkSize) of
        Inr chunkResults \<Rightarrow>
          if p mod chunkSize < length chunkResults then
            (case decodedBalance (chunkResults ! (p mod chunkSize)) of
               Some b \<Rightarrow> b | None \<Rightarrow> 0)
          else 0
      | Inl error \<Rightarrow> 0)"

text \<open>Auxiliary: the array after the first \<open>n\<close> entries of an answer are stored, pointwise.\<close>

definition storedUpTo :: "nat \<Rightarrow> call_result list \<Rightarrow> balance_array \<Rightarrow> nat \<Rightarrow> nat \<Rightarrow> int option" where
  "storedUpTo off rs bal n p =
     (if off \<le> p \<and> p < off + n then
        (case decodedBalance (rs ! (p - off)) of Some b \<Rightarrow> Some b | None \<Rightarrow> bal ! p)
      else bal ! p)"

definition mergedEntry ::
  "balance_env \<Rightarrow> int \<Rightarrow> string list \<Rightarrow> balance_array \<Rightarrow> nat \<Rightarrow> int option" where
  "mergedEntry env blockNumber addresses bal p =
     (case chunkAnswer env blockNumber addresses (p div chunkSize) of
        Inr chunkResults \<Rightarrow>
          if p mod chunkSize < length chunkResults then
            (case decodedBalance (chunkResults ! (p mod chunkSize)) of
               Some b \<Rightarrow> Some b | None \<Rightarrow> bal ! p)
          else bal ! p
      | Inl error \<Rightarrow> bal ! p)"

text \<open>
  Two environments for concrete runs: a contract that answers every call, with
  \<open>2^53 + 1\<close> wei for the first holder and a failure for every other address, and a
  contract whose \<open>aggregate3\<close> always throws.
\<close>

definition answeringContract :: balance_env where
  "answeringContract =
     \<lparr> aggregate3 = (\<lambda>chunkIndex attempt calls blockTag.
         AggregateReturns
           (map (\<lambda>c. if callData c = ''0x4d2301cc'' @ padStart 64 (CHR ''0'') (drop 2 holderA)
                      then \<lparr> success = True,
                             returnData =
                               ''0x0000000000000000000000000000000000000000000000000020000000000001'' \<rparr>
                      else \<lparr> success = False, returnData = ''0x'' \<rparr>) calls)),
       getBalance = (\<lambda>address blockTag.
         if address = holderA then Inr 9007199254740993 else Inl ''missing trie node''),
       getSighash = ''0x4d2301cc'',
       initGraphSucceeds = True \<rparr>"

definition unreachableContract :: balance_env where
  "unreachableContract =
     answeringContract \<lparr> aggregate3 := (\<lambda>chunkIndex attempt calls blockTag.
         AggregateThrows ''call revert exception'') \<rparr>"

text \<open>Two entries of a chunk answer: one flagged as failed, and one holding 7 wei.\<close>

definition failedEntry :: call_result where
  "failedEntry = \<lparr> success = False, returnData = ''0x'' \<rparr>"

definition sevenWei :: call_result where
  "sevenWei = \<lparr> success = True,
      returnData = ''0x0000000000000000000000000000000000000000000000000000000000000007'' \<rparr>"

subsection \<open>Result store\<close>

record metrics =
  blockResolutionTime :: int
  holdersResolutionTime :: int
  balanceResolutionTime :: int
  totalTime :: int

text \<open>
  The interface \<open>DetailedHolderResult\<close>; an absent optional field is \<open>None\<close>. Its
  field \<open>method\<close> is called \<open>methodName\<close> here.
\<close>

record DetailedHolderResult =
  blockNumber :: int
  holderCount :: int
  totalWei :: int
  totalEth :: string
  executionTime :: int
  metrics :: metrics
  methodName :: string
  implementation :: string
  error :: "string option"
  fromCache :: "bool option"

text \<open>
  The interface \<open>ResultData\<close>, the shape of an entry of the results file, with the
  total as a string. The field names carry the prefix \<open>stored\<close>.
\<close>

record ResultData =
  stored_totalEth :: string
  stored_holderCount :: int
  stored_sampledHolders :: int
  stored_executionTime :: int
  stored_block :: int
  stored_implementation :: string
  stored_timestamp :: "string option"
  stored_fromCache :: "bool option"
  stored_totalWei :: "string option"
  stored_blockNumber :: "int option"
  stored_metrics :: "metrics option"
  stored_method :: "string option"
  stored_error :: "string option"

text \<open>
  The results file: absent, not parsable as JSON, or the two-level object it holds.
  \<open>JSON.parse\<close> gives back what \<open>JSON.stringify\<close> was given for objects of strings,
  integers below \<open>2^53\<close> and nested objects, so the file is modelled by the object.
\<close>

type_synonym StoredResults = "string \<rightharpoonup> (string \<rightharpoonup> ResultData)"

datatype results_file = NoFile | Unparsable | Parsed StoredResults

text \<open>
  \<open>resultToSave\<close> of \<open>saveResultsToFile\<close>: the spread of the result with the total
  turned into its decimal string (a \<open>BigNumber\<close> object is always truthy), the time
  of saving, and the defaults \<open>x || d\<close> for the required fields.
\<close>

definition resultToSave :: "string \<Rightarrow> string \<Rightarrow> DetailedHolderResult \<Rightarrow> ResultData" where
  "resultToSave implementationId isoTime result =
     \<lparr> stored_totalEth = (if totalEth result = [] then ''0'' else totalEth result),
       stored_holderCount = holderCount result,
       stored_sampledHolders = holderCount result,
       stored_executionTime = executionTime result,
       stored_block = blockNumber result,
       stored_implementation =
         (if implementation result = [] then implementationId else implementation result),
       stored_timestamp = Some isoTime,
       stored_fromCache = fromCache result,
       stored_totalWei = Some (BigNumber_toString (totalWei result)),
       stored_blockNumber = Some (blockNumber result),
       stored_metrics = Some (metrics result),
       stored_method = Some (methodName result),
       stored_error = error result \<rparr>"

text \<open>
  \<open>saveResultsToFile(implementationId, timestamp, result)\<close> on the file. The first
  argument tells whether creating the directory and writing the file succeed; a
  failure there, like a file that does not parse, is caught and leaves the file as it
  is.
\<close>

definition saveResultsToFile ::
  "bool \<Rightarrow> string \<Rightarrow> results_file \<Rightarrow> string \<Rightarrow> string \<Rightarrow> DetailedHolderResult \<Rightarrow> results_file" where
  "saveResultsToFile writable isoTime file implementationId timestampKey result =
     (if \<not> writable then file
      else
        (case file of
           Unparsable \<Rightarrow> file
         | NoFile \<Rightarrow>
             Parsed (Map.empty(implementationId \<mapsto>
               Map.empty(timestampKey \<mapsto> resultToSave implementationId isoTime result)))
         | Parsed results \<Rightarrow>
             Parsed (results(implementationId \<mapsto>
               (case results implementationId of None \<Rightarrow> Map.empty | Some saved \<Rightarrow> saved)
                 (timestampKey \<mapsto> resultToSave implementationId isoTime result)))))"

definition getPreviousResults :: "results_file \<Rightarrow> StoredResults" where
  "getPreviousResults file = (case file of Parsed results \<Rightarrow> results | _ \<Rightarrow> Map.empty)"

text \<open>\<open>previousResults?.[implementationId]?.[timestamp.toString()]\<close>\<close>

definition cachedResultOf :: "results_file \<Rightarrow> string \<Rightarrow> string \<Rightarrow> ResultData option" where
  "cachedResultOf file implementationId timestampKey =
     (case getPreviousResults file implementationId of
        None \<Rightarrow> None
      | Some saved \<Rightarrow> saved timestampKey)"

text \<open>The cached answer of the API handler: \<open>{...cachedResult, fromCache: true}\<close>.\<close>

definition handlerCachedAnswer :: "ResultData \<Rightarrow> ResultData" where
  "handlerCachedAnswer cachedResult = cachedResult \<lparr> stored_fromCache := Some True \<rparr>"

text \<open>
  The object \<open>getTotalEthValueOfHolders\<close> returns for a cached result, with the
  defaults \<open>x || d\<close>; \<open>BigNumber.from\<close> throws on a string that is no number. The
  keys \<open>timestamp\<close>, \<open>block\<close> and \<open>sampledHolders\<close> of the stored entry ride along in
  the returned object; they are outside the declared result type and left out.
\<close>

definition fromCachedResult :: "ResultData \<Rightarrow> metrics \<Rightarrow> string + DetailedHolderResult" where
  "fromCachedResult cachedResult freshMetrics =
     (case BigNumber_from
             (case stored_totalWei cachedResult of
                None \<Rightarrow> ''0'' | Some s \<Rightarrow> if s = [] then ''0'' else s) of
        None \<Rightarrow> Inl ''invalid BigNumber string''
      | Some wei \<Rightarrow>
          Inr \<lparr> blockNumber =
                  (case stored_blockNumber cachedResult of
                     Some b \<Rightarrow> if b \<noteq> 0 then b else stored_block cachedResult
                   | None \<Rightarrow> stored_block cachedResult),
                holderCount = stored_holderCount cachedResult,
                totalWei = wei,
                totalEth =
                  (if stored_totalEth cachedResult = [] then ''0''
                   else stored_totalEth cachedResult),
                executionTime = stored_executionTime cachedResult,
                metrics =
                  (case stored_metrics cachedResult of Some m \<Rightarrow> m | None \<Rightarrow> freshMetrics),
                methodName =
                  (case stored_method cachedResult of
                     None \<Rightarrow> ''Cached result''
                   | Some s \<Rightarrow> if s = [] then ''Cached result'' else s),
                implementation =
                  (if stored_implementation cachedResult = [] then ''optimizedSolution''
                   else stored_implementation cachedResult),
                error = stored_error cachedResult,
                fromCache = Some True \<rparr>)"

subsection \<open>Snapshot orchestrator\<close>

text \<open>
  The three stages are fields of the environment, each returning its value or the
  message of the error it throws: \<open>getBlockNumberAtTimestamp\<close>,
  \<open>getBAYCHoldersAtBlock\<close> and \<open>getEthBalancesgraph\<close>. \<open>clock n\<close> is the reading of the
  \<open>n\<close>-th call of \<open>Date.now()\<close> on the path taken, \<open>isoNow\<close> the time string at
  saving, \<open>canWrite\<close> whether the results file can be written.
\<close>

record pipeline_env =
  resolveStage :: "int \<Rightarrow> string + int"
  holdersStage :: "int \<Rightarrow> string + string list"
  balancesStage :: "string list \<Rightarrow> int \<Rightarrow> string + balance_array"
  formatEther :: "int \<Rightarrow> string"
  clock :: "nat \<Rightarrow> int"
  isoNow :: string
  canWrite :: bool

definition zeroMetrics :: metrics where
  "zeroMetrics =
     \<lparr> blockResolutionTime = 0, holdersResolutionTime = 0,
       balanceResolutionTime = 0, totalTime = 0 \<rparr>"

text \<open>The object returned by the \<open>catch\<close> of \<open>getTotalEthValueOfHolders\<close>.\<close>

definition errorResult :: "string \<Rightarrow> metrics \<Rightarrow> DetailedHolderResult" where
  "errorResult message m =
     \<lparr> blockNumber = 0, holderCount = 0, totalWei = 0, totalEth = ''0'',
       executionTime = totalTime m, metrics = m,
       methodName = ''Error in pipeline execution'', implementation = ''optimizedSolution'',
       error = Some message, fromCache = None \<rparr>"

text \<open>
  \<open>getTotalEthValueOfHolders(timestamp)\<close>: the returned result and the results file
  afterwards. Only the last step of the success path calls \<open>saveResultsToFile\<close>.
\<close>

definition getTotalEthValueOfHolders ::
  "pipeline_env \<Rightarrow> results_file \<Rightarrow> int \<Rightarrow> DetailedHolderResult \<times> results_file" where
  "getTotalEthValueOfHolders env file timestamp =
     (let startTime = clock env 0 in
      case cachedResultOf file ''optimizedSolution'' (Number_toString timestamp) of
        Some cachedResult \<Rightarrow>
          (case fromCachedResult cachedResult zeroMetrics of
             Inr cached \<Rightarrow> (cached, file)
           | Inl message \<Rightarrow>
               (errorResult message (zeroMetrics \<lparr> totalTime := clock env 1 - startTime \<rparr>),
                file))
      | None \<Rightarrow>
          (case resolveStage env timestamp of
             Inl message \<Rightarrow>
               (errorResult (''Block resolution failed: '' @ message)
                  (zeroMetrics \<lparr> totalTime := clock env 2 - startTime \<rparr>), file)
           | Inr resolved \<Rightarrow>
               (let m1 = zeroMetrics \<lparr> blockResolutionTime := clock env 2 - clock env 1 \<rparr> in
                case holdersStage env resolved of
                  Inl message \<Rightarrow>
                    (errorResult (''Holders retrieval failed: '' @ message)
                       (m1 \<lparr> totalTime := clock env 4 - startTime \<rparr>), file)
                | Inr holders \<Rightarrow>
                    (let m2 = m1 \<lparr> holdersResolutionTime := clock env 4 - clock env 3 \<rparr> in
                     if holders = [] then
                       (errorResult ''No holders found - cannot proceed with balance retrieval''
                          (m2 \<lparr> totalTime := clock env 5 - startTime \<rparr>), file)
                     else
                       (case balancesStage env holders resolved of
                          Inl message \<Rightarrow>
                            (errorResult (''Balance retrieval failed: '' @ message)
                               (m2 \<lparr> totalTime := clock env 6 - startTime \<rparr>), file)
                        | Inr balances \<Rightarrow>
                            (let m3 = m2 \<lparr> balanceResolutionTime := clock env 6 - clock env 5 \<rparr>;
                                 summed = sumBalances balances;
                                 m4 = m3 \<lparr> totalTime := clock env 7 - startTime \<rparr>;
                                 computed =
                                   \<lparr> blockNumber = resolved,
                                     holderCount = int (length holders),
                                     totalWei = summed,
                                     totalEth = formatEther env summed,
                                     executionTime = totalTime m4,
                                     metrics = m4,
                                     methodName = ''Optimized pipeline with enhanced caching'',
                                     implementation = ''optimizedSolution'',
                                     error = None, fromCache = None \<rparr>
                             in (computed,
                                 saveResultsToFile (canWrite env) (isoNow env) file
                                   ''optimizedSolution'' (Number_toString timestamp)
                                   computed)))))))"

text \<open>
  The API handler after its checks of the request (method and presence of the
  timestamp): the cached branch, and the use of the orchestrator otherwise. The
  answer is the stored entry marked as cached, or the computed result.
\<close>

definition handler ::
  "pipeline_env \<Rightarrow> results_file \<Rightarrow> int \<Rightarrow> bool \<Rightarrow>
   (ResultData + DetailedHolderResult) \<times> results_file" where
  "handler env file timestamp useCache =
     (case (if useCache then cachedResultOf file ''optimizedSolution'' (Number_toString timestamp)
            else None) of
        Some cachedResult \<Rightarrow> (Inl (handlerCachedAnswer cachedResult), file)
      | None \<Rightarrow>
          (case getTotalEthValueOfHolders env file timestamp of
             (computed, file') \<Rightarrow> (Inr computed, file')))"

text \<open>
  A pipeline whose block resolution fails, and one that resolves block 14723000, finds
  the two holders and reads their balances from the answering contract.
\<close>

definition offlinePipeline :: pipeline_env where
  "offlinePipeline =
     \<lparr> resolveStage = (\<lambda>t. Inl ''Network Error''),
       holdersStage = (\<lambda>b. Inr [holderA, holderB]),
       balancesStage = getEthBalancesgraph answeringContract True,
       formatEther = (\<lambda>w. ''0.009007199254740993''),
       clock = (\<lambda>n. 1000 + 10 * int n),
       isoNow = ''2025-01-01T00:00:00.000Z'',
       canWrite = True \<rparr>"

definition workingPipeline :: pipeline_env where
  "workingPipeline = offlinePipeline \<lparr> resolveStage := (\<lambda>t. Inr 14723000) \<rparr>"

section \<open>Properties\<close>

subsection \<open>Adaptive GraphQL page size\<close>

lemma update_bounds:
  assumes "500 \<le> opt" "opt \<le> 10000" "500 \<le> c" "c \<le> 10000"
  shows "500 \<le> updateOptimalGraphQLBatchSize s c opt
       \<and> updateOptimalGraphQLBatchSize s c opt \<le> 10000"
proof -
  have "500 \<le> (c * 5) div 4" and "(c * 3) div 4 \<le> 10000"
    using assms(3,4) by linarith+
  with assms(1,2) show ?thesis
    by (simp add: updateOptimalGraphQLBatchSize_def)
qed

lemma fallbackPageSize_bounds:
  "500 \<le> fallbackPageSize p \<and> fallbackPageSize p \<le> 1000"
  by (simp add: fallbackPageSize_def)

lemma afterFetch_bounds:
  assumes "500 \<le> opt" "opt \<le> 10000"
  shows "500 \<le> afterFetch outcome opt \<and> afterFetch outcome opt \<le> 10000"
proof (cases outcome)
  case FirstAttemptOk
  then show ?thesis
    using assms by (simp add: afterFetch_def getSuggestedGraphQLBatchSize_def
        updateOptimalGraphQLBatchSize_def)
next
  case SecondAttemptOk
  let ?mid = "updateOptimalGraphQLBatchSize False opt opt"
  have mid: "500 \<le> ?mid \<and> ?mid \<le> 10000"
    using update_bounds [OF assms assms] .
  have fb: "500 \<le> fallbackPageSize opt \<and> fallbackPageSize opt \<le> 10000"
    using fallbackPageSize_bounds [of opt] by simp
  have "500 \<le> updateOptimalGraphQLBatchSize True (fallbackPageSize opt) ?mid
      \<and> updateOptimalGraphQLBatchSize True (fallbackPageSize opt) ?mid \<le> 10000"
    using update_bounds mid fb by blast
  with SecondAttemptOk show ?thesis
    by (simp add: afterFetch_def getSuggestedGraphQLBatchSize_def)
next
  case BothAttemptsFailed
  then show ?thesis
    using update_bounds [OF assms assms]
    by (simp add: afterFetch_def getSuggestedGraphQLBatchSize_def)
qed

lemma afterFetches_bounds:
  "500 \<le> opt \<Longrightarrow> opt \<le> 10000 \<Longrightarrow>
   500 \<le> afterFetches outcomes opt \<and> afterFetches outcomes opt \<le> 10000"
proof (induction outcomes arbitrary: opt)
  case Nil
  then show ?case by simp
next
  case (Cons outcome rest)
  have "500 \<le> afterFetch outcome opt \<and> afterFetch outcome opt \<le> 10000"
    using afterFetch_bounds Cons.prems by blast
  then show ?case using Cons.IH by simp
qed

lemma afterFetch_never_grows:
  assumes "500 \<le> opt"
  shows "afterFetch outcome opt \<le> opt"
proof (cases outcome)
  case FirstAttemptOk
  then show ?thesis
    by (simp add: afterFetch_def getSuggestedGraphQLBatchSize_def
        updateOptimalGraphQLBatchSize_def)
next
  case BothAttemptsFailed
  then show ?thesis
    using assms by (simp add: afterFetch_def getSuggestedGraphQLBatchSize_def
        updateOptimalGraphQLBatchSize_def)
next
  case SecondAttemptOk
  define c where "c = fallbackPageSize opt"
  define mid where "mid = max 500 ((opt * 3) div 4)"
  have after: "afterFetch outcome opt = (if c < mid then min 10000 ((c * 5) div 4) else mid)"
    using SecondAttemptOk
    by (simp add: afterFetch_def getSuggestedGraphQLBatchSize_def
        updateOptimalGraphQLBatchSize_def c_def mid_def)
  have mid_le: "mid \<le> opt" using assms by (simp add: mid_def)
  show ?thesis
  proof (cases "c < mid")
    case False
    with after mid_le show ?thesis by simp
  next
    case True
    have "(c * 5) div 4 \<le> opt"
    proof (cases "1000 \<le> opt")
      case True
      have "c \<le> opt div 2" using True by (simp add: c_def fallbackPageSize_def)
      then show ?thesis using assms by linarith
    next
      case False
      then have c500: "c = 500" by (simp add: c_def fallbackPageSize_def)
      with \<open>c < mid\<close> have "500 < (opt * 3) div 4" by (simp add: mid_def)
      then have "668 \<le> opt" by linarith
      with c500 show ?thesis by simp
    qed
    with after True show ?thesis by simp
  qed
qed

lemma floor_three_quarters: "\<lfloor>0.75 * real_of_int c\<rfloor> = (c * 3) div 4"
proof -
  have "0.75 * real_of_int c = real_of_int (c * 3) / real_of_int 4" by simp
  then show ?thesis by (simp only: floor_divide_of_int_eq)
qed

lemma floor_five_quarters: "\<lfloor>1.25 * real_of_int c\<rfloor> = (c * 5) div 4"
proof -
  have "1.25 * real_of_int c = real_of_int (c * 5) / real_of_int 4" by simp
  then show ?thesis by (simp only: floor_divide_of_int_eq)
qed

lemma fallbackPageSize_floor:
  "fallbackPageSize s = min 1000 (max 500 \<lfloor>real_of_int s / 2\<rfloor>)"
proof -
  have "\<lfloor>real_of_int s / real_of_int 2\<rfloor> = s div 2" by (simp only: floor_divide_of_int_eq)
  then show ?thesis by (simp add: fallbackPageSize_def)
qed

lemma afterFetch_values:
  "afterFetch FirstAttemptOk opt = opt"
  "afterFetch BothAttemptsFailed opt = max 500 ((opt * 3) div 4)"
  "afterFetch SecondAttemptOk opt =
     (if fallbackPageSize opt < max 500 ((opt * 3) div 4)
      then min 10000 ((fallbackPageSize opt * 5) div 4)
      else max 500 ((opt * 3) div 4))"
  by (simp_all add: afterFetch_def getSuggestedGraphQLBatchSize_def
      updateOptimalGraphQLBatchSize_def)

lemma afterFetch_failure_decreases:
  assumes "500 < opt" "outcome \<noteq> FirstAttemptOk"
  shows "afterFetch outcome opt < opt"
proof (cases outcome)
  case FirstAttemptOk
  with assms(2) show ?thesis by simp
next
  case BothAttemptsFailed
  have "(opt * 3) div 4 < opt" using assms(1) by linarith
  with assms(1) BothAttemptsFailed show ?thesis by (simp add: afterFetch_values)
next
  case SecondAttemptOk
  define c where "c = fallbackPageSize opt"
  define mid where "mid = max 500 ((opt * 3) div 4)"
  have after: "afterFetch outcome opt = (if c < mid then min 10000 ((c * 5) div 4) else mid)"
    using SecondAttemptOk by (simp add: afterFetch_values c_def mid_def)
  have "(opt * 3) div 4 < opt" using assms(1) by linarith
  then have mid_less: "mid < opt" using assms(1) by (simp add: mid_def)
  show ?thesis
  proof (cases "c < mid")
    case False
    with after mid_less show ?thesis by simp
  next
    case True
    have "(c * 5) div 4 < opt"
    proof (cases "1000 \<le> opt")
      case True
      have "c \<le> opt div 2" using True by (simp add: c_def fallbackPageSize_def)
      then show ?thesis using True by linarith
    next
      case False
      then have c500: "c = 500" by (simp add: c_def fallbackPageSize_def)
      with \<open>c < mid\<close> have "500 < (opt * 3) div 4" by (simp add: mid_def)
      then have "668 \<le> opt" by linarith
      with c500 show ?thesis by simp
    qed
    with after True show ?thesis by simp
  qed
qed

lemma afterFetches_never_grow:
  "500 \<le> opt \<Longrightarrow> opt \<le> 10000 \<Longrightarrow> afterFetches outcomes opt \<le> opt"
proof (induction outcomes arbitrary: opt)
  case Nil
  then show ?case by simp
next
  case (Cons outcome rest)
  have b: "500 \<le> afterFetch outcome opt \<and> afterFetch outcome opt \<le> 10000"
    using afterFetch_bounds Cons.prems by blast
  have "afterFetches rest (afterFetch outcome opt) \<le> afterFetch outcome opt"
    using Cons.IH b by blast
  moreover have "afterFetch outcome opt \<le> opt"
    using afterFetch_never_grows Cons.prems(1) by blast
  ultimately show ?case by simp
qed

lemma afterFetches_successes:
  "afterFetches (replicate k FirstAttemptOk) opt = opt"
  by (induction k) (simp_all add: afterFetch_values)

text \<open>
  The holder fetches of \<open>afterFetches\<close> run one after another. A fetch that overlaps
  another one reports at the page size it read when it started: a failure reported at
  10000 after the other fetch brought the size down to 1250 sets it to 7500.
\<close>

lemma overlapping_failure_report:
  "updateOptimalGraphQLBatchSize False 10000 1250 = 7500"
  by (simp add: updateOptimalGraphQLBatchSize_def)

text \<open>
  C7, as the code has it, for holder fetches that run one after another. Over every
  sequence of such fetches the suggested page size stays between the floor 500 and the
  cap 10000. A successful fetch at the suggested size leaves it unchanged, however
  many follow each other, and no holder fetch and no sequence of fetches ever raises
  it. A success reported at size \<open>c\<close> sets the size to \<open>min 10000 (floor (1.25 * c))\<close>,
  which is above \<open>c\<close> and within the cap, when \<open>c\<close> is below the suggested size, and
  leaves the size as it is otherwise. A failure reported at size \<open>c\<close> sets it to
  \<open>max 500 (floor (0.75 * c))\<close>, never below the floor and strictly below \<open>c\<close> when \<open>c\<close>
  is above the floor. A fetch whose first attempt fails ends at
  \<open>max 500 (floor (0.75 * opt))\<close>, or at \<open>min 10000 (floor (1.25 * f))\<close> when the second
  attempt goes through at the fallback size \<open>f = min 1000 (max 500 (floor (opt / 2)))\<close>
  and \<open>f\<close> is below that value; either way strictly below the size \<open>opt\<close> it
  started from, when that is above the floor.
\<close>

theorem batch_size_adaptation:
  "500 \<le> afterFetches outcomes initialGraphQLBatchSize
   \<and> afterFetches outcomes initialGraphQLBatchSize \<le> 10000
   \<and> afterFetch FirstAttemptOk opt = opt
   \<and> (500 \<le> opt \<longrightarrow> afterFetch outcome opt \<le> opt)
   \<and> (4 \<le> c \<and> c < opt \<and> opt \<le> 10000 \<longrightarrow>
        c < updateOptimalGraphQLBatchSize True c opt
        \<and> updateOptimalGraphQLBatchSize True c opt \<le> 10000)
   \<and> 500 \<le> updateOptimalGraphQLBatchSize False c opt
   \<and> (500 < c \<longrightarrow> updateOptimalGraphQLBatchSize False c opt < c)
   \<and> updateOptimalGraphQLBatchSize False c opt = max 500 \<lfloor>0.75 * real_of_int c\<rfloor>
   \<and> updateOptimalGraphQLBatchSize True c opt =
        (if c < opt then min 10000 \<lfloor>1.25 * real_of_int c\<rfloor> else opt)
   \<and> afterFetch BothAttemptsFailed opt = max 500 \<lfloor>0.75 * real_of_int opt\<rfloor>
   \<and> afterFetch SecondAttemptOk opt =
        (if fallbackPageSize opt < max 500 \<lfloor>0.75 * real_of_int opt\<rfloor>
         then min 10000 \<lfloor>1.25 * real_of_int (fallbackPageSize opt)\<rfloor>
         else max 500 \<lfloor>0.75 * real_of_int opt\<rfloor>)
   \<and> (500 < opt \<and> outcome \<noteq> FirstAttemptOk \<longrightarrow> afterFetch outcome opt < opt)
   \<and> afterFetches (replicate k FirstAttemptOk) opt = opt
   \<and> (500 \<le> opt \<and> opt \<le> 10000 \<longrightarrow> afterFetches outcomes opt \<le> opt)
   \<and> fallbackPageSize opt = min 1000 (max 500 \<lfloor>real_of_int opt / 2\<rfloor>)"
proof -
  have halved: "fallbackPageSize opt = min 1000 (max 500 \<lfloor>real_of_int opt / 2\<rfloor>)"
    by (rule fallbackPageSize_floor)
  have bounds: "500 \<le> afterFetches outcomes initialGraphQLBatchSize
      \<and> afterFetches outcomes initialGraphQLBatchSize \<le> 10000"
    using afterFetches_bounds [of initialGraphQLBatchSize outcomes]
    by (simp add: initialGraphQLBatchSize_def)
  have same: "afterFetch FirstAttemptOk opt = opt"
    by (simp add: afterFetch_values)
  have grow: "4 \<le> c \<and> c < opt \<and> opt \<le> 10000 \<longrightarrow>
        c < updateOptimalGraphQLBatchSize True c opt
        \<and> updateOptimalGraphQLBatchSize True c opt \<le> 10000"
  proof
    assume a: "4 \<le> c \<and> c < opt \<and> opt \<le> 10000"
    then have "c < (c * 5) div 4" by linarith
    with a show "c < updateOptimalGraphQLBatchSize True c opt
        \<and> updateOptimalGraphQLBatchSize True c opt \<le> 10000"
      by (simp add: updateOptimalGraphQLBatchSize_def)
  qed
  have floor: "500 \<le> updateOptimalGraphQLBatchSize False c opt"
    by (simp add: updateOptimalGraphQLBatchSize_def)
  have shrink: "500 < c \<longrightarrow> updateOptimalGraphQLBatchSize False c opt < c"
  proof
    assume "500 < c"
    then have "(c * 3) div 4 < c" by linarith
    with \<open>500 < c\<close> show "updateOptimalGraphQLBatchSize False c opt < c"
      by (simp add: updateOptimalGraphQLBatchSize_def)
  qed
  have failure: "updateOptimalGraphQLBatchSize False c opt = max 500 \<lfloor>0.75 * real_of_int c\<rfloor>"
    by (simp only: floor_three_quarters updateOptimalGraphQLBatchSize_def if_False)
  have success: "updateOptimalGraphQLBatchSize True c opt =
        (if c < opt then min 10000 \<lfloor>1.25 * real_of_int c\<rfloor> else opt)"
    by (simp only: floor_five_quarters updateOptimalGraphQLBatchSize_def if_True)
  have failed: "afterFetch BothAttemptsFailed opt = max 500 \<lfloor>0.75 * real_of_int opt\<rfloor>"
    by (simp only: floor_three_quarters afterFetch_values)
  have second: "afterFetch SecondAttemptOk opt =
        (if fallbackPageSize opt < max 500 \<lfloor>0.75 * real_of_int opt\<rfloor>
         then min 10000 \<lfloor>1.25 * real_of_int (fallbackPageSize opt)\<rfloor>
         else max 500 \<lfloor>0.75 * real_of_int opt\<rfloor>)"
    by (simp only: floor_three_quarters floor_five_quarters afterFetch_values)
  have decreases: "500 < opt \<and> outcome \<noteq> FirstAttemptOk \<longrightarrow> afterFetch outcome opt < opt"
    using afterFetch_failure_decreases by blast
  have successes: "afterFetches (replicate k FirstAttemptOk) opt = opt"
    by (rule afterFetches_successes)
  have run: "500 \<le> opt \<and> opt \<le> 10000 \<longrightarrow> afterFetches outcomes opt \<le> opt"
    using afterFetches_never_grow by blast
  have never: "500 \<le> opt \<longrightarrow> afterFetch outcome opt \<le> opt"
    using afterFetch_never_grows by blast
  from bounds same never grow floor shrink
  have first: "500 \<le> afterFetches outcomes initialGraphQLBatchSize
   \<and> afterFetches outcomes initialGraphQLBatchSize \<le> 10000
   \<and> afterFetch FirstAttemptOk opt = opt
   \<and> (500 \<le> opt \<longrightarrow> afterFetch outcome opt \<le> opt)
   \<and> (4 \<le> c \<and> c < opt \<and> opt \<le> 10000 \<longrightarrow>
        c < updateOptimalGraphQLBatchSize True c opt
        \<and> updateOptimalGraphQLBatchSize True c opt \<le> 10000)
   \<and> 500 \<le> updateOptimalGraphQLBatchSize False c opt
   \<and> (500 < c \<longrightarrow> updateOptimalGraphQLBatchSize False c opt < c)" by blast
  from failure success failed second decreases successes run halved
  have more: "updateOptimalGraphQLBatchSize False c opt = max 500 \<lfloor>0.75 * real_of_int c\<rfloor>
   \<and> updateOptimalGraphQLBatchSize True c opt =
        (if c < opt then min 10000 \<lfloor>1.25 * real_of_int c\<rfloor> else opt)
   \<and> afterFetch BothAttemptsFailed opt = max 500 \<lfloor>0.75 * real_of_int opt\<rfloor>
   \<and> afterFetch SecondAttemptOk opt =
        (if fallbackPageSize opt < max 500 \<lfloor>0.75 * real_of_int opt\<rfloor>
         then min 10000 \<lfloor>1.25 * real_of_int (fallbackPageSize opt)\<rfloor>
         else max 500 \<lfloor>0.75 * real_of_int opt\<rfloor>)
   \<and> (500 < opt \<and> outcome \<noteq> FirstAttemptOk \<longrightarrow> afterFetch outcome opt < opt)
   \<and> afterFetches (replicate k FirstAttemptOk) opt = opt
   \<and> (500 \<le> opt \<and> opt \<le> 10000 \<longrightarrow> afterFetches outcomes opt \<le> opt)
   \<and> fallbackPageSize opt = min 1000 (max 500 \<lfloor>real_of_int opt / 2\<rfloor>)"
    by (intro conjI)
  from first more show ?thesis by blast
qed

theorem batch_size_adaptation_witness:
  "afterFetches [SecondAttemptOk, FirstAttemptOk] initialGraphQLBatchSize = 1250
   \<and> afterFetch SecondAttemptOk 10000 \<le> 10000
   \<and> updateOptimalGraphQLBatchSize True 1000 7500 = 1250
   \<and> updateOptimalGraphQLBatchSize False 10000 10000 = 7500
   \<and> 1000 < updateOptimalGraphQLBatchSize True 1000 7500
   \<and> updateOptimalGraphQLBatchSize False 1000 7500 < 1000
   \<and> afterFetch SecondAttemptOk 7500 < 7500
   \<and> afterFetches [SecondAttemptOk, FirstAttemptOk] 7500 \<le> 7500
   \<and> afterFetches (replicate 3 FirstAttemptOk) 7500 = 7500
   \<and> max 500 \<lfloor>0.75 * real_of_int 10000\<rfloor> = 7500
   \<and> min 10000 \<lfloor>1.25 * real_of_int 1000\<rfloor> = 1250"
proof -
  have run: "afterFetches [SecondAttemptOk, FirstAttemptOk] initialGraphQLBatchSize = 1250"
    by (simp add: afterFetch_def getSuggestedGraphQLBatchSize_def fallbackPageSize_def
        updateOptimalGraphQLBatchSize_def initialGraphQLBatchSize_def)
  have h1: "(500::int) \<le> 10000" by simp
  have h2: "(4::int) \<le> 1000 \<and> (1000::int) < 7500 \<and> (7500::int) \<le> 10000" by simp
  have h3: "(500::int) < 1000" by simp
  have h4: "(500::int) < 7500 \<and> SecondAttemptOk \<noteq> FirstAttemptOk" by simp
  have h5: "(500::int) \<le> 7500 \<and> (7500::int) \<le> 10000" by simp
  note at7500 = batch_size_adaptation
    [where outcomes = "[SecondAttemptOk, FirstAttemptOk]" and opt = 7500
       and outcome = SecondAttemptOk and c = 1000 and k = 3]
  note at10000 = batch_size_adaptation
    [where outcomes = "[]" and opt = 10000 and outcome = SecondAttemptOk and c = 10000
       and k = 0]
  have keep: "afterFetch SecondAttemptOk 10000 \<le> 10000" using at10000 h1 by blast
  have grown: "updateOptimalGraphQLBatchSize True 1000 7500 = 1250"
    by (simp add: updateOptimalGraphQLBatchSize_def)
  have shrunk: "updateOptimalGraphQLBatchSize False 10000 10000 = 7500"
    by (simp add: updateOptimalGraphQLBatchSize_def)
  have above: "1000 < updateOptimalGraphQLBatchSize True 1000 7500" using at7500 h2 by blast
  have below: "updateOptimalGraphQLBatchSize False 1000 7500 < 1000" using at7500 h3 by blast
  have less: "afterFetch SecondAttemptOk 7500 < 7500" using at7500 h4 by blast
  have sequence: "afterFetches [SecondAttemptOk, FirstAttemptOk] 7500 \<le> 7500"
    using at7500 h5 by blast
  have successes: "afterFetches (replicate 3 FirstAttemptOk) 7500 = 7500"
    using at7500 by blast
  have "updateOptimalGraphQLBatchSize False 10000 10000 = max 500 \<lfloor>0.75 * real_of_int 10000\<rfloor>"
    using at10000 by blast
  with shrunk have floor3: "max 500 \<lfloor>0.75 * real_of_int 10000\<rfloor> = 7500" by simp
  have "updateOptimalGraphQLBatchSize True 1000 7500 =
      (if (1000::int) < 7500 then min 10000 \<lfloor>1.25 * real_of_int 1000\<rfloor> else 7500)"
    using at7500 by blast
  with grown have floor5: "min 10000 \<lfloor>1.25 * real_of_int 1000\<rfloor> = 1250" by simp
  from run keep grown shrunk above below less sequence successes floor3 floor5
  show ?thesis by (intro conjI)
qed

text \<open>
  C7 as stated fails: one failure brings the size from 10000 to 7500, below the cap,
  and three consecutive successful fetches later it is still 7500.
\<close>

theorem batch_size_growth_counterexample:
  "afterFetch BothAttemptsFailed initialGraphQLBatchSize = 7500
   \<and> afterFetches [FirstAttemptOk, FirstAttemptOk, FirstAttemptOk] 7500 = 7500"
  by (simp add: afterFetch_def getSuggestedGraphQLBatchSize_def
      updateOptimalGraphQLBatchSize_def initialGraphQLBatchSize_def)

subsection \<open>Chain block resolver\<close>

lemma pow_half: "(n::int) < 2 ^ (20 - i) \<Longrightarrow> i < 20 \<Longrightarrow> n div 2 < 2 ^ (20 - (i + 1))"
proof -
  assume a: "n < 2 ^ (20 - i)" and b: "i < 20"
  have "(2::int) ^ (20 - i) = 2 * 2 ^ (20 - (i + 1))"
    using b by (metis Suc_diff_Suc Suc_eq_plus1 diff_Suc_eq_diff_pred power_Suc diff_diff_left)
  with a show ?thesis by linarith
qed

lemma binarySearchLoop_invariant:
  "\<forall>b. low0 \<le> b \<and> b \<le> high0 \<longrightarrow> probe b = Block (ts b) \<Longrightarrow>
   \<forall>a b. low0 \<le> a \<and> a \<le> b \<and> b \<le> high0 \<longrightarrow> ts a \<le> ts b \<Longrightarrow>
   low0 \<le> high0 \<Longrightarrow>
   low0 \<le> low \<Longrightarrow> high \<le> high0 \<Longrightarrow>
     (\<forall>b. low0 \<le> b \<and> b < low \<longrightarrow> ts b < t) \<Longrightarrow>
     (\<forall>b. high < b \<and> b \<le> high0 \<longrightarrow> t \<le> ts b) \<Longrightarrow>
     (high = high0 \<and> result = high0) \<or> (high < high0 \<and> result = high + 1) \<Longrightarrow>
     high - low + 1 < 2 ^ (20 - iterations) \<Longrightarrow>
     (low \<le> high \<longrightarrow> (low + high) div 2 \<noteq> lastMid) \<Longrightarrow>
     low \<le> high + 1 \<Longrightarrow>
     r = binarySearchLoop probe t low high result iterations lastMid errs \<Longrightarrow>
     (\<forall>b. low0 \<le> b \<and> b < r \<longrightarrow> ts b < t) \<and> (r \<noteq> high0 \<longrightarrow> t \<le> ts r) \<and> low0 \<le> r \<and> r \<le> high0"
proof (induction probe t low high result iterations lastMid errs rule: binarySearchLoop.induct)
  case (1 probe t low high result iterations lastMid errs)
  note probes = "1.prems"(1) and mono = "1.prems"(2) and ne0 = "1.prems"(3)
    and lo = "1.prems"(4) and hi = "1.prems"(5)
    and below = "1.prems"(6) and above = "1.prems"(7) and res = "1.prems"(8)
    and size = "1.prems"(9) and fresh = "1.prems"(10) and gap = "1.prems"(11) and r = "1.prems"(12)
  show ?case
  proof (cases "low \<le> high")
    case False
    then have rr: "r = result" using r by (simp add: binarySearchLoop.simps)
    from False gap have eq: "low = high + 1" by simp
    from res show ?thesis
    proof
      assume "high = high0 \<and> result = high0"
      then show ?thesis using rr eq below lo ne0 by auto
    next
      assume "high < high0 \<and> result = high + 1"
      then show ?thesis using rr eq below above lo ne0 by auto
    qed
  next
    case True
    define mid where "mid = (low + high) div 2"
    have it: "iterations < 20"
    proof (rule ccontr)
      assume "\<not> iterations < 20"
      then have "20 - iterations = 0" by simp
      with size True show False by simp
    qed
    have cond: "low \<le> high \<and> iterations < 20" using True it by simp
    have midr: "low \<le> mid" "mid \<le> high" using True by (simp_all add: mid_def)
    have probe: "probe mid = Block (ts mid)" using probes midr lo hi by auto
    have ne: "mid \<noteq> lastMid" using fresh True by (simp add: mid_def)
    show ?thesis
    proof (cases "ts mid < t")
      case lt: True
      have r': "r = binarySearchLoop probe t (mid + 1) high result (iterations + 1) mid 0"
        using r True it ne probe lt
        by (subst (asm) binarySearchLoop.simps) (simp add: mid_def Let_def)
      have below': "\<forall>b. low0 \<le> b \<and> b < mid + 1 \<longrightarrow> ts b < t"
      proof (intro allI impI)
        fix b assume b: "low0 \<le> b \<and> b < mid + 1"
        then have "ts b \<le> ts mid" using mono midr hi by auto
        with lt show "ts b < t" by simp
      qed
      have size': "high - (mid + 1) + 1 < 2 ^ (20 - (iterations + 1))"
      proof -
        have "high - (mid + 1) + 1 \<le> (high - low + 1) div 2" by (simp add: mid_def)
        moreover have "(high - low + 1) div 2 < 2 ^ (20 - (iterations + 1))"
          using pow_half [OF size it] .
        ultimately show ?thesis by linarith
      qed
      have fresh': "mid + 1 \<le> high \<longrightarrow> (mid + 1 + high) div 2 \<noteq> mid" by linarith
      show ?thesis
        using "1.IH"(3) [OF cond mid_def ne probe lt probes mono ne0 _ hi below' above res size' fresh' _ r']
          lo midr by simp
    next
      case ge: False
      have r': "r = binarySearchLoop probe t low (mid - 1) mid (iterations + 1) mid 0"
        using r True it ne probe ge
        by (subst (asm) binarySearchLoop.simps) (simp add: mid_def Let_def)
      have above': "\<forall>b. mid - 1 < b \<and> b \<le> high0 \<longrightarrow> t \<le> ts b"
      proof (intro allI impI)
        fix b assume b: "mid - 1 < b \<and> b \<le> high0"
        then have "ts mid \<le> ts b" using mono midr lo by auto
        with ge show "t \<le> ts b" by simp
      qed
      have size': "(mid - 1) - low + 1 < 2 ^ (20 - (iterations + 1))"
      proof -
        have "(mid - 1) - low + 1 \<le> (high - low + 1) div 2" by (simp add: mid_def)
        moreover have "(high - low + 1) div 2 < 2 ^ (20 - (iterations + 1))"
          using pow_half [OF size it] .
        ultimately show ?thesis by linarith
      qed
      have fresh': "low \<le> mid - 1 \<longrightarrow> (low + (mid - 1)) div 2 \<noteq> mid" by linarith
      have res': "(mid - 1 = high0 \<and> mid = high0) \<or> (mid - 1 < high0 \<and> mid = mid - 1 + 1)"
        using midr hi by simp
      have hi': "mid - 1 \<le> high0" using midr hi by simp
      have gap': "low \<le> mid - 1 + 1" using midr by simp
      show ?thesis
        using "1.IH"(4) [OF cond mid_def ne probe ge probes mono ne0 lo hi' below above' res' size' fresh' gap' r']
        by simp
    qed
  qed
qed


text \<open>
  C2, as the code has it. The search keeps the midpoint as \<open>result\<close> when its
  timestamp is at or after the target, so it finds the first block at or after the
  target, not the last block at or before it. When every probe of the range succeeds,
  timestamps do not decrease along the range, the range has fewer than \<open>2^20\<close> blocks
  (the cap of 20 iterations is not hit) and its first midpoint is not block 0 (the
  initial \<open>lastMid\<close>), the returned block \<open>r\<close> lies in the range, every block of the
  range before \<open>r\<close> is stamped before the target, and \<open>r\<close> is stamped at or after
  the target unless no block of the range is, in which case \<open>r\<close> is \<open>high\<close>.
\<close>

theorem binarySearchBlock_first_at_or_after:
  assumes probes: "\<forall>b. low \<le> b \<and> b \<le> high \<longrightarrow> probe b = Block (ts b)"
    and mono: "\<forall>a b. low \<le> a \<and> a \<le> b \<and> b \<le> high \<longrightarrow> ts a \<le> ts b"
    and range: "low \<le> high" "high - low + 1 < 2 ^ 20" "(low + high) div 2 \<noteq> 0"
  shows "low \<le> binarySearchBlock probe low high t
       \<and> binarySearchBlock probe low high t \<le> high
       \<and> (\<forall>b. low \<le> b \<and> b < binarySearchBlock probe low high t \<longrightarrow> ts b < t)
       \<and> (binarySearchBlock probe low high t \<noteq> high \<longrightarrow>
            t \<le> ts (binarySearchBlock probe low high t))
       \<and> ((\<exists>b. low \<le> b \<and> b \<le> high \<and> t \<le> ts b) \<longrightarrow>
            t \<le> ts (binarySearchBlock probe low high t))"
proof -
  define r where "r = binarySearchBlock probe low high t"
  have r: "r = binarySearchLoop probe t low high high 0 0 0"
    by (simp add: r_def binarySearchBlock_def)
  have size: "high - low + 1 < 2 ^ (20 - 0)" using range(2) by simp
  have inv: "(\<forall>b. low \<le> b \<and> b < r \<longrightarrow> ts b < t) \<and> (r \<noteq> high \<longrightarrow> t \<le> ts r)
      \<and> low \<le> r \<and> r \<le> high"
    by (rule binarySearchLoop_invariant [OF probes mono range(1) _ _ _ _ _ size _ _ r])
       (use range in auto)
  have found: "(\<exists>b. low \<le> b \<and> b \<le> high \<and> t \<le> ts b) \<longrightarrow> t \<le> ts r"
  proof
    assume "\<exists>b. low \<le> b \<and> b \<le> high \<and> t \<le> ts b"
    then obtain b where b: "low \<le> b" "b \<le> high" "t \<le> ts b" by blast
    show "t \<le> ts r"
    proof (cases "r = high")
      case True
      have "ts b \<le> ts high" using mono b by auto
      with b True show ?thesis by simp
    next
      case False
      with inv show ?thesis by simp
    qed
  qed
  from inv found show ?thesis unfolding r_def by blast
qed

theorem binarySearchBlock_first_at_or_after_witness:
  "binarySearchBlock (getBlock tenSecondChain) 1 10 35 = 4
   \<and> 1 \<le> binarySearchBlock (getBlock tenSecondChain) 1 10 35
   \<and> (35::int) \<le> 10 * binarySearchBlock (getBlock tenSecondChain) 1 10 35"
proof -
  have probes: "\<forall>b. 1 \<le> b \<and> b \<le> 10 \<longrightarrow> getBlock tenSecondChain b = Block (10 * b)"
    by (simp add: tenSecondChain_def)
  have mono: "\<forall>a b::int. 1 \<le> a \<and> a \<le> b \<and> b \<le> 10 \<longrightarrow> 10 * a \<le> 10 * b"
    by simp
  have range: "(1::int) \<le> 10" "(10::int) - 1 + 1 < 2 ^ 20" "((1::int) + 10) div 2 \<noteq> 0"
    by simp_all
  note inst = binarySearchBlock_first_at_or_after
    [of 1 10 "getBlock tenSecondChain" "\<lambda>b. 10 * b" 35, OF probes mono range]
  have ex: "\<exists>b::int. 1 \<le> b \<and> b \<le> 10 \<and> 35 \<le> 10 * b"
    by (rule exI [of _ 4]) simp
  have found: "binarySearchBlock (getBlock tenSecondChain) 1 10 35 = 4"
    by (simp add: binarySearchBlock_def binarySearchLoop.simps tenSecondChain_def)
  from inst ex found show ?thesis by blast
qed

text \<open>
  C2 as stated fails: with Etherscan unreachable the resolver searches blocks 0 to 10
  for timestamp 35 and returns block 4, stamped 40, although block 3, stamped 30, is
  the last block at or before 35.
\<close>

theorem resolver_block_after_timestamp_counterexample:
  "getBlockNumberAtTimestamp tenSecondChain [] 35 = Inr 4
   \<and> getBlock tenSecondChain 4 = Block 40
   \<and> getBlock tenSecondChain 3 = Block 30
   \<and> \<not> (40::int) \<le> 35"
  by (simp add: getBlockNumberAtTimestamp_def resolveBlock_def cachedBlockNumber_def
      veryCloseCached_def etherscanLookup_def binarySearchBlock_def binarySearchLoop.simps
      tenSecondChain_def)

subsection \<open>Ownership set builder\<close>

lemma latestRecipient_snoc:
  "latestRecipient (seen @ [t]) tok =
     (if tokenID t = tok then Some (toLowerCase (transfer_to t)) else latestRecipient seen tok)"
proof -
  have alt: "\<And>h. latestRecipient h tok =
      (if filter (\<lambda>t. tokenID t = tok) h = [] then None
       else Some (toLowerCase (transfer_to (last (filter (\<lambda>t. tokenID t = tok) h)))))"
    by (simp add: latestRecipient_def split: list.splits)
  show ?thesis by (simp add: alt)
qed

lemma removeAll_empty_member: "removeAll x xs = [] \<Longrightarrow> y \<in> set xs \<Longrightarrow> y = x"
proof -
  assume e: "removeAll x xs = []" and y: "y \<in> set xs"
  have "set (removeAll x xs) = set xs - {x}" by simp
  with e have "set xs - {x} = {}" by simp
  with y show "y = x" by blast
qed

lemma applyTransfer_split:
  "applyTransfer t m =
     AList.update (toLowerCase (transfer_to t))
       (case map_of (afterRemoval t m) (toLowerCase (transfer_to t)) of
          None \<Rightarrow> [tokenID t]
        | Some tokens \<Rightarrow> setAdd tokens (tokenID t))
       (afterRemoval t m)"
  by (simp add: applyTransfer_def afterRemoval_def Let_def)

lemma holds_afterRemoval:
  "holdsToken (afterRemoval t m) a tok \<longleftrightarrow>
     holdsToken m a tok \<and>
     \<not> (toLowerCase (transfer_from t) \<noteq> zeroAddress \<and> a = toLowerCase (transfer_from t)
        \<and> tok = tokenID t)"
  by (auto simp: holdsToken_def afterRemoval_def update_conv' delete_conv'
      split: option.splits if_splits dest: removeAll_empty_member)

lemma nonempty_afterRemoval: "nonemptySets m \<Longrightarrow> nonemptySets (afterRemoval t m)"
  by (auto simp: nonemptySets_def afterRemoval_def update_conv' delete_conv'
      split: option.splits if_splits)

lemma holds_applyTransfer:
  "holdsToken (applyTransfer t m) a tok \<longleftrightarrow>
     holdsToken (afterRemoval t m) a tok \<or> (a = toLowerCase (transfer_to t) \<and> tok = tokenID t)"
  by (auto simp: applyTransfer_split holdsToken_def update_conv' setAdd_def
      split: option.splits if_splits)

lemma nonempty_applyTransfer: "nonemptySets m \<Longrightarrow> nonemptySets (applyTransfer t m)"
proof -
  assume "nonemptySets m"
  then have "nonemptySets (afterRemoval t m)" by (rule nonempty_afterRemoval)
  then show ?thesis
    by (auto simp: applyTransfer_split nonemptySets_def update_conv' setAdd_def
        split: option.splits if_splits)
qed

lemma replayInvariant_step:
  assumes inv: "replayInvariant m seen"
    and own: "latestRecipient seen (tokenID t) = Some (toLowerCase (transfer_from t))
       \<or> (toLowerCase (transfer_from t) = zeroAddress \<and> latestRecipient seen (tokenID t) = None)"
  shows "replayInvariant (applyTransfer t m) (seen @ [t])"
proof -
  have ne: "nonemptySets (applyTransfer t m)"
    using inv by (simp add: replayInvariant_def nonempty_applyTransfer)
  have "holdsToken (applyTransfer t m) a tok \<longleftrightarrow> latestRecipient (seen @ [t]) tok = Some a"
    if a: "a \<noteq> zeroAddress" for a tok
  proof (cases "tok = tokenID t")
    case False
    then show ?thesis
      using inv a
      by (auto simp: holds_applyTransfer holds_afterRemoval latestRecipient_snoc
          replayInvariant_def)
  next
    case True
    have old: "holdsToken m a tok \<longleftrightarrow> latestRecipient seen tok = Some a"
      using inv a by (simp add: replayInvariant_def)
    show ?thesis
      using own a old True
      by (auto simp: holds_applyTransfer holds_afterRemoval latestRecipient_snoc)
  qed
  with ne show ?thesis by (simp add: replayInvariant_def)
qed


lemma replayInvariant_empty: "replayInvariant [] []"
  by (simp add: replayInvariant_def nonemptySets_def holdsToken_def latestRecipient_def)

lemma replayInvariant_foldl:
  "replayInvariant m seen \<Longrightarrow> followsOwnership seen xs \<Longrightarrow>
   replayInvariant (foldl (\<lambda>m t. applyTransfer t m) m xs) (seen @ xs)"
proof (induction xs arbitrary: m seen)
  case Nil
  then show ?case by simp
next
  case (Cons t xs)
  have step: "replayInvariant (applyTransfer t m) (seen @ [t])"
    using replayInvariant_step [OF Cons.prems(1)] Cons.prems(2) by simp
  have "followsOwnership (seen @ [t]) xs" using Cons.prems(2) by simp
  from Cons.IH [OF step this] show ?case by simp
qed

lemma followsOwnership_prefix:
  "followsOwnership seen (xs @ ys) \<Longrightarrow> followsOwnership seen xs"
  by (induction xs arbitrary: seen) auto

lemma processTransfers_takeWhile:
  "processTransfers bn ts m =
     (foldl (\<lambda>m t. applyTransfer t m) m (takeWhile (\<lambda>t. transfer_blockNumber t \<le> bn) ts),
      list_all (\<lambda>t. transfer_blockNumber t \<le> bn) ts)"
  by (induction ts arbitrary: m) auto

lemma sorted_takeWhile_filter:
  "sorted (map f xs) \<Longrightarrow>
   takeWhile (\<lambda>x. f x \<le> (b::int)) xs = filter (\<lambda>x. f x \<le> b) xs"
proof (induction xs)
  case Nil
  then show ?case by simp
next
  case (Cons x xs)
  show ?case
  proof (cases "f x \<le> b")
    case True
    with Cons show ?thesis by simp
  next
    case False
    have "\<forall>y\<in>set xs. \<not> f y \<le> b" using Cons.prems False by auto
    then have "filter (\<lambda>x. f x \<le> b) xs = []" by (simp add: filter_empty_conv)
    with False show ?thesis by simp
  qed
qed

lemma transferPages_replay:
  assumes replies: "\<forall>q. 1 \<le> q \<and> q \<le> 5 \<longrightarrow> tokenTransfers env q = TransfersReply ''1'' (pages q)"
    and ended: "\<forall>q r. 1 \<le> q \<and> q \<le> r \<and> r \<le> 5 \<and> pages q = [] \<longrightarrow> pages r = []"
  shows "1 \<le> p \<Longrightarrow> p \<le> 6 \<Longrightarrow>
    transferPages env bn p m =
      Inr (foldl (\<lambda>m t. applyTransfer t m) m
            (takeWhile (\<lambda>t. transfer_blockNumber t \<le> bn) (concat (map pages [p..<6]))))"
proof (induction "6 - p" arbitrary: p m)
  case 0
  then have "p = 6" by simp
  then show ?case by (subst transferPages.simps) simp
next
  case (Suc n)
  then have p: "1 \<le> p" "p \<le> 5" by simp_all
  have reply: "tokenTransfers env p = TransfersReply ''1'' (pages p)" using replies p by simp
  have upt: "[p..<6] = p # [p + 1..<6]" using p by (simp add: upt_conv_Cons)
  let ?ok = "\<lambda>t. transfer_blockNumber t \<le> bn"
  let ?rest = "concat (map pages [p + 1..<6])"
  show ?case
  proof (cases "pages p = []")
    case True
    have "\<forall>r\<in>set [p..<6]. pages r = []" using ended True p by auto
    then have none: "concat (map pages [p..<6]) = []" by simp
    have "transferPages env bn p m = Inr m"
      using reply True p by (subst transferPages.simps) simp
    then show ?thesis unfolding none by simp
  next
    case False
    show ?thesis
    proof (cases "list_all ?ok (pages p)")
      case True
      have IH: "transferPages env bn (p + 1) (foldl (\<lambda>m t. applyTransfer t m) m (pages p)) =
          Inr (foldl (\<lambda>m t. applyTransfer t m) (foldl (\<lambda>m t. applyTransfer t m) m (pages p))
                (takeWhile ?ok ?rest))"
        using Suc.hyps(1) [of "p + 1"] Suc.hyps(2) p by simp
      have pt: "processTransfers bn (pages p) m =
          (foldl (\<lambda>m t. applyTransfer t m) m (pages p), True)"
        unfolding processTransfers_takeWhile using True
        by (simp add: list_all_iff takeWhile_eq_all_conv [THEN iffD2])
      have unfolded: "transferPages env bn p m =
          transferPages env bn (p + 1) (foldl (\<lambda>m t. applyTransfer t m) m (pages p))"
        using reply False p by (subst transferPages.simps) (simp add: pt)
      have app: "takeWhile ?ok (concat (map pages [p..<6])) = pages p @ takeWhile ?ok ?rest"
        unfolding upt using True by (simp add: list_all_iff)
      show ?thesis unfolding unfolded IH app by simp
    next
      case stop: False
      then obtain x where "x \<in> set (pages p)" "\<not> ?ok x" by (auto simp: list_all_iff)
      then have app: "takeWhile ?ok (concat (map pages [p..<6])) = takeWhile ?ok (pages p)"
        unfolding upt by (simp add: takeWhile_append1)
      have pt: "processTransfers bn (pages p) m =
          (foldl (\<lambda>m t. applyTransfer t m) m (takeWhile ?ok (pages p)), False)"
        unfolding processTransfers_takeWhile using stop by simp
      have "transferPages env bn p m =
          Inr (foldl (\<lambda>m t. applyTransfer t m) m (takeWhile ?ok (pages p)))"
        using reply False p by (subst transferPages.simps) (simp add: pt)
      then show ?thesis unfolding app .
    qed
  qed
qed

lemma holders_of_invariant:
  assumes "replayInvariant m history"
  shows "set (filter (\<lambda>address. address \<noteq> zeroAddress) (map fst m)) =
     {address. address \<noteq> zeroAddress \<and> (\<exists>tokenId. latestRecipient history tokenId = Some address)}"
proof -
  have keys: "\<And>a. a \<in> fst ` set m \<longleftrightarrow> map_of m a \<noteq> None"
    by (simp add: map_of_eq_None_iff)
  have some: "\<And>a. a \<noteq> zeroAddress \<Longrightarrow>
      map_of m a \<noteq> None \<longleftrightarrow> (\<exists>tok. latestRecipient history tok = Some a)"
  proof -
    fix a assume a: "a \<noteq> zeroAddress"
    have "map_of m a \<noteq> None \<longleftrightarrow> (\<exists>tok. holdsToken m a tok)"
    proof
      assume "map_of m a \<noteq> None"
      then obtain toks where toks: "map_of m a = Some toks" by auto
      then have "toks \<noteq> []" using assms by (auto simp: replayInvariant_def nonemptySets_def)
      then obtain tok where "tok \<in> set toks" by (cases toks) auto
      with toks show "\<exists>tok. holdsToken m a tok" by (auto simp: holdsToken_def)
    next
      assume "\<exists>tok. holdsToken m a tok"
      then show "map_of m a \<noteq> None" by (auto simp: holdsToken_def)
    qed
    then show "map_of m a \<noteq> None \<longleftrightarrow> (\<exists>tok. latestRecipient history tok = Some a)"
      using assms a by (simp add: replayInvariant_def)
  qed
  show ?thesis using keys some by auto
qed

text \<open>
  C5, as the code has it. The replay reads at most five pages of the ascending
  listing. When the five requests succeed with status 1, no page follows an empty
  one, the events of the five pages are in ascending block order and follow
  ownership, the holders returned are the holders of the specification for the
  history made of these five pages: the addresses other than the null address that
  are the latest recipient of some token among the events up to the target block.
\<close>

theorem transfer_replay_within_five_pages:
  assumes replies: "\<forall>q. 1 \<le> q \<and> q \<le> 5 \<longrightarrow> tokenTransfers env q = TransfersReply ''1'' (pages q)"
    and ended: "\<forall>q r. 1 \<le> q \<and> q \<le> r \<and> r \<le> 5 \<and> pages q = [] \<longrightarrow> pages r = []"
    and ascending: "sorted (map transfer_blockNumber (concat (map pages [1..<6])))"
    and follows: "followsOwnership [] (concat (map pages [1..<6]))"
  shows "set (getHoldersFromTokenTransfers env bn) =
     replayedHolders (concat (map pages [1..<6])) bn"
proof -
  let ?history = "concat (map pages [1..<6])"
  let ?ok = "\<lambda>t. transfer_blockNumber t \<le> bn"
  have run: "transferPages env bn 1 [] =
      Inr (foldl (\<lambda>m t. applyTransfer t m) [] (takeWhile ?ok ?history))"
    using transferPages_replay [OF replies ended, of 1 bn "[]"] by simp
  have filt: "takeWhile ?ok ?history = filter ?ok ?history"
    using sorted_takeWhile_filter [OF ascending] .
  have "followsOwnership [] (takeWhile ?ok ?history @ dropWhile ?ok ?history)"
    using follows by simp
  then have "followsOwnership [] (takeWhile ?ok ?history)" by (rule followsOwnership_prefix)
  then have inv: "replayInvariant (foldl (\<lambda>m t. applyTransfer t m) [] (takeWhile ?ok ?history))
      (filter ?ok ?history)"
    using replayInvariant_foldl [OF replayInvariant_empty] filt by fastforce
  show ?thesis
    using holders_of_invariant [OF inv] run
    by (simp add: getHoldersFromTokenTransfers_def replayedHolders_def)
qed


lemma toLowerCase_lower:
  "toLowerCase holderA = holderA" "toLowerCase holderB = holderB"
  "toLowerCase zeroAddress = zeroAddress"
  by (simp_all add: toLowerCase_def holderA_def holderB_def zeroAddress_def)

lemma holders_distinct:
  "holderA \<noteq> holderB" "holderA \<noteq> zeroAddress" "holderB \<noteq> zeroAddress"
  "holderB \<notin> set sampleHolders" "zeroAddress \<notin> set sampleHolders"
  by (simp_all add: holderA_def holderB_def zeroAddress_def sampleHolders_def)

theorem transfer_replay_within_five_pages_witness:
  "set (getHoldersFromTokenTransfers shortListing 250) =
     replayedHolders
       (concat (map (\<lambda>page. if page = (1::nat) then shortPage else []) [1..<6])) 250
   \<and> getHoldersFromTokenTransfers shortListing 250 = [holderB]"
proof -
  have replies: "\<forall>q. 1 \<le> q \<and> q \<le> 5 \<longrightarrow>
      tokenTransfers shortListing q =
        TransfersReply ''1'' ((\<lambda>page. if page = (1::nat) then shortPage else []) q)"
    by (simp add: shortListing_def)
  have ended: "\<forall>q r. 1 \<le> q \<and> q \<le> r \<and> r \<le> 5
      \<and> (\<lambda>page. if page = (1::nat) then shortPage else []) q = []
      \<longrightarrow> (\<lambda>page. if page = (1::nat) then shortPage else []) r = []"
    by (auto simp: shortPage_def)
  have history: "concat (map (\<lambda>page. if page = (1::nat) then shortPage else []) [1..<6])
      = shortPage"
    by (simp add: upt_conv_Cons)
  have ascending: "sorted (map transfer_blockNumber
      (concat (map (\<lambda>page. if page = (1::nat) then shortPage else []) [1..<6])))"
    unfolding history by (simp add: shortPage_def)
  have follows: "followsOwnership []
      (concat (map (\<lambda>page. if page = (1::nat) then shortPage else []) [1..<6]))"
    unfolding history
    by (simp add: shortPage_def latestRecipient_def toLowerCase_lower)
  note inst = transfer_replay_within_five_pages [OF replies ended ascending follows, of 250]
  have run: "getHoldersFromTokenTransfers shortListing 250 = [holderB]"
    by code_simp
  from inst run show ?thesis by simp
qed

lemma dom_afterRemoval: "dom (map_of (afterRemoval t m)) \<subseteq> dom (map_of m)"
  by (auto simp: afterRemoval_def update_conv' delete_conv' split: option.splits if_splits)

lemma dom_applyTransfer:
  "dom (map_of (applyTransfer t m)) \<subseteq> insert (toLowerCase (transfer_to t)) (dom (map_of m))"
  using dom_afterRemoval [of t m]
  by (auto simp: applyTransfer_split update_conv' split: option.splits if_splits)

lemma dom_foldl_applyTransfer:
  "dom (map_of (foldl (\<lambda>m t. applyTransfer t m) m xs)) \<subseteq>
     dom (map_of m) \<union> (\<lambda>t. toLowerCase (transfer_to t)) ` set xs"
proof (induction xs arbitrary: m)
  case Nil
  then show ?case by simp
next
  case (Cons t xs)
  have later: "dom (map_of (foldl (\<lambda>m t. applyTransfer t m) (applyTransfer t m) xs)) \<subseteq>
      dom (map_of (applyTransfer t m)) \<union> (\<lambda>t. toLowerCase (transfer_to t)) ` set xs"
    by (rule Cons.IH)
  have first: "dom (map_of (applyTransfer t m)) \<subseteq>
      insert (toLowerCase (transfer_to t)) (dom (map_of m))"
    by (rule dom_applyTransfer)
  from later first
  have "dom (map_of (foldl (\<lambda>m t. applyTransfer t m) (applyTransfer t m) xs)) \<subseteq>
      dom (map_of m) \<union> insert (toLowerCase (transfer_to t))
        ((\<lambda>t. toLowerCase (transfer_to t)) ` set xs)"
    by blast
  then show ?case by simp
qed

text \<open>
  C5 as stated fails: of a listing of 501 events the sixth page is never read. The
  complete history up to block 10 makes the second holder the owner of token 0, and
  the replay does not return that address.
\<close>

theorem transfer_replay_page_limit_counterexample:
  "holderB \<in> replayedHolders sixPageHistory 10
   \<and> holderB \<notin> set (getHoldersFromTokenTransfers sixPageListing 10)"
proof -
  let ?ok = "\<lambda>t. transfer_blockNumber t \<le> (10::int)"
  let ?five = "concat (map mintPage [1..<6])"
  have mints: "\<forall>t\<in>set ?five. transfer_blockNumber t = 1 \<and> transfer_to t = holderA"
    by (auto simp: mintPage_def)
  have keep: "filter ?ok sixPageHistory = filter ?ok ?five @ [lateTransfer]"
    by (simp add: sixPageHistory_def lateTransfer_def)
  have "latestRecipient (filter ?ok sixPageHistory) ''0'' = Some holderB"
    unfolding keep latestRecipient_snoc
    by (simp add: lateTransfer_def toLowerCase_lower)
  then have spec: "holderB \<in> replayedHolders sixPageHistory 10"
    using holders_distinct by (auto simp: replayedHolders_def)
  have replies: "\<forall>q. 1 \<le> q \<and> q \<le> 5 \<longrightarrow>
      tokenTransfers sixPageListing q = TransfersReply ''1'' (mintPage q)"
    by (simp add: sixPageListing_def)
  have ended: "\<forall>q r. 1 \<le> q \<and> q \<le> r \<and> r \<le> 5 \<and> mintPage q = [] \<longrightarrow> mintPage r = []"
    by (simp add: mintPage_def)
  have run: "transferPages sixPageListing 10 1 [] =
      Inr (foldl (\<lambda>m t. applyTransfer t m) [] (takeWhile ?ok ?five))"
    using transferPages_replay [OF replies ended, of 1 10 "[]"] by simp
  have "dom (map_of (foldl (\<lambda>m t. applyTransfer t m) [] (takeWhile ?ok ?five))) \<subseteq>
      (\<lambda>t. toLowerCase (transfer_to t)) ` set (takeWhile ?ok ?five)"
    using dom_foldl_applyTransfer [of "[]" "takeWhile ?ok ?five"] by simp
  also have "\<dots> \<subseteq> (\<lambda>t. toLowerCase (transfer_to t)) ` set ?five"
    using set_takeWhileD by fastforce
  also have "\<dots> \<subseteq> {holderA}"
    using mints by (auto simp: toLowerCase_lower)
  finally have keys: "dom (map_of (foldl (\<lambda>m t. applyTransfer t m) [] (takeWhile ?ok ?five)))
      \<subseteq> {holderA}" .
  have "set (getHoldersFromTokenTransfers sixPageListing 10) \<subseteq> {holderA}"
    unfolding getHoldersFromTokenTransfers_def run
    using keys by (auto simp: dom_map_of_conv_image_fst)
  then have code: "holderB \<notin> set (getHoldersFromTokenTransfers sixPageListing 10)"
    using holders_distinct by auto
  from spec code show ?thesis by simp
qed

text \<open>
  C3. The subgraph path adds every owner of a page to the holders and never removes
  the null address: for a subgraph that lists a token owned by the null address,
  \<open>getBAYCHoldersAtBlock\<close> returns it as a holder. The transfer replay, in contrast,
  never returns the null address, whatever Etherscan answers.
\<close>

theorem subgraph_path_returns_null_address:
  "getBAYCHoldersAtBlock burnedTokenSubgraph emptyCache initialGraphQLBatchSize 14723000 =
     Some (Inr [zeroAddress, holderA], 10000)
   \<and> zeroAddress \<notin> set (getHoldersFromTokenTransfers env bn)"
proof -
  have run: "getBAYCHoldersAtBlock burnedTokenSubgraph emptyCache initialGraphQLBatchSize
      14723000 = Some (Inr [zeroAddress, holderA], 10000)"
    by (simp add: getBAYCHoldersAtBlock_def holdersTry_def emptyCache_def
        burnedTokenSubgraph_def servicesDown_def builtTimestampIndex_def nearbyInTime_def
        nearbyInBlocks_def subgraphHolders_def firstAttempt_def addOwners_def setAdd_def
        toLowerCase_lower holders_distinct initialGraphQLBatchSize_def
        getSuggestedGraphQLBatchSize_def updateOptimalGraphQLBatchSize_def)
  have replay: "zeroAddress \<notin> set (getHoldersFromTokenTransfers env bn)"
    using holders_distinct(5)
    by (simp add: getHoldersFromTokenTransfers_def split: sum.splits)
  from run replay show ?thesis by simp
qed

lemma followUpPages_returns:
  "pagesEnd n env b p l \<Longrightarrow> \<exists>r. followUpPages env b p l hs = Some r"
proof (induction n arbitrary: l hs)
  case 0
  then show ?case by simp
next
  case (Suc n)
  show ?case
  proof (cases "graphQuery env b l p")
    case (GraphQLThrows message)
    then show ?thesis by (subst followUpPages.simps) simp
  next
    case GraphQLErrors
    then show ?thesis by (subst followUpPages.simps) simp
  next
    case (GraphQLTokens tokens)
    show ?thesis
    proof (cases "tokens = [] \<or> int (length tokens) < p")
      case True
      with GraphQLTokens show ?thesis by (subst followUpPages.simps) auto
    next
      case False
      with Suc.prems GraphQLTokens have "pagesEnd n env b p (token_id (last tokens))" by simp
      from Suc.IH [OF this, of "addOwners hs tokens"] False GraphQLTokens
      show ?thesis by (subst followUpPages.simps) simp
    qed
  qed
qed

lemma fallbackPages_returns:
  "pagesEnd n env b p l \<Longrightarrow> \<exists>r. fallbackPages env b p l hs = Some r"
proof (induction n arbitrary: l hs)
  case 0
  then show ?case by simp
next
  case (Suc n)
  show ?case
  proof (cases "graphQuery env b l p")
    case (GraphQLThrows message)
    then show ?thesis by (subst fallbackPages.simps) simp
  next
    case GraphQLErrors
    then show ?thesis by (subst fallbackPages.simps) simp
  next
    case (GraphQLTokens tokens)
    show ?thesis
    proof (cases "tokens = [] \<or> int (length tokens) < p")
      case True
      with GraphQLTokens show ?thesis by (subst fallbackPages.simps) auto
    next
      case False
      with Suc.prems GraphQLTokens have "pagesEnd n env b p (token_id (last tokens))" by simp
      from Suc.IH [OF this, of "addOwners hs tokens"] False GraphQLTokens
      show ?thesis by (subst fallbackPages.simps) simp
    qed
  qed
qed

lemma firstAttempt_returns:
  "pagesEnd n env b p [] \<Longrightarrow> \<exists>r. firstAttempt env b p = Some r"
proof (cases n)
  case 0
  assume "pagesEnd n env b p []"
  with 0 show ?thesis by simp
next
  case (Suc k)
  assume ends: "pagesEnd n env b p []"
  show ?thesis
  proof (cases "graphQuery env b [] p")
    case (GraphQLThrows message)
    then show ?thesis by (simp add: firstAttempt_def)
  next
    case GraphQLErrors
    then show ?thesis by (simp add: firstAttempt_def)
  next
    case (GraphQLTokens tokens)
    show ?thesis
    proof (cases "tokens = [] \<or> int (length tokens) < p")
      case True
      with GraphQLTokens show ?thesis by (auto simp: firstAttempt_def)
    next
      case False
      with ends Suc GraphQLTokens have "pagesEnd k env b p (token_id (last tokens))" by simp
      from followUpPages_returns [OF this, of "addOwners [] tokens"] False GraphQLTokens
      show ?thesis by (simp add: firstAttempt_def)
    qed
  qed
qed

lemma subgraphHolders_returns:
  assumes "pagesEnd n env b opt []" "pagesEnd k env b (fallbackPageSize opt) []"
  shows "\<exists>r newSize. subgraphHolders env opt b = Some (r, newSize)"
proof -
  obtain r1 where first: "firstAttempt env b opt = Some r1"
    using firstAttempt_returns [OF assms(1)] by blast
  obtain r2 where second: "fallbackPages env b (fallbackPageSize opt) [] [] = Some r2"
    using fallbackPages_returns [OF assms(2)] by blast
  show ?thesis
    using first second
    by (cases r1; cases r2)
       (simp_all add: subgraphHolders_def getSuggestedGraphQLBatchSize_def Let_def)
qed

lemma getBAYCHoldersAtBlock_returns:
  assumes "pagesEnd n env b opt []" "pagesEnd k env b (fallbackPageSize opt) []"
  shows "\<exists>holders newSize. getBAYCHoldersAtBlock env cache opt b = Some (Inr holders, newSize)"
proof -
  obtain r newSize where sub: "subgraphHolders env opt b = Some (r, newSize)"
    using subgraphHolders_returns [OF assms] by blast
  have "\<exists>r' s. holdersTry env cache opt b = Some (r', s)"
    using sub by (auto simp: holdersTry_def Let_def split: option.splits block_probe.splits)
  then obtain r' s where tried: "holdersTry env cache opt b = Some (r', s)" by blast
  show ?thesis using tried by (cases r') (simp_all add: getBAYCHoldersAtBlock_def)
qed

text \<open>
  C4, as the code has it. \<open>getBAYCHoldersAtBlock\<close> never throws to its caller: every
  error of the cache and subgraph path is answered by the transfer replay, and the
  replay itself catches its errors. When a request of the replay throws, the built-in
  sample holders are returned in place of a computed list; when Etherscan answers the
  first page with an error status, the empty list is returned. Whenever the paging of
  the subgraph ends at both page sizes, the function returns a holder list.
\<close>

theorem holders_builder_never_throws:
  "(\<forall>err pageSize. getBAYCHoldersAtBlock env cache opt bn \<noteq> Some (Inl err, pageSize))
   \<and> (\<forall>err pageSize. holdersTry env cache opt bn = Some (Inl err, pageSize) \<longrightarrow>
         getBAYCHoldersAtBlock env cache opt bn =
           Some (Inr (getHoldersFromTokenTransfers env bn), pageSize))
   \<and> (\<forall>holders pageSize. holdersTry env cache opt bn = Some (Inr holders, pageSize) \<longrightarrow>
         getBAYCHoldersAtBlock env cache opt bn = Some (Inr holders, pageSize))
   \<and> (\<forall>err. transferPages env bn 1 [] = Inl err \<longrightarrow>
         getHoldersFromTokenTransfers env bn = sampleHolders)
   \<and> (\<forall>err. tokenTransfers env 1 = TransfersThrow err \<longrightarrow>
         getHoldersFromTokenTransfers env bn = sampleHolders)
   \<and> (\<forall>status transfers. tokenTransfers env 1 = TransfersReply status transfers
         \<and> status \<noteq> ''1'' \<longrightarrow> getHoldersFromTokenTransfers env bn = [])
   \<and> ((\<exists>n. pagesEnd n env bn opt []) \<and> (\<exists>n. pagesEnd n env bn (fallbackPageSize opt) [])
        \<longrightarrow> (\<exists>holders pageSize.
               getBAYCHoldersAtBlock env cache opt bn = Some (Inr holders, pageSize)))"
proof -
  have returns: "(\<exists>n. pagesEnd n env bn opt []) \<and> (\<exists>n. pagesEnd n env bn (fallbackPageSize opt) [])
        \<longrightarrow> (\<exists>holders pageSize.
               getBAYCHoldersAtBlock env cache opt bn = Some (Inr holders, pageSize))"
    using getBAYCHoldersAtBlock_returns by blast
  have never: "\<forall>err pageSize. getBAYCHoldersAtBlock env cache opt bn \<noteq> Some (Inl err, pageSize)"
    by (auto simp: getBAYCHoldersAtBlock_def split: option.splits sum.splits prod.splits)
  have caught: "\<forall>err pageSize. holdersTry env cache opt bn = Some (Inl err, pageSize) \<longrightarrow>
         getBAYCHoldersAtBlock env cache opt bn =
           Some (Inr (getHoldersFromTokenTransfers env bn), pageSize)"
    by (simp add: getBAYCHoldersAtBlock_def)
  have passed: "\<forall>holders pageSize. holdersTry env cache opt bn = Some (Inr holders, pageSize)
      \<longrightarrow> getBAYCHoldersAtBlock env cache opt bn = Some (Inr holders, pageSize)"
    by (simp add: getBAYCHoldersAtBlock_def)
  have sample: "\<forall>err. transferPages env bn 1 [] = Inl err \<longrightarrow>
         getHoldersFromTokenTransfers env bn = sampleHolders"
    by (simp add: getHoldersFromTokenTransfers_def)
  have thrown: "\<forall>err. tokenTransfers env 1 = TransfersThrow err \<longrightarrow>
         getHoldersFromTokenTransfers env bn = sampleHolders"
    by (simp add: getHoldersFromTokenTransfers_def transferPages.simps)
  have status: "\<forall>status transfers. tokenTransfers env 1 = TransfersReply status transfers
         \<and> status \<noteq> ''1'' \<longrightarrow> getHoldersFromTokenTransfers env bn = []"
    by (simp add: getHoldersFromTokenTransfers_def transferPages.simps)
  from never caught passed sample thrown status returns show ?thesis by blast
qed

theorem holders_builder_never_throws_witness:
  "holdersTry servicesDown emptyCache initialGraphQLBatchSize 14723000 =
     Some (Inl ''Network Error'', 7500)
   \<and> getBAYCHoldersAtBlock servicesDown emptyCache initialGraphQLBatchSize 14723000 =
     Some (Inr (getHoldersFromTokenTransfers servicesDown 14723000), 7500)
   \<and> getHoldersFromTokenTransfers servicesDown 14723000 = sampleHolders"
proof -
  have failed: "holdersTry servicesDown emptyCache initialGraphQLBatchSize 14723000 =
     Some (Inl ''Network Error'', 7500)"
    by (simp add: holdersTry_def emptyCache_def servicesDown_def builtTimestampIndex_def
        nearbyInTime_def nearbyInBlocks_def subgraphHolders_def firstAttempt_def
        fallbackPages.simps fallbackPageSize_def initialGraphQLBatchSize_def
        getSuggestedGraphQLBatchSize_def updateOptimalGraphQLBatchSize_def)
  have thrown: "tokenTransfers servicesDown 1 = TransfersThrow ''Network Error''"
    by (simp add: servicesDown_def)
  have ends: "pagesEnd 1 servicesDown 14723000 initialGraphQLBatchSize []"
    "pagesEnd 1 servicesDown 14723000 (fallbackPageSize initialGraphQLBatchSize) []"
    by (simp_all add: servicesDown_def)
  note inst = holders_builder_never_throws
    [of servicesDown emptyCache initialGraphQLBatchSize 14723000]
  from inst failed thrown ends show ?thesis by blast
qed

text \<open>
  C4 as stated fails: with the subgraph and Etherscan both unreachable no error is
  raised; the caller receives the five sample holders of the demo data.
\<close>

theorem holders_builder_synthetic_counterexample:
  "getBAYCHoldersAtBlock servicesDown emptyCache initialGraphQLBatchSize 14723000 =
     Some (Inr sampleHolders, 7500)"
  by (simp add: getBAYCHoldersAtBlock_def holdersTry_def emptyCache_def servicesDown_def
      builtTimestampIndex_def nearbyInTime_def nearbyInBlocks_def subgraphHolders_def
      firstAttempt_def fallbackPages.simps fallbackPageSize_def initialGraphQLBatchSize_def
      getSuggestedGraphQLBatchSize_def updateOptimalGraphQLBatchSize_def
      getHoldersFromTokenTransfers_def transferPages.simps)

lemma subgraphHolders_page_size:
  "subgraphHolders env opt bn = Some (outcome, pageSize) \<Longrightarrow>
   pageSize = afterFetch FirstAttemptOk opt \<or> pageSize = afterFetch SecondAttemptOk opt
   \<or> pageSize = afterFetch BothAttemptsFailed opt"
  by (auto simp: subgraphHolders_def afterFetch_def Let_def
      split: option.splits sum.splits)


subsection \<open>Balance aggregator\<close>

lemma replicate_numeral: "replicate (numeral k) x = x # replicate (pred_numeral k) x"
  by (simp add: numeral_eq_Suc)

lemmas balance_defs = getEthBalancesgraph_def aggregateBalances_def slices.simps chunkSize_def
  zeroBalances_def aggregateWithRetries.simps maxRetries_def balanceCall_def padStart_def
  storeChunkResults_def decodedBalance_def BigNumber_from_def unsignedFrom_def numeralValue_def
  digitValue_def isDigit_def isHexDigit_def arrayWrite_def graph_ADDRESS_def
  getFallbackBalances_def batchSize_def batchResults_def balanceOrZero_def replicate_numeral
  answeringContract_def unreachableContract_def holderA_def holderB_def

lemma foldl_sum_balances:
  "foldl (\<lambda>sum balance. case balance of Some b \<Rightarrow> sum + b | None \<Rightarrow> sum) a balances =
     a + (\<Sum>balance\<leftarrow>balances. case balance of Some b \<Rightarrow> b | None \<Rightarrow> (0::int))"
  by (induction balances arbitrary: a) (auto split: option.splits)

lemma length_arrayWrite_in_range: "i < length xs \<Longrightarrow> length (arrayWrite xs i v) = length xs"
  by (simp add: arrayWrite_def)

lemma nth_arrayWrite_in_range:
  "i < length xs \<Longrightarrow> p < length xs \<Longrightarrow>
   arrayWrite xs i v ! p = (if p = i then Some v else xs ! p)"
  by (simp add: arrayWrite_def)

lemma store_prefix:
  "n \<le> length rs \<Longrightarrow> off + length rs \<le> length bal \<Longrightarrow>
   length (foldl (\<lambda>balances j.
              (case decodedBalance (rs ! j) of
                 Some balance \<Rightarrow> arrayWrite balances (off + j) balance
               | None \<Rightarrow> balances)) bal [0..<n]) = length bal
   \<and> (\<forall>p<length bal.
        foldl (\<lambda>balances j.
              (case decodedBalance (rs ! j) of
                 Some balance \<Rightarrow> arrayWrite balances (off + j) balance
               | None \<Rightarrow> balances)) bal [0..<n] ! p = storedUpTo off rs bal n p)"
proof (induction n)
  case 0
  then show ?case by (auto simp: storedUpTo_def)
next
  case (Suc n)
  let ?f = "\<lambda>balances j.
              (case decodedBalance (rs ! j) of
                 Some balance \<Rightarrow> arrayWrite balances (off + j) balance
               | None \<Rightarrow> balances)"
  let ?prev = "foldl ?f bal [0..<n]"
  have IH: "length ?prev = length bal" "\<forall>p<length bal. ?prev ! p = storedUpTo off rs bal n p"
    using Suc by simp_all
  have step: "foldl ?f bal [0..<Suc n] = ?f ?prev n" by simp
  have inr: "off + n < length ?prev" using Suc.prems IH(1) by simp
  show ?case
  proof (cases "decodedBalance (rs ! n)")
    case None
    then have same: "foldl ?f bal [0..<Suc n] = ?prev" using step by simp
    have "\<forall>p<length bal. storedUpTo off rs bal (Suc n) p = storedUpTo off rs bal n p"
      using None by (auto simp: storedUpTo_def less_Suc_eq)
    then show ?thesis using same IH by simp
  next
    case (Some b)
    then have wr: "foldl ?f bal [0..<Suc n] = arrayWrite ?prev (off + n) b" using step by simp
    have len: "length (arrayWrite ?prev (off + n) b) = length bal"
      using inr IH(1) by (simp add: length_arrayWrite_in_range)
    have "\<forall>p<length bal. arrayWrite ?prev (off + n) b ! p = storedUpTo off rs bal (Suc n) p"
    proof (intro allI impI)
      fix p assume p: "p < length bal"
      show "arrayWrite ?prev (off + n) b ! p = storedUpTo off rs bal (Suc n) p"
      proof (cases "p = off + n")
        case True
        then show ?thesis using inr p IH(1) Some
          by (simp add: nth_arrayWrite_in_range storedUpTo_def)
      next
        case False
        then have "arrayWrite ?prev (off + n) b ! p = storedUpTo off rs bal n p"
          using inr p IH by (simp add: nth_arrayWrite_in_range)
        also have "\<dots> = storedUpTo off rs bal (Suc n) p"
          using False by (auto simp: storedUpTo_def less_Suc_eq)
        finally show ?thesis .
      qed
    qed
    with wr len show ?thesis by simp
  qed
qed

lemma storeChunkResults_in_range:
  assumes "off + length rs \<le> length bal"
  shows "length (storeChunkResults off rs bal) = length bal"
    and "p < length bal \<Longrightarrow> storeChunkResults off rs bal ! p = storedUpTo off rs bal (length rs) p"
  using store_prefix [of "length rs" rs off bal] assms
  by (simp_all add: storeChunkResults_def)

lemma aggregateWithRetries_answer:
  "aggregateWithRetries env k calls bn retries = Inr rs \<Longrightarrow>
   \<exists>attempt. aggregate3 env k attempt calls bn = AggregateReturns rs"
proof (induction env k calls bn retries rule: aggregateWithRetries.induct)
  case (1 env k calls bn retries)
  show ?case
  proof (cases "aggregate3 env k retries calls bn")
    case (AggregateReturns chunkResults)
    with "1.prems" have "chunkResults = rs"
      by (subst (asm) aggregateWithRetries.simps) (simp split: if_splits)
    with AggregateReturns show ?thesis by blast
  next
    case (AggregateThrows err)
    with "1.prems" have le: "retries \<le> maxRetries" and nlast: "\<not> retries + 1 > maxRetries"
      and rec: "aggregateWithRetries env k calls bn (retries + 1) = Inr rs"
      by (subst (asm) aggregateWithRetries.simps; simp split: if_splits)+
    from "1.IH" [OF le AggregateThrows nlast rec] show ?thesis .
  qed
qed

lemma chunk_position:
  assumes "0 < (S::nat)" "k * S \<le> p" "p < (k + 1) * S"
  shows "p div S = k" "p mod S = p - k * S"
proof -
  show d: "p div S = k"
    using assms by (intro div_nat_eqI) (simp_all add: mult.commute)
  show "p mod S = p - k * S"
    using d by (metis minus_div_mult_eq_mod)
qed

lemma processChunks_slices:
  "ys = drop (k * chunkSize) xs \<Longrightarrow> length bal = length xs \<Longrightarrow>
   processChunks env bn k (slices chunkSize ys) bal = Inr bal' \<Longrightarrow>
   (\<forall>i attempt calls rs. aggregate3 env i attempt calls bn = AggregateReturns rs
        \<longrightarrow> length rs \<le> length calls) \<Longrightarrow>
   length bal' = length xs \<and>
   (\<forall>p<length xs. bal' ! p = (if k * chunkSize \<le> p then mergedEntry env bn xs bal p else bal ! p))"
proof (induction "length ys" arbitrary: ys k bal rule: less_induct)
  case less
  note ys = less.prems(1) and len = less.prems(2) and run = less.prems(3) and H = less.prems(4)
  have S: "0 < chunkSize" by (simp add: chunkSize_def)
  show ?case
  proof (cases "ys = []")
    case True
    then have "bal' = bal" using run by (simp add: slices.simps)
    moreover have "length xs \<le> k * chunkSize" using True ys by simp
    ultimately show ?thesis using len by auto
  next
    case False
    define chunk where "chunk = take chunkSize ys"
    have sl: "slices chunkSize ys = chunk # slices chunkSize (drop chunkSize ys)"
      using False S by (subst slices.simps) (simp add: chunk_def)
    have chunk_eq: "chunk = take chunkSize (drop (k * chunkSize) xs)"
      by (simp add: chunk_def ys)
    obtain rs where ans: "chunkAnswer env bn xs k = Inr rs"
      and rest: "processChunks env bn (k + 1) (slices chunkSize (drop chunkSize ys))
                   (storeChunkResults (k * chunkSize) rs bal) = Inr bal'"
      using run unfolding sl
      by (auto simp: chunkAnswer_def chunk_eq split: sum.splits)
    have "\<exists>attempt. aggregate3 env k attempt (map (balanceCall env) chunk) bn = AggregateReturns rs"
      using aggregateWithRetries_answer ans by (simp add: chunkAnswer_def chunk_eq)
    then have rs_len: "length rs \<le> length chunk" using H by fastforce
    have chunk_len: "length chunk \<le> chunkSize" "k * chunkSize + length chunk \<le> length xs"
      using False ys by (auto simp: chunk_def)
    define bal1 where "bal1 = storeChunkResults (k * chunkSize) rs bal"
    have inr: "k * chunkSize + length rs \<le> length bal" using rs_len chunk_len len by simp
    have len1: "length bal1 = length xs"
      using storeChunkResults_in_range(1) [OF inr] len by (simp add: bal1_def)
    have nth1: "\<And>p. p < length xs \<Longrightarrow> bal1 ! p = storedUpTo (k * chunkSize) rs bal (length rs) p"
      using storeChunkResults_in_range(2) [OF inr] len by (simp add: bal1_def)
    have smaller: "length (drop chunkSize ys) < length ys" using False S by simp
    have ys': "drop chunkSize ys = drop ((k + 1) * chunkSize) xs"
      by (simp add: ys add.commute)
    have IH: "length bal' = length xs \<and>
       (\<forall>p<length xs. bal' ! p =
          (if (k + 1) * chunkSize \<le> p then mergedEntry env bn xs bal1 p else bal1 ! p))"
      using less.hyps [OF smaller ys' len1 _ H] rest by (simp add: bal1_def)
    have "\<forall>p<length xs. bal' ! p =
        (if k * chunkSize \<le> p then mergedEntry env bn xs bal p else bal ! p)"
    proof (intro allI impI)
      fix p assume p: "p < length xs"
      consider (before) "p < k * chunkSize"
        | (inside) "k * chunkSize \<le> p" "p < (k + 1) * chunkSize"
        | (after) "(k + 1) * chunkSize \<le> p" by linarith
      then show "bal' ! p = (if k * chunkSize \<le> p then mergedEntry env bn xs bal p else bal ! p)"
      proof cases
        case before
        then have "bal' ! p = bal1 ! p" using IH p by simp
        also have "\<dots> = bal ! p" using nth1 [OF p] before by (simp add: storedUpTo_def)
        finally show ?thesis using before by simp
      next
        case inside
        have pos: "p div chunkSize = k" "p mod chunkSize = p - k * chunkSize"
          using chunk_position [OF S inside] .
        have "bal' ! p = bal1 ! p" using IH p inside by simp
        also have "\<dots> = storedUpTo (k * chunkSize) rs bal (length rs) p" using nth1 [OF p] .
        also have "\<dots> = mergedEntry env bn xs bal p"
          using inside pos ans by (auto simp: storedUpTo_def mergedEntry_def)
        finally show ?thesis using inside by simp
      next
        case after
        have same: "bal1 ! p = bal ! p"
          using nth1 [OF p] after rs_len chunk_len by (simp add: storedUpTo_def)
        have "bal' ! p = mergedEntry env bn xs bal1 p" using IH p after by simp
        also have "\<dots> = mergedEntry env bn xs bal p" using same by (simp add: mergedEntry_def split: sum.splits option.splits)
        finally show ?thesis using after by simp
      qed
    qed
    with IH show ?thesis by simp
  qed
qed


lemma batchResults_zip:
  "batchResults env bn s addrs =
     zip [s..<s + length addrs] (map (balanceOrZero env bn) addrs)"
  by (rule nth_equalityI) (simp_all add: batchResults_def)

lemma store_zip:
  "length pre = s \<Longrightarrow> length vs \<le> length rest \<Longrightarrow>
   foldl (\<lambda>balances result. arrayWrite balances (fst result) (snd result)) (pre @ rest)
     (zip [s..<s + length vs] vs) = pre @ map Some vs @ drop (length vs) rest"
proof (induction vs arbitrary: pre s rest)
  case Nil
  then show ?case by simp
next
  case (Cons v vs)
  from Cons.prems obtain r rest' where rest: "rest = r # rest'" by (cases rest) auto
  have upt: "[s..<s + length (v # vs)] = s # [Suc s..<Suc s + length vs]"
  proof -
    have "s < s + length (v # vs)" by simp
    then have "[s..<s + length (v # vs)] = s # [Suc s..<s + length (v # vs)]"
      by (rule upt_conv_Cons)
    then show ?thesis by simp
  qed
  have wr: "arrayWrite (pre @ rest) s v = (pre @ [Some v]) @ rest'"
    using Cons.prems(1) by (auto simp: arrayWrite_def rest list_update_append)
  have "foldl (\<lambda>balances result. arrayWrite balances (fst result) (snd result)) (pre @ rest)
     (zip [s..<s + length (v # vs)] (v # vs)) =
     foldl (\<lambda>balances result. arrayWrite balances (fst result) (snd result))
       ((pre @ [Some v]) @ rest') (zip [Suc s..<Suc s + length vs] vs)"
    unfolding upt using wr by simp
  also have "\<dots> = (pre @ [Some v]) @ map Some vs @ drop (length vs) rest'"
    using Cons.prems by (intro Cons.IH) (simp_all add: rest)
  finally show ?case by (simp add: rest)
qed

lemma fallbackBatches_slices:
  "length pre = s \<Longrightarrow>
   fallbackBatches env bn s (slices batchSize ys) (pre @ zeroBalances (length ys)) =
     pre @ map (\<lambda>a. Some (balanceOrZero env bn a)) ys"
proof (induction "length ys" arbitrary: ys pre s rule: less_induct)
  case less
  have B: "0 < batchSize" by (simp add: batchSize_def)
  show ?case
  proof (cases "ys = []")
    case True
    then show ?thesis by (simp add: slices.simps zeroBalances_def)
  next
    case False
    define batch where "batch = take batchSize ys"
    define others where "others = drop batchSize ys"
    have sl: "slices batchSize ys = batch # slices batchSize others"
      using False B by (subst slices.simps) (simp add: batch_def others_def)
    have ys: "ys = batch @ others" by (simp add: batch_def others_def)
    have stored: "foldl (\<lambda>balances result. arrayWrite balances (fst result) (snd result))
        (pre @ zeroBalances (length ys)) (batchResults env bn s batch) =
        (pre @ map (\<lambda>a. Some (balanceOrZero env bn a)) batch) @ zeroBalances (length others)"
    proof -
      have "length (map (balanceOrZero env bn) batch) \<le> length (zeroBalances (length ys))"
        by (simp add: zeroBalances_def batch_def)
      from store_zip [OF less.prems this]
      show ?thesis
        by (simp add: batchResults_zip zeroBalances_def batch_def others_def comp_def)
    qed
    show ?thesis
    proof (cases "others = []")
      case True
      then show ?thesis
        unfolding sl using stored ys by (simp add: slices.simps zeroBalances_def)
    next
      case nonempty: False
      then have full: "length batch = batchSize" by (auto simp: batch_def others_def)
      have smaller: "length others < length ys" using False B by (simp add: others_def)
      have len: "length (pre @ map (\<lambda>a. Some (balanceOrZero env bn a)) batch) = s + batchSize"
        using less.prems full by simp
      have "fallbackBatches env bn s (slices batchSize ys) (pre @ zeroBalances (length ys)) =
          fallbackBatches env bn (s + batchSize) (slices batchSize others)
            ((pre @ map (\<lambda>a. Some (balanceOrZero env bn a)) batch) @ zeroBalances (length others))"
        unfolding sl using stored by simp
      also have "\<dots> = (pre @ map (\<lambda>a. Some (balanceOrZero env bn a)) batch)
            @ map (\<lambda>a. Some (balanceOrZero env bn a)) others"
        using less.hyps [OF smaller len] .
      finally show ?thesis by (simp add: ys)
    qed
  qed
qed

lemma getFallbackBalances_map:
  "getFallbackBalances env addresses bn = map (\<lambda>a. Some (balanceOrZero env bn a)) addresses"
  using fallbackBatches_slices [of "[]" 0 env bn addresses]
  by (simp add: getFallbackBalances_def)


lemma aggregateBalances_expected:
  assumes run: "aggregateBalances env addresses bn = Inr balances"
    and answers: "\<forall>i attempt calls rs. aggregate3 env i attempt calls bn = AggregateReturns rs
        \<longrightarrow> length rs \<le> length calls"
  shows "balances = map (\<lambda>p. Some (expectedBalance env bn addresses p)) [0..<length addresses]"
proof -
  have run': "processChunks env bn 0 (slices chunkSize (drop (0 * chunkSize) addresses))
      (zeroBalances (length addresses)) = Inr balances"
    using run by (simp add: aggregateBalances_def)
  have len0: "length (zeroBalances (length addresses)) = length addresses"
    by (simp add: zeroBalances_def)
  have pc: "length balances = length addresses \<and>
      (\<forall>p<length addresses. balances ! p =
         (if 0 * chunkSize \<le> p
          then mergedEntry env bn addresses (zeroBalances (length addresses)) p
          else zeroBalances (length addresses) ! p))"
    using processChunks_slices [OF refl len0 run' answers] .
  show ?thesis
  proof (rule nth_equalityI)
    show "length balances =
        length (map (\<lambda>p. Some (expectedBalance env bn addresses p)) [0..<length addresses])"
      using pc by simp
  next
    fix p assume "p < length balances"
    then have p: "p < length addresses" using pc by simp
    then have "balances ! p = mergedEntry env bn addresses (zeroBalances (length addresses)) p"
      using pc by simp
    also have "\<dots> = Some (expectedBalance env bn addresses p)"
      using p by (simp add: mergedEntry_def expectedBalance_def zeroBalances_def
          split: sum.splits option.splits)
    finally show "balances ! p =
        map (\<lambda>p. Some (expectedBalance env bn addresses p)) [0..<length addresses] ! p"
      using p by simp
  qed
qed

lemma sumBalances_exact:
  "sumBalances bs = (\<Sum>balance\<leftarrow>bs. case balance of Some b \<Rightarrow> b | None \<Rightarrow> 0)"
  by (simp add: sumBalances_def foldl_sum_balances)

lemma processChunks_returns:
  "ys = drop (k * chunkSize) xs \<Longrightarrow>
   (\<exists>bal'. processChunks env bn k (slices chunkSize ys) bal = Inr bal') =
   (\<forall>i. k \<le> i \<and> i * chunkSize < length xs \<longrightarrow> (\<exists>rs. chunkAnswer env bn xs i = Inr rs))"
proof (induction "length ys" arbitrary: ys k bal rule: less_induct)
  case less
  note ys = less.prems(1)
  have S: "0 < chunkSize" by (simp add: chunkSize_def)
  show ?case
  proof (cases "ys = []")
    case True
    then have finished: "processChunks env bn k (slices chunkSize ys) bal = Inr bal"
      by (simp add: slices.simps)
    have short: "length xs \<le> k * chunkSize" using True ys by simp
    have "\<forall>i. k \<le> i \<longrightarrow> \<not> i * chunkSize < length xs"
    proof (intro allI impI)
      fix i assume "k \<le> i"
      then have "k * chunkSize \<le> i * chunkSize" by (rule mult_le_mono1)
      with short show "\<not> i * chunkSize < length xs" by linarith
    qed
    with finished show ?thesis by auto
  next
    case False
    define chunk where "chunk = take chunkSize ys"
    have sl: "slices chunkSize ys = chunk # slices chunkSize (drop chunkSize ys)"
      using False S by (subst slices.simps) (simp add: chunk_def)
    have chunk_eq: "chunk = take chunkSize (drop (k * chunkSize) xs)"
      by (simp add: chunk_def ys)
    have here: "k * chunkSize < length xs" using False ys by simp
    have smaller: "length (drop chunkSize ys) < length ys" using False S by simp
    have ys': "drop chunkSize ys = drop ((k + 1) * chunkSize) xs"
      by (simp add: ys add.commute)
    show ?thesis
    proof (cases "chunkAnswer env bn xs k")
      case (Inl err)
      then have "processChunks env bn k (slices chunkSize ys) bal = Inl err"
        unfolding sl by (simp add: chunkAnswer_def chunk_eq)
      moreover have "\<not> (\<forall>i. k \<le> i \<and> i * chunkSize < length xs \<longrightarrow>
          (\<exists>rs. chunkAnswer env bn xs i = Inr rs))"
        using Inl here by auto
      ultimately show ?thesis by simp
    next
      case (Inr rs)
      then have step: "processChunks env bn k (slices chunkSize ys) bal =
          processChunks env bn (k + 1) (slices chunkSize (drop chunkSize ys))
            (storeChunkResults (k * chunkSize) rs bal)"
        unfolding sl by (simp add: chunkAnswer_def chunk_eq)
      have IH: "(\<exists>bal'. processChunks env bn (k + 1) (slices chunkSize (drop chunkSize ys))
            (storeChunkResults (k * chunkSize) rs bal) = Inr bal') =
          (\<forall>i. k + 1 \<le> i \<and> i * chunkSize < length xs \<longrightarrow>
             (\<exists>rs. chunkAnswer env bn xs i = Inr rs))"
        using less.hyps [OF smaller ys'] .
      have "(\<forall>i. k + 1 \<le> i \<and> i * chunkSize < length xs \<longrightarrow>
             (\<exists>rs. chunkAnswer env bn xs i = Inr rs)) =
          (\<forall>i. k \<le> i \<and> i * chunkSize < length xs \<longrightarrow>
             (\<exists>rs. chunkAnswer env bn xs i = Inr rs))"
      proof
        assume later: "\<forall>i. k + 1 \<le> i \<and> i * chunkSize < length xs \<longrightarrow>
             (\<exists>rs. chunkAnswer env bn xs i = Inr rs)"
        show "\<forall>i. k \<le> i \<and> i * chunkSize < length xs \<longrightarrow>
             (\<exists>rs. chunkAnswer env bn xs i = Inr rs)"
        proof (intro allI impI)
          fix i assume i: "k \<le> i \<and> i * chunkSize < length xs"
          show "\<exists>rs. chunkAnswer env bn xs i = Inr rs"
          proof (cases "i = k")
            case True
            with Inr show ?thesis by simp
          next
            case False
            with i have "k + 1 \<le> i" by simp
            with later i show ?thesis by blast
          qed
        qed
      next
        assume "\<forall>i. k \<le> i \<and> i * chunkSize < length xs \<longrightarrow>
             (\<exists>rs. chunkAnswer env bn xs i = Inr rs)"
        then show "\<forall>i. k + 1 \<le> i \<and> i * chunkSize < length xs \<longrightarrow>
             (\<exists>rs. chunkAnswer env bn xs i = Inr rs)" by simp
      qed
      with IH step show ?thesis by simp
    qed
  qed
qed

lemma aggregateBalances_returns:
  "(\<exists>balances. aggregateBalances env addresses bn = Inr balances) =
   (\<forall>i. i * chunkSize < length addresses \<longrightarrow> (\<exists>rs. chunkAnswer env bn addresses i = Inr rs))"
  using processChunks_returns [of addresses 0 addresses env bn "zeroBalances (length addresses)"]
  by (simp add: aggregateBalances_def)

lemma aggregateWithRetries_first_answer:
  "aggregate3 env k 0 calls bn = AggregateReturns rs \<Longrightarrow>
   aggregateWithRetries env k calls bn 0 = Inr rs"
  by (subst aggregateWithRetries.simps) simp

lemma storeChunkResults_entries:
  assumes "off + length rs \<le> n"
  shows "length (storeChunkResults off rs (zeroBalances n)) = n"
    and "p < n \<Longrightarrow> storeChunkResults off rs (zeroBalances n) ! p =
      (if off \<le> p \<and> p < off + length rs
       then (case decodedBalance (rs ! (p - off)) of Some b \<Rightarrow> Some b | None \<Rightarrow> Some 0)
       else Some 0)"
proof -
  have range: "off + length rs \<le> length (zeroBalances n)" using assms by (simp add: zeroBalances_def)
  show "length (storeChunkResults off rs (zeroBalances n)) = n"
    using storeChunkResults_in_range(1) [OF range] by (simp add: zeroBalances_def)
  assume p: "p < n"
  then have p': "p < length (zeroBalances n)" by (simp add: zeroBalances_def)
  show "storeChunkResults off rs (zeroBalances n) ! p =
      (if off \<le> p \<and> p < off + length rs
       then (case decodedBalance (rs ! (p - off)) of Some b \<Rightarrow> Some b | None \<Rightarrow> Some 0)
       else Some 0)"
    using storeChunkResults_in_range(2) [OF range p'] p
    by (simp add: storedUpTo_def zeroBalances_def split: option.splits)
qed


lemma aggregateWithRetries_fails:
  "(\<exists>err. aggregateWithRetries env k calls bn 0 = Inl err) =
   (\<forall>attempt\<le>maxRetries. \<exists>err. aggregate3 env k attempt calls bn = AggregateThrows err)"
proof -
  have all: "(\<forall>attempt\<le>maxRetries. \<exists>err. aggregate3 env k attempt calls bn = AggregateThrows err) =
      ((\<exists>err. aggregate3 env k 0 calls bn = AggregateThrows err)
       \<and> (\<exists>err. aggregate3 env k (Suc 0) calls bn = AggregateThrows err)
       \<and> (\<exists>err. aggregate3 env k (Suc (Suc 0)) calls bn = AggregateThrows err)
       \<and> (\<exists>err. aggregate3 env k (Suc (Suc (Suc 0))) calls bn = AggregateThrows err))"
  proof -
    have "\<And>P. (\<forall>a\<le>(3::nat). P a) = (P 0 \<and> P (Suc 0) \<and> P (Suc (Suc 0)) \<and> P (Suc (Suc (Suc 0))))"
    proof -
      fix P :: "nat \<Rightarrow> bool"
      have "\<And>a. (a \<le> (3::nat)) =
          (a = 0 \<or> a = Suc 0 \<or> a = Suc (Suc 0) \<or> a = Suc (Suc (Suc 0)))" by auto
      then show "(\<forall>a\<le>(3::nat). P a) =
          (P 0 \<and> P (Suc 0) \<and> P (Suc (Suc 0)) \<and> P (Suc (Suc (Suc 0))))" by auto
    qed
    then show ?thesis by (simp add: maxRetries_def)
  qed
  have run: "(\<exists>err. aggregateWithRetries env k calls bn 0 = Inl err) =
      ((\<exists>err. aggregate3 env k 0 calls bn = AggregateThrows err)
       \<and> (\<exists>err. aggregate3 env k (Suc 0) calls bn = AggregateThrows err)
       \<and> (\<exists>err. aggregate3 env k (Suc (Suc 0)) calls bn = AggregateThrows err)
       \<and> (\<exists>err. aggregate3 env k (Suc (Suc (Suc 0))) calls bn = AggregateThrows err))"
    by (auto simp: aggregateWithRetries.simps maxRetries_def split: aggregate_reply.splits)
  from all run show ?thesis by simp
qed

lemma expectedBalance_entry:
  "chunkAnswer env bn addresses (p div chunkSize) = Inr rs \<Longrightarrow> p mod chunkSize < length rs \<Longrightarrow>
   expectedBalance env bn addresses p =
     (case decodedBalance (rs ! (p mod chunkSize)) of Some b \<Rightarrow> b | None \<Rightarrow> 0)"
  by (simp add: expectedBalance_def)

text \<open>
  C6. With the contract available (the module variable is set, as it is once the
  module has loaded, or \<open>initGraph()\<close> succeeds), \<open>getEthBalancesgraph\<close> always
  returns an array: when the aggregate path throws, the array is the one of the
  individual queries. Storing a chunk's answer cannot fail and keeps the length of the
  array; every position of the chunk holds the balance its own entry decodes to, and
  the zero the array was filled with when that entry is flagged as failed or does not
  decode, whatever the flags of the other entries. The aggregate path returns its
  array exactly when the retry loop of every chunk obtained an answer, which it does
  when the first attempt answers and fails to do only when four attempts in a row
  throw; then, when no answer is longer than its calls, the
  array holds at position \<open>p\<close> the balance decoded from entry \<open>p mod 5000\<close> of the
  answer to chunk \<open>p div 5000\<close>, a failed entry counting zero in the total.
\<close>

theorem balance_aggregation_never_fails:
  "(graphContract \<or> initGraphSucceeds env \<longrightarrow>
      (\<exists>balances. getEthBalancesgraph env graphContract addresses blockTag = Inr balances))
   \<and> (\<forall>err. (graphContract \<or> initGraphSucceeds env)
         \<and> aggregateBalances env addresses blockTag = Inl err \<longrightarrow>
         getEthBalancesgraph env graphContract addresses blockTag =
           Inr (getFallbackBalances env addresses blockTag))
   \<and> (chunkOffset + length chunkResults \<le> n \<longrightarrow>
         length (storeChunkResults chunkOffset chunkResults (zeroBalances n)) = n
         \<and> (\<forall>j<length chunkResults. \<not> success (chunkResults ! j) \<longrightarrow>
               storeChunkResults chunkOffset chunkResults (zeroBalances n) ! (chunkOffset + j)
                 = Some 0))
   \<and> (chunkOffset + length chunkResults \<le> n \<longrightarrow>
         (\<forall>p<n. storeChunkResults chunkOffset chunkResults (zeroBalances n) ! p =
            (if chunkOffset \<le> p \<and> p < chunkOffset + length chunkResults
             then (case decodedBalance (chunkResults ! (p - chunkOffset)) of
                     Some balance \<Rightarrow> Some balance | None \<Rightarrow> Some 0)
             else Some 0)))
   \<and> ((\<exists>balances. aggregateBalances env addresses blockTag = Inr balances) =
        (\<forall>i. i * chunkSize < length addresses \<longrightarrow>
             (\<exists>rs. chunkAnswer env blockTag addresses i = Inr rs)))
   \<and> (\<forall>i rs. aggregate3 env i 0
                (map (balanceCall env) (take chunkSize (drop (i * chunkSize) addresses)))
                blockTag = AggregateReturns rs \<longrightarrow>
         chunkAnswer env blockTag addresses i = Inr rs)
   \<and> ((graphContract \<or> initGraphSucceeds env)
        \<and> (\<forall>i. i * chunkSize < length addresses \<longrightarrow>
               (\<exists>rs. chunkAnswer env blockTag addresses i = Inr rs))
        \<and> (\<forall>i attempt calls rs.
               aggregate3 env i attempt calls blockTag = AggregateReturns rs
                 \<longrightarrow> length rs \<le> length calls) \<longrightarrow>
        getEthBalancesgraph env graphContract addresses blockTag =
          Inr (map (\<lambda>p. Some (expectedBalance env blockTag addresses p)) [0..<length addresses])
        \<and> sumBalances
            (map (\<lambda>p. Some (expectedBalance env blockTag addresses p)) [0..<length addresses]) =
          (\<Sum>p\<leftarrow>[0..<length addresses]. expectedBalance env blockTag addresses p))
   \<and> (\<forall>p rs. chunkAnswer env blockTag addresses (p div chunkSize) = Inr rs
         \<and> p mod chunkSize < length rs \<longrightarrow>
         expectedBalance env blockTag addresses p =
           (case decodedBalance (rs ! (p mod chunkSize)) of Some balance \<Rightarrow> balance | None \<Rightarrow> 0))
   \<and> (\<forall>result. \<not> success result \<longrightarrow> decodedBalance result = None)
   \<and> (\<forall>i. (\<exists>err. chunkAnswer env blockTag addresses i = Inl err) =
         (\<forall>attempt\<le>maxRetries. \<exists>err.
            aggregate3 env i attempt
              (map (balanceCall env) (take chunkSize (drop (i * chunkSize) addresses)))
              blockTag = AggregateThrows err))"
proof -
  have retried: "\<forall>i. (\<exists>err. chunkAnswer env blockTag addresses i = Inl err) =
         (\<forall>attempt\<le>maxRetries. \<exists>err.
            aggregate3 env i attempt
              (map (balanceCall env) (take chunkSize (drop (i * chunkSize) addresses)))
              blockTag = AggregateThrows err)"
    by (simp add: chunkAnswer_def aggregateWithRetries_fails)
  have total: "graphContract \<or> initGraphSucceeds env \<longrightarrow>
      (\<exists>balances. getEthBalancesgraph env graphContract addresses blockTag = Inr balances)"
    by (auto simp: getEthBalancesgraph_def split: sum.splits)
  have degrade: "\<forall>err. (graphContract \<or> initGraphSucceeds env)
         \<and> aggregateBalances env addresses blockTag = Inl err \<longrightarrow>
         getEthBalancesgraph env graphContract addresses blockTag =
           Inr (getFallbackBalances env addresses blockTag)"
    by (auto simp: getEthBalancesgraph_def)
  have entries: "chunkOffset + length chunkResults \<le> n \<longrightarrow>
         (\<forall>p<n. storeChunkResults chunkOffset chunkResults (zeroBalances n) ! p =
            (if chunkOffset \<le> p \<and> p < chunkOffset + length chunkResults
             then (case decodedBalance (chunkResults ! (p - chunkOffset)) of
                     Some balance \<Rightarrow> Some balance | None \<Rightarrow> Some 0)
             else Some 0))"
    using storeChunkResults_entries(2) by blast
  have flags: "\<forall>result. \<not> success result \<longrightarrow> decodedBalance result = None"
    by (simp add: decodedBalance_def)
  have store: "chunkOffset + length chunkResults \<le> n \<longrightarrow>
         length (storeChunkResults chunkOffset chunkResults (zeroBalances n)) = n
         \<and> (\<forall>j<length chunkResults. \<not> success (chunkResults ! j) \<longrightarrow>
               storeChunkResults chunkOffset chunkResults (zeroBalances n) ! (chunkOffset + j)
                 = Some 0)"
  proof
    assume range: "chunkOffset + length chunkResults \<le> n"
    have len: "length (storeChunkResults chunkOffset chunkResults (zeroBalances n)) = n"
      using storeChunkResults_entries(1) [OF range] .
    have "\<forall>j<length chunkResults. \<not> success (chunkResults ! j) \<longrightarrow>
        storeChunkResults chunkOffset chunkResults (zeroBalances n) ! (chunkOffset + j) = Some 0"
    proof (intro allI impI)
      fix j assume j: "j < length chunkResults" and failed: "\<not> success (chunkResults ! j)"
      have p: "chunkOffset + j < n" using j range by simp
      have "decodedBalance (chunkResults ! j) = None" using failed flags by blast
      then show "storeChunkResults chunkOffset chunkResults (zeroBalances n) ! (chunkOffset + j)
          = Some 0"
        using storeChunkResults_entries(2) [OF range p] j by simp
    qed
    with len show "length (storeChunkResults chunkOffset chunkResults (zeroBalances n)) = n
         \<and> (\<forall>j<length chunkResults. \<not> success (chunkResults ! j) \<longrightarrow>
               storeChunkResults chunkOffset chunkResults (zeroBalances n) ! (chunkOffset + j)
                 = Some 0)" by blast
  qed
  have returns: "(\<exists>balances. aggregateBalances env addresses blockTag = Inr balances) =
        (\<forall>i. i * chunkSize < length addresses \<longrightarrow>
             (\<exists>rs. chunkAnswer env blockTag addresses i = Inr rs))"
    by (rule aggregateBalances_returns)
  have first: "\<forall>i rs. aggregate3 env i 0
                (map (balanceCall env) (take chunkSize (drop (i * chunkSize) addresses)))
                blockTag = AggregateReturns rs \<longrightarrow>
         chunkAnswer env blockTag addresses i = Inr rs"
    by (simp add: chunkAnswer_def aggregateWithRetries_first_answer)
  have array: "(graphContract \<or> initGraphSucceeds env)
        \<and> (\<forall>i. i * chunkSize < length addresses \<longrightarrow>
               (\<exists>rs. chunkAnswer env blockTag addresses i = Inr rs))
        \<and> (\<forall>i attempt calls rs.
               aggregate3 env i attempt calls blockTag = AggregateReturns rs
                 \<longrightarrow> length rs \<le> length calls) \<longrightarrow>
        getEthBalancesgraph env graphContract addresses blockTag =
          Inr (map (\<lambda>p. Some (expectedBalance env blockTag addresses p)) [0..<length addresses])
        \<and> sumBalances
            (map (\<lambda>p. Some (expectedBalance env blockTag addresses p)) [0..<length addresses]) =
          (\<Sum>p\<leftarrow>[0..<length addresses]. expectedBalance env blockTag addresses p)"
  proof
    assume a: "(graphContract \<or> initGraphSucceeds env)
        \<and> (\<forall>i. i * chunkSize < length addresses \<longrightarrow>
               (\<exists>rs. chunkAnswer env blockTag addresses i = Inr rs))
        \<and> (\<forall>i attempt calls rs.
               aggregate3 env i attempt calls blockTag = AggregateReturns rs
                 \<longrightarrow> length rs \<le> length calls)"
    then obtain balances where run: "aggregateBalances env addresses blockTag = Inr balances"
      using returns by blast
    have answers: "\<forall>i attempt calls rs.
               aggregate3 env i attempt calls blockTag = AggregateReturns rs
                 \<longrightarrow> length rs \<le> length calls" using a by blast
    have "balances =
        map (\<lambda>p. Some (expectedBalance env blockTag addresses p)) [0..<length addresses]"
      using aggregateBalances_expected [OF run answers] .
    with run a have res: "getEthBalancesgraph env graphContract addresses blockTag =
          Inr (map (\<lambda>p. Some (expectedBalance env blockTag addresses p)) [0..<length addresses])"
      by (auto simp: getEthBalancesgraph_def)
    have "sumBalances
            (map (\<lambda>p. Some (expectedBalance env blockTag addresses p)) [0..<length addresses]) =
          (\<Sum>p\<leftarrow>[0..<length addresses]. expectedBalance env blockTag addresses p)"
      by (simp add: sumBalances_exact comp_def)
    with res show "getEthBalancesgraph env graphContract addresses blockTag =
          Inr (map (\<lambda>p. Some (expectedBalance env blockTag addresses p)) [0..<length addresses])
        \<and> sumBalances
            (map (\<lambda>p. Some (expectedBalance env blockTag addresses p)) [0..<length addresses]) =
          (\<Sum>p\<leftarrow>[0..<length addresses]. expectedBalance env blockTag addresses p)" by simp
  qed
  have entry: "\<forall>p rs. chunkAnswer env blockTag addresses (p div chunkSize) = Inr rs
         \<and> p mod chunkSize < length rs \<longrightarrow>
         expectedBalance env blockTag addresses p =
           (case decodedBalance (rs ! (p mod chunkSize)) of Some balance \<Rightarrow> balance | None \<Rightarrow> 0)"
    using expectedBalance_entry by blast
  show ?thesis
    apply (intro conjI)
    using total degrade store entries returns first array entry flags retried by blast+
qed

theorem balance_aggregation_never_fails_witness:
  "getEthBalancesgraph unreachableContract True [holderA, holderB] 14723000 =
     Inr (getFallbackBalances unreachableContract [holderA, holderB] 14723000)
   \<and> getFallbackBalances unreachableContract [holderA, holderB] 14723000 =
       [Some 9007199254740993, Some 0]
   \<and> storeChunkResults 0 [failedEntry, sevenWei] (zeroBalances 2) ! 0 = Some 0
   \<and> storeChunkResults 0 [failedEntry, sevenWei] (zeroBalances 2) ! 1 = Some 7
   \<and> length (storeChunkResults 0 [failedEntry, sevenWei] (zeroBalances 2)) = 2
   \<and> getEthBalancesgraph answeringContract True [holderB, holderA] 14723000 =
       Inr [Some 0, Some 9007199254740993]
   \<and> map (\<lambda>p. Some (expectedBalance answeringContract 14723000 [holderB, holderA] p))
         [0..<length [holderB, holderA]] = [Some 0, Some 9007199254740993]
   \<and> sumBalances [Some 0, Some 9007199254740993] = 9007199254740993
   \<and> (\<exists>err. chunkAnswer unreachableContract 14723000 [holderA, holderB] 0 = Inl err)"
proof -
  have failed: "aggregateBalances unreachableContract [holderA, holderB] 14723000 =
      Inl ''call revert exception''"
    by (simp add: balance_defs)
  have fits: "0 + length [failedEntry, sevenWei] \<le> (2::nat)" by simp
  have flag: "\<not> success ([failedEntry, sevenWei] ! 0)" by (simp add: failedEntry_def)
  have seven: "decodedBalance ([failedEntry, sevenWei] ! (1 - 0)) = Some 7"
    by (simp add: sevenWei_def balance_defs)
  note down = balance_aggregation_never_fails
    [where graphContract = True and env = unreachableContract
       and addresses = "[holderA, holderB]" and blockTag = 14723000 and chunkOffset = 0
       and chunkResults = "[failedEntry, sevenWei]" and n = 2]
  note up = balance_aggregation_never_fails
    [where graphContract = True and env = answeringContract
       and addresses = "[holderB, holderA]" and blockTag = 14723000 and chunkOffset = 0
       and chunkResults = "[failedEntry, sevenWei]" and n = 2]
  have fallback: "getFallbackBalances unreachableContract [holderA, holderB] 14723000 =
       [Some 9007199254740993, Some 0]"
    by (simp add: balance_defs)
  have degraded: "getEthBalancesgraph unreachableContract True [holderA, holderB] 14723000 =
     Inr (getFallbackBalances unreachableContract [holderA, holderB] 14723000)"
    using down failed by blast
  have len: "length (storeChunkResults 0 [failedEntry, sevenWei] (zeroBalances 2)) = 2"
    using down fits by blast
  have zero: "storeChunkResults 0 [failedEntry, sevenWei] (zeroBalances 2) ! (0 + 0) = Some 0"
    using down fits flag by auto
  have "storeChunkResults 0 [failedEntry, sevenWei] (zeroBalances 2) ! 1 =
      (if 0 \<le> (1::nat) \<and> (1::nat) < 0 + length [failedEntry, sevenWei]
       then (case decodedBalance ([failedEntry, sevenWei] ! (1 - 0)) of
               Some balance \<Rightarrow> Some balance | None \<Rightarrow> Some 0)
       else Some 0)"
    using down fits by auto
  then have stored: "storeChunkResults 0 [failedEntry, sevenWei] (zeroBalances 2) ! 1 = Some 7"
    using seven by simp
  have answered: "\<forall>i. i * chunkSize < length [holderB, holderA] \<longrightarrow>
      (\<exists>rs. chunkAnswer answeringContract 14723000 [holderB, holderA] i = Inr rs)"
    by (simp add: chunkAnswer_def aggregateWithRetries.simps answeringContract_def maxRetries_def)
  have answers: "\<forall>i attempt calls rs.
      aggregate3 answeringContract i attempt calls 14723000 = AggregateReturns rs
        \<longrightarrow> length rs \<le> length calls"
    by (auto simp: answeringContract_def)
  have array: "getEthBalancesgraph answeringContract True [holderB, holderA] 14723000 =
      Inr (map (\<lambda>p. Some (expectedBalance answeringContract 14723000 [holderB, holderA] p))
             [0..<length [holderB, holderA]])"
    using up answered answers by blast
  have evaluated: "getEthBalancesgraph answeringContract True [holderB, holderA] 14723000 =
       Inr [Some 0, Some 9007199254740993]"
    by (simp add: balance_defs)
  have summed: "sumBalances [Some 0, Some 9007199254740993] = 9007199254740993"
    by (simp add: sumBalances_def)
  from array evaluated
  have expected: "map (\<lambda>p. Some (expectedBalance answeringContract 14723000 [holderB, holderA] p))
         [0..<length [holderB, holderA]] = [Some 0, Some 9007199254740993]"
    by (simp only: sum.inject)
  have thrown: "\<forall>attempt\<le>maxRetries. \<exists>err.
      aggregate3 unreachableContract 0 attempt
        (map (balanceCall unreachableContract)
           (take chunkSize (drop (0 * chunkSize) [holderA, holderB])))
        14723000 = AggregateThrows err"
    by (simp add: unreachableContract_def)
  have retried: "\<exists>err. chunkAnswer unreachableContract 14723000 [holderA, holderB] 0 = Inl err"
    using down thrown by blast
  from degraded fallback zero stored len evaluated expected summed retried
  show ?thesis by simp
qed

text \<open>
  C10. \<open>getFallbackBalances\<close> returns one balance per address, in the order of the
  addresses, zero where the query threw. When no answer of \<open>aggregate3\<close> has more
  entries than the call had calls, \<open>getEthBalancesgraph\<close> returns an array of the
  length of the address list without holes: position \<open>p\<close> holds the balance decoded
  from entry \<open>p mod 5000\<close> of the answer to chunk \<open>p div 5000\<close>, and zero when that
  entry failed; when the aggregate path threw, it holds the individual balance of
  address \<open>p\<close>.
\<close>

theorem balances_aligned_with_addresses:
  assumes answers: "\<forall>i attempt calls rs.
      aggregate3 env i attempt calls blockTag = AggregateReturns rs
        \<longrightarrow> length rs \<le> length calls"
  shows "getFallbackBalances env addresses blockTag =
           map (\<lambda>address. Some (balanceOrZero env blockTag address)) addresses
       \<and> getEthBalancesgraph env True addresses blockTag =
           Inr (map (\<lambda>p. Some
                  (case aggregateBalances env addresses blockTag of
                     Inr aggregated \<Rightarrow> expectedBalance env blockTag addresses p
                   | Inl err \<Rightarrow> balanceOrZero env blockTag (addresses ! p)))
                [0..<length addresses])
       \<and> (\<forall>err. getBalance env address blockTag = Inl err \<longrightarrow>
             balanceOrZero env blockTag address = 0)
       \<and> (\<forall>rs. chunkAnswer env blockTag addresses (p div chunkSize) = Inr rs
             \<and> \<not> success (rs ! (p mod chunkSize)) \<longrightarrow>
             expectedBalance env blockTag addresses p = 0)"
proof -
  have fallback: "getFallbackBalances env addresses blockTag =
           map (\<lambda>address. Some (balanceOrZero env blockTag address)) addresses"
    by (rule getFallbackBalances_map)
  have graph: "getEthBalancesgraph env True addresses blockTag =
           Inr (map (\<lambda>p. Some
                  (case aggregateBalances env addresses blockTag of
                     Inr aggregated \<Rightarrow> expectedBalance env blockTag addresses p
                   | Inl err \<Rightarrow> balanceOrZero env blockTag (addresses ! p)))
                [0..<length addresses])"
  proof (cases "aggregateBalances env addresses blockTag")
    case (Inr balances)
    from aggregateBalances_expected [OF Inr answers] Inr show ?thesis
      by (simp add: getEthBalancesgraph_def)
  next
    case (Inl err)
    have "map (\<lambda>address. Some (balanceOrZero env blockTag address)) addresses =
        map (\<lambda>p. Some (balanceOrZero env blockTag (addresses ! p))) [0..<length addresses]"
      by (rule nth_equalityI) simp_all
    with Inl fallback show ?thesis by (simp add: getEthBalancesgraph_def)
  qed
  have thrown: "\<forall>err. getBalance env address blockTag = Inl err \<longrightarrow>
             balanceOrZero env blockTag address = 0"
    by (simp add: balanceOrZero_def)
  have flagged: "\<forall>rs. chunkAnswer env blockTag addresses (p div chunkSize) = Inr rs
             \<and> \<not> success (rs ! (p mod chunkSize)) \<longrightarrow>
             expectedBalance env blockTag addresses p = 0"
    by (simp add: expectedBalance_def decodedBalance_def)
  from fallback graph thrown flagged show ?thesis by blast
qed

theorem balances_aligned_with_addresses_witness:
  "getEthBalancesgraph answeringContract True [holderA, holderB] 14723000 =
     Inr [Some 9007199254740993, Some 0]
   \<and> balanceOrZero answeringContract 14723000 holderB = 0
   \<and> expectedBalance answeringContract 14723000 [holderA, holderB] 1 = 0"
proof -
  have answers: "\<forall>i attempt calls rs.
      aggregate3 answeringContract i attempt calls 14723000 = AggregateReturns rs
        \<longrightarrow> length rs \<le> length calls"
    by (auto simp: answeringContract_def)
  note inst = balances_aligned_with_addresses
    [of answeringContract 14723000 "[holderA, holderB]" holderB 1, OF answers]
  have thrown: "getBalance answeringContract holderB 14723000 = Inl ''missing trie node''"
    by (simp add: answeringContract_def holderA_def holderB_def)
  have answer: "chunkAnswer answeringContract 14723000 [holderA, holderB] (1 div chunkSize) =
      Inr [\<lparr> success = True, returnData =
               ''0x0000000000000000000000000000000000000000000000000020000000000001'' \<rparr>,
           \<lparr> success = False, returnData = ''0x'' \<rparr>]"
    by (simp add: chunkAnswer_def balance_defs)
  have flag: "\<not> success ([\<lparr> success = True, returnData =
               ''0x0000000000000000000000000000000000000000000000000020000000000001'' \<rparr>,
           \<lparr> success = False, returnData = ''0x'' \<rparr>] ! (1 mod chunkSize))"
    by (simp add: chunkSize_def)
  have evaluated: "getEthBalancesgraph answeringContract True [holderA, holderB] 14723000 =
     Inr [Some 9007199254740993, Some 0]"
    by (simp add: balance_defs)
  from inst thrown answer flag evaluated show ?thesis by blast
qed

subsection \<open>Decimal strings\<close>

lemma of_char_digitChar: "d < 10 \<Longrightarrow> (of_char (digitChar d) :: nat) = 48 + d"
  by (simp add: digitChar_def)

lemma digitChar_isDigit: "d < 10 \<Longrightarrow> isDigit (digitChar d)"
  by (simp add: isDigit_def of_char_digitChar)

lemma digitChar_value: "d < 10 \<Longrightarrow> digitValue (digitChar d) = d"
  by (simp add: digitValue_def isDigit_def of_char_digitChar)

lemma isDigit_not_sign: "isDigit c \<Longrightarrow> c \<noteq> CHR ''-'' \<and> c \<noteq> CHR ''x'' \<and> c \<noteq> CHR ''X''"
proof -
  assume d: "isDigit c"
  have "\<not> isDigit CHR ''-''" "\<not> isDigit CHR ''x''" "\<not> isDigit CHR ''X''"
    by (simp_all add: isDigit_def)
  with d show ?thesis by blast
qed

lemma decimalDigits_digits: "list_all isDigit (decimalDigits n)"
proof (induction n rule: decimalDigits.induct)
  case (1 n)
  show ?case
  proof (cases "n < 10")
    case True
    then show ?thesis by (subst decimalDigits.simps) (simp add: digitChar_isDigit)
  next
    case False
    have "isDigit (digitChar (n mod 10))" by (simp add: digitChar_isDigit)
    with False "1.IH" show ?thesis by (subst decimalDigits.simps) simp
  qed
qed

lemma decimalDigits_nonempty: "decimalDigits n \<noteq> []"
  by (subst decimalDigits.simps) simp

lemma decimalDigits_value: "numeralValue 10 (decimalDigits n) = n"
proof (induction n rule: decimalDigits.induct)
  case (1 n)
  show ?case
  proof (cases "n < 10")
    case True
    then show ?thesis
      by (subst decimalDigits.simps) (simp add: numeralValue_def digitChar_value)
  next
    case False
    have "numeralValue 10 (decimalDigits (n div 10) @ [digitChar (n mod 10)]) =
        numeralValue 10 (decimalDigits (n div 10)) * 10 + n mod 10"
      by (simp add: numeralValue_def digitChar_value)
    also have "\<dots> = n" using "1.IH" False by simp
    finally show ?thesis using False by (subst decimalDigits.simps) simp
  qed
qed

lemma unsignedFrom_digits:
  assumes "s \<noteq> []" "list_all isDigit s"
  shows "unsignedFrom s = Some (numeralValue 10 s)"
proof (cases s)
  case Nil
  with assms show ?thesis by simp
next
  case (Cons c0 rest)
  show ?thesis
  proof (cases rest)
    case Nil
    with Cons assms show ?thesis by (simp add: unsignedFrom_def)
  next
    case (Cons cx hex)
    have "isDigit cx" using assms \<open>s = c0 # rest\<close> Cons by simp
    then have "cx \<noteq> CHR ''x'' \<and> cx \<noteq> CHR ''X''" using isDigit_not_sign by blast
    with Cons \<open>s = c0 # rest\<close> assms show ?thesis by (simp add: unsignedFrom_def)
  qed
qed

lemma unsignedFrom_decimalDigits: "unsignedFrom (decimalDigits n) = Some n"
proof -
  have "unsignedFrom (decimalDigits n) = Some (numeralValue 10 (decimalDigits n))"
    by (rule unsignedFrom_digits [OF decimalDigits_nonempty decimalDigits_digits])
  then show ?thesis by (simp only: decimalDigits_value)
qed

lemma BigNumber_roundtrip: "BigNumber_from (BigNumber_toString n) = Some n"
proof (cases "n < 0")
  case True
  then show ?thesis
    by (simp add: BigNumber_from_def BigNumber_toString_def unsignedFrom_decimalDigits)
next
  case False
  obtain c rest where ds: "decimalDigits (nat n) = c # rest"
    using decimalDigits_nonempty [of "nat n"] by (cases "decimalDigits (nat n)") auto
  have "isDigit c" using decimalDigits_digits [of "nat n"] ds by simp
  then have "c \<noteq> CHR ''-''" using isDigit_not_sign by blast
  moreover have "unsignedFrom (c # rest) = Some (nat n)"
    using unsignedFrom_decimalDigits [of "nat n"] ds by simp
  ultimately show ?thesis using False ds
    by (simp add: BigNumber_from_def BigNumber_toString_def)
qed

lemma BigNumber_toString_nonempty: "BigNumber_toString n \<noteq> []"
  by (simp add: BigNumber_toString_def decimalDigits_nonempty)

lemma char_of_eqI: "(of_char c :: nat) = n \<Longrightarrow> char_of n = c"
  by (metis char_of_char)

lemma digitChar_literals:
  "digitChar 0 = CHR ''0''" "digitChar (Suc 0) = CHR ''1''" "digitChar 2 = CHR ''2''"
  "digitChar 3 = CHR ''3''" "digitChar 4 = CHR ''4''" "digitChar 5 = CHR ''5''"
  "digitChar 6 = CHR ''6''" "digitChar 7 = CHR ''7''" "digitChar 8 = CHR ''8''"
  "digitChar 9 = CHR ''9''"
  unfolding digitChar_def by (rule char_of_eqI, simp)+

lemma Number_toString_demo: "Number_toString 1651363200 = ''1651363200''"
  by (simp add: Number_toString_def decimalDigits.simps digitChar_literals)

subsection \<open>Result store and orchestrator\<close>

lemma cachedResultOf_saved:
  "file \<noteq> Unparsable \<Longrightarrow>
   cachedResultOf (saveResultsToFile True isoTime file implementationId key result)
     implementationId key = Some (resultToSave implementationId isoTime result)"
  by (cases "file") (simp_all add: cachedResultOf_def saveResultsToFile_def getPreviousResults_def)

lemma fromCachedResult_saved:
  assumes "totalEth result \<noteq> []" "methodName result \<noteq> []" "implementation result \<noteq> []"
  shows "fromCachedResult (resultToSave implementationId isoTime result) fresh =
     Inr (result \<lparr> fromCache := Some True \<rparr>)"
  using assms
  by (simp add: fromCachedResult_def resultToSave_def BigNumber_toString_nonempty
      BigNumber_roundtrip)

text \<open>
  C9. After a successful save of a result under (implementation, timestamp key), the
  results file holds an entry whose fields are those of the result, with the total as
  its decimal string, and that string reads back as exactly the same integer. Each
  later cached call of \<open>getTotalEthValueOfHolders\<close> for the optimized solution returns
  the result itself, marked as cached, and leaves the file as it is; the API handler
  answers with the stored entry marked as cached. The strings \<open>totalEth\<close>, \<open>method\<close>
  and \<open>implementation\<close> of a computed result are not empty.
\<close>

theorem saved_result_round_trip:
  assumes parsable: "file \<noteq> Unparsable"
    and filled: "totalEth result \<noteq> []" "methodName result \<noteq> []" "implementation result \<noteq> []"
  shows "cachedResultOf (saveResultsToFile True isoTime file implementationId key result)
           implementationId key = Some (resultToSave implementationId isoTime result)
       \<and> stored_totalWei (resultToSave implementationId isoTime result) =
           Some (BigNumber_toString (totalWei result))
       \<and> BigNumber_from (BigNumber_toString (totalWei result)) = Some (totalWei result)
       \<and> stored_blockNumber (resultToSave implementationId isoTime result) =
           Some (blockNumber result)
       \<and> stored_block (resultToSave implementationId isoTime result) = blockNumber result
       \<and> stored_holderCount (resultToSave implementationId isoTime result) = holderCount result
       \<and> stored_totalEth (resultToSave implementationId isoTime result) = totalEth result
       \<and> stored_executionTime (resultToSave implementationId isoTime result) =
           executionTime result
       \<and> stored_metrics (resultToSave implementationId isoTime result) = Some (metrics result)
       \<and> stored_method (resultToSave implementationId isoTime result) = Some (methodName result)
       \<and> stored_implementation (resultToSave implementationId isoTime result) =
           implementation result
       \<and> stored_error (resultToSave implementationId isoTime result) = error result
       \<and> getTotalEthValueOfHolders env
            (saveResultsToFile True isoTime file ''optimizedSolution''
               (Number_toString timestamp) result) timestamp =
           (result \<lparr> fromCache := Some True \<rparr>,
            saveResultsToFile True isoTime file ''optimizedSolution''
              (Number_toString timestamp) result)
       \<and> handler env
            (saveResultsToFile True isoTime file ''optimizedSolution''
               (Number_toString timestamp) result) timestamp True =
           (Inl ((resultToSave ''optimizedSolution'' isoTime result)
                   \<lparr> stored_fromCache := Some True \<rparr>),
            saveResultsToFile True isoTime file ''optimizedSolution''
              (Number_toString timestamp) result)"
proof -
  have entry: "\<And>impl k. cachedResultOf (saveResultsToFile True isoTime file impl k result) impl k
      = Some (resultToSave impl isoTime result)"
    using cachedResultOf_saved [OF parsable] .
  have fields: "stored_totalWei (resultToSave implementationId isoTime result) =
           Some (BigNumber_toString (totalWei result))
       \<and> stored_blockNumber (resultToSave implementationId isoTime result) =
           Some (blockNumber result)
       \<and> stored_block (resultToSave implementationId isoTime result) = blockNumber result
       \<and> stored_holderCount (resultToSave implementationId isoTime result) = holderCount result
       \<and> stored_totalEth (resultToSave implementationId isoTime result) = totalEth result
       \<and> stored_executionTime (resultToSave implementationId isoTime result) =
           executionTime result
       \<and> stored_metrics (resultToSave implementationId isoTime result) = Some (metrics result)
       \<and> stored_method (resultToSave implementationId isoTime result) = Some (methodName result)
       \<and> stored_implementation (resultToSave implementationId isoTime result) =
           implementation result
       \<and> stored_error (resultToSave implementationId isoTime result) = error result"
    using filled by (simp add: resultToSave_def)
  have cached: "getTotalEthValueOfHolders env
            (saveResultsToFile True isoTime file ''optimizedSolution''
               (Number_toString timestamp) result) timestamp =
           (result \<lparr> fromCache := Some True \<rparr>,
            saveResultsToFile True isoTime file ''optimizedSolution''
              (Number_toString timestamp) result)"
    by (simp add: getTotalEthValueOfHolders_def entry fromCachedResult_saved [OF filled])
  have served: "handler env
            (saveResultsToFile True isoTime file ''optimizedSolution''
               (Number_toString timestamp) result) timestamp True =
           (Inl ((resultToSave ''optimizedSolution'' isoTime result)
                   \<lparr> stored_fromCache := Some True \<rparr>),
            saveResultsToFile True isoTime file ''optimizedSolution''
              (Number_toString timestamp) result)"
    by (simp add: handler_def entry handlerCachedAnswer_def)
  from entry [of implementationId key] fields BigNumber_roundtrip [of "totalWei result"]
    cached served
  show ?thesis by simp
qed

lemma workingPipeline_run:
  "getTotalEthValueOfHolders workingPipeline NoFile 1651363200 =
     (\<lparr> blockNumber = 14723000, holderCount = 2, totalWei = 9007199254740993,
        totalEth = ''0.009007199254740993'', executionTime = 70,
        metrics = \<lparr> blockResolutionTime = 10, holdersResolutionTime = 10,
                    balanceResolutionTime = 10, totalTime = 70 \<rparr>,
        methodName = ''Optimized pipeline with enhanced caching'',
        implementation = ''optimizedSolution'', error = None, fromCache = None \<rparr>,
      saveResultsToFile True ''2025-01-01T00:00:00.000Z'' NoFile ''optimizedSolution''
        (Number_toString 1651363200)
        \<lparr> blockNumber = 14723000, holderCount = 2, totalWei = 9007199254740993,
          totalEth = ''0.009007199254740993'', executionTime = 70,
          metrics = \<lparr> blockResolutionTime = 10, holdersResolutionTime = 10,
                      balanceResolutionTime = 10, totalTime = 70 \<rparr>,
          methodName = ''Optimized pipeline with enhanced caching'',
          implementation = ''optimizedSolution'', error = None, fromCache = None \<rparr>)"
proof -
  have balances: "getEthBalancesgraph answeringContract True [holderA, holderB] 14723000 =
      Inr [Some 9007199254740993, Some 0]"
    by (simp add: balance_defs)
  have holders: "[holderA, holderB] \<noteq> []" by simp
  show ?thesis
    by (simp add: getTotalEthValueOfHolders_def workingPipeline_def offlinePipeline_def
        cachedResultOf_def getPreviousResults_def zeroMetrics_def sumBalances_def
        balances Let_def)
qed

theorem saved_result_round_trip_witness:
  "totalWei (fst (getTotalEthValueOfHolders workingPipeline
       (snd (getTotalEthValueOfHolders workingPipeline NoFile 1651363200)) 1651363200))
     = 9007199254740993
   \<and> fromCache (fst (getTotalEthValueOfHolders workingPipeline
       (snd (getTotalEthValueOfHolders workingPipeline NoFile 1651363200)) 1651363200))
     = Some True
   \<and> snd (getTotalEthValueOfHolders workingPipeline
       (snd (getTotalEthValueOfHolders workingPipeline NoFile 1651363200)) 1651363200)
     = snd (getTotalEthValueOfHolders workingPipeline NoFile 1651363200)"
proof -
  define computed where "computed =
     \<lparr> blockNumber = 14723000, holderCount = 2, totalWei = 9007199254740993,
        totalEth = ''0.009007199254740993'', executionTime = 70,
        metrics = \<lparr> blockResolutionTime = 10, holdersResolutionTime = 10,
                    balanceResolutionTime = 10, totalTime = 70 \<rparr>,
        methodName = ''Optimized pipeline with enhanced caching'',
        implementation = ''optimizedSolution'', error = None, fromCache = None \<rparr>"
  have parsable: "NoFile \<noteq> Unparsable" by simp
  have filled: "totalEth computed \<noteq> []" "methodName computed \<noteq> []" "implementation computed \<noteq> []"
    by (simp_all add: computed_def)
  note inst = saved_result_round_trip
    [of NoFile computed "''2025-01-01T00:00:00.000Z''" "''optimizedSolution''"
        "Number_toString 1651363200" workingPipeline 1651363200, OF parsable filled]
  have first: "snd (getTotalEthValueOfHolders workingPipeline NoFile 1651363200) =
      saveResultsToFile True ''2025-01-01T00:00:00.000Z'' NoFile ''optimizedSolution''
        (Number_toString 1651363200) computed"
    by (simp add: workingPipeline_run computed_def)
  from inst first show ?thesis by (simp add: computed_def)
qed

text \<open>
  C8, as the code has it. When no cached entry exists and a stage throws (block
  resolution, holder retrieval, the check for an empty holder list, balance
  retrieval), the orchestrator returns the zero-valued result carrying the error
  message and the metrics recorded so far, and the results file is left as it was:
  \<open>saveResultsToFile\<close> is only reached on the success path, so a result that carries
  an error is never written.
\<close>

theorem pipeline_error_not_persisted:
  assumes miss: "cachedResultOf file ''optimizedSolution'' (Number_toString timestamp) = None"
  shows "(\<forall>message. resolveStage env timestamp = Inl message \<longrightarrow>
            getTotalEthValueOfHolders env file timestamp =
              (errorResult (''Block resolution failed: '' @ message)
                 (zeroMetrics \<lparr> totalTime := clock env 2 - clock env 0 \<rparr>), file))
       \<and> (\<forall>resolved message. resolveStage env timestamp = Inr resolved
              \<and> holdersStage env resolved = Inl message \<longrightarrow>
            getTotalEthValueOfHolders env file timestamp =
              (errorResult (''Holders retrieval failed: '' @ message)
                 (zeroMetrics \<lparr> blockResolutionTime := clock env 2 - clock env 1,
                                totalTime := clock env 4 - clock env 0 \<rparr>), file))
       \<and> (\<forall>resolved. resolveStage env timestamp = Inr resolved
              \<and> holdersStage env resolved = Inr [] \<longrightarrow>
            getTotalEthValueOfHolders env file timestamp =
              (errorResult ''No holders found - cannot proceed with balance retrieval''
                 (zeroMetrics \<lparr> blockResolutionTime := clock env 2 - clock env 1,
                                holdersResolutionTime := clock env 4 - clock env 3,
                                totalTime := clock env 5 - clock env 0 \<rparr>), file))
       \<and> (\<forall>resolved holders message. resolveStage env timestamp = Inr resolved
              \<and> holdersStage env resolved = Inr holders \<and> holders \<noteq> []
              \<and> balancesStage env holders resolved = Inl message \<longrightarrow>
            getTotalEthValueOfHolders env file timestamp =
              (errorResult (''Balance retrieval failed: '' @ message)
                 (zeroMetrics \<lparr> blockResolutionTime := clock env 2 - clock env 1,
                                holdersResolutionTime := clock env 4 - clock env 3,
                                totalTime := clock env 6 - clock env 0 \<rparr>), file))
       \<and> blockNumber (errorResult message m) = 0
       \<and> holderCount (errorResult message m) = 0
       \<and> totalWei (errorResult message m) = 0
       \<and> error (errorResult message m) = Some message
       \<and> metrics (errorResult message m) = m
       \<and> (error (fst (getTotalEthValueOfHolders env file timestamp)) \<noteq> None \<longrightarrow>
            snd (getTotalEthValueOfHolders env file timestamp) = file)"
proof -
  have never: "error (fst (getTotalEthValueOfHolders env file timestamp)) \<noteq> None \<longrightarrow>
      snd (getTotalEthValueOfHolders env file timestamp) = file"
    by (simp add: getTotalEthValueOfHolders_def miss Let_def split: sum.splits)
  show ?thesis
    using miss never
    by (simp add: getTotalEthValueOfHolders_def errorResult_def Let_def)
qed

theorem pipeline_error_not_persisted_witness:
  "getTotalEthValueOfHolders offlinePipeline NoFile 1651363200 =
     (errorResult ''Block resolution failed: Network Error''
        (zeroMetrics \<lparr> totalTime := 20 \<rparr>), NoFile)
   \<and> blockNumber (fst (getTotalEthValueOfHolders offlinePipeline NoFile 1651363200)) = 0"
proof -
  have miss: "cachedResultOf NoFile ''optimizedSolution'' (Number_toString 1651363200) = None"
    by (simp add: cachedResultOf_def getPreviousResults_def)
  have failing: "resolveStage offlinePipeline 1651363200 = Inl ''Network Error''"
    by (simp add: offlinePipeline_def)
  have clocks: "clock offlinePipeline 2 - clock offlinePipeline 0 = 20"
    by (simp add: offlinePipeline_def)
  note inst = pipeline_error_not_persisted
    [of NoFile 1651363200 offlinePipeline "''Block resolution failed: Network Error''"
        "zeroMetrics \<lparr> totalTime := 20 \<rparr>", OF miss]
  from inst failing clocks show ?thesis by simp
qed

text \<open>
  C8 as stated fails: with no results file and a block resolution that throws, the
  orchestrator returns the error result and there is still no results file, so a
  later call finds no cached entry for the timestamp.
\<close>

theorem error_result_persisted_counterexample:
  "error (fst (getTotalEthValueOfHolders offlinePipeline NoFile 1651363200)) =
     Some ''Block resolution failed: Network Error''
   \<and> snd (getTotalEthValueOfHolders offlinePipeline NoFile 1651363200) = NoFile
   \<and> cachedResultOf (snd (getTotalEthValueOfHolders offlinePipeline NoFile 1651363200))
        ''optimizedSolution'' (Number_toString 1651363200) = None"
  by (simp add: getTotalEthValueOfHolders_def offlinePipeline_def cachedResultOf_def
      getPreviousResults_def errorResult_def Let_def)

text \<open>
  C1. The total is the exact integer sum of the balances in the array, whatever they
  are: the \<open>reduce\<close> adds arbitrary-precision integers and skips nothing but the holes
  of the array. Two balances of \<open>2^53 + 1\<close> wei add up exactly; over the individual
  queries the total is the sum, address by address, of the balance obtained for the
  block (zero where the query failed); and the total of a computed result of the
  orchestrator is the exact sum of the array the balance stage returned.
\<close>

theorem total_is_exact_sum:
  "sumBalances balances = (\<Sum>balance\<leftarrow>balances. case balance of Some b \<Rightarrow> b | None \<Rightarrow> 0)
   \<and> sumBalances (map Some amounts) = sum_list amounts
   \<and> sumBalances (getFallbackBalances env addresses blockTag) =
        (\<Sum>address\<leftarrow>addresses. balanceOrZero env blockTag address)
   \<and> sumBalances [Some 9007199254740993, Some 9007199254740993] = 18014398509481986
   \<and> (cachedResultOf file ''optimizedSolution'' (Number_toString timestamp) = None
        \<and> resolveStage pipeline timestamp = Inr resolved
        \<and> holdersStage pipeline resolved = Inr holders \<and> holders \<noteq> []
        \<and> balancesStage pipeline holders resolved = Inr stageBalances \<longrightarrow>
      totalWei (fst (getTotalEthValueOfHolders pipeline file timestamp)) =
        (\<Sum>balance\<leftarrow>stageBalances. case balance of Some b \<Rightarrow> b | None \<Rightarrow> 0))"
proof -
  have plain: "sumBalances (map Some amounts) = sum_list amounts"
    by (simp add: sumBalances_exact comp_def)
  have fallback: "sumBalances (getFallbackBalances env addresses blockTag) =
        (\<Sum>address\<leftarrow>addresses. balanceOrZero env blockTag address)"
    by (simp add: sumBalances_exact getFallbackBalances_map comp_def)
  have big: "sumBalances [Some 9007199254740993, Some 9007199254740993] = 18014398509481986"
    by (simp add: sumBalances_def)
  have computed: "cachedResultOf file ''optimizedSolution'' (Number_toString timestamp) = None
        \<and> resolveStage pipeline timestamp = Inr resolved
        \<and> holdersStage pipeline resolved = Inr holders \<and> holders \<noteq> []
        \<and> balancesStage pipeline holders resolved = Inr stageBalances \<longrightarrow>
      totalWei (fst (getTotalEthValueOfHolders pipeline file timestamp)) =
        (\<Sum>balance\<leftarrow>stageBalances. case balance of Some b \<Rightarrow> b | None \<Rightarrow> 0)"
    by (simp add: getTotalEthValueOfHolders_def Let_def sumBalances_exact)
  from sumBalances_exact [of balances] plain fallback big computed show ?thesis by blast
qed

theorem total_is_exact_sum_witness:
  "totalWei (fst (getTotalEthValueOfHolders workingPipeline NoFile 1651363200)) =
     9007199254740993
   \<and> getEthBalancesgraph answeringContract True [holderA, holderB] 14723000 =
     Inr [Some 9007199254740993, Some 0]"
proof -
  have miss: "cachedResultOf NoFile ''optimizedSolution'' (Number_toString 1651363200) = None"
    by (simp add: cachedResultOf_def getPreviousResults_def)
  have resolved: "resolveStage workingPipeline 1651363200 = Inr 14723000"
    by (simp add: workingPipeline_def offlinePipeline_def)
  have found: "holdersStage workingPipeline 14723000 = Inr [holderA, holderB]"
    by (simp add: workingPipeline_def offlinePipeline_def)
  have nonempty: "[holderA, holderB] \<noteq> []" by simp
  have balances: "getEthBalancesgraph answeringContract True [holderA, holderB] 14723000 =
      Inr [Some 9007199254740993, Some 0]"
    by (simp add: balance_defs)
  then have stage: "balancesStage workingPipeline [holderA, holderB] 14723000 =
      Inr [Some 9007199254740993, Some 0]"
    by (simp add: workingPipeline_def offlinePipeline_def)
  note inst = total_is_exact_sum
    [of "[]" "[]" answeringContract "[]" 14723000 NoFile 1651363200 workingPipeline 14723000
        "[holderA, holderB]" "[Some 9007199254740993, Some 0]"]
  from inst miss resolved found nonempty stage balances show ?thesis by simp
qed

end
